theory Spec2Isabelle
  imports Main "HOL-Library.AList"
begin

section \<open>Python values, errors and dictionaries\<close>

text \<open>
  The checkpoint loader \<^verbatim>\<open>tools/checkpoint/loader_core.py\<close> walks the shards of a
  Megatron checkpoint and pushes named-tensor messages onto a queue; the schema
  \<^verbatim>\<open>tools/checkpoint/schema_core.py\<close> names the parameters of one shard. Both are
  embedded here as HOL functions. Every \<^verbatim>\<open>raise\<close>, failed \<^verbatim>\<open>assert\<close>, failed
  subscript and \<^verbatim>\<open>exit(1)\<close> of the source is a value of \<open>error\<close>, returned as
  \<open>Inl\<close>.
\<close>

datatype error =
    AssertionError
  | KeyError string
  | IndexError
  | TypeError
  | ValueError
  | RuntimeError
  | ZeroDivisionError
  | UnboundLocalError string
  | FileNotFoundError string
  | Exception string
  | SystemExit nat

text \<open>
  \<^verbatim>\<open>except Exception\<close> catches every error above but \<^verbatim>\<open>SystemExit\<close>, which
  derives from \<^verbatim>\<open>BaseException\<close> only.
\<close>

fun is_Exception :: "error \<Rightarrow> bool" where
  "is_Exception (SystemExit c) = False"
| "is_Exception e = True"

definition bind_err :: "'e + 'a \<Rightarrow> ('a \<Rightarrow> 'e + 'b) \<Rightarrow> 'e + 'b" where
  "bind_err m f = (case m of Inl e \<Rightarrow> Inl e | Inr x \<Rightarrow> f x)"

fun map_err :: "('a \<Rightarrow> error + 'b) \<Rightarrow> 'a list \<Rightarrow> error + 'b list" where
  "map_err f [] = Inr []"
| "map_err f (x # xs) = bind_err (f x) (\<lambda>y. bind_err (map_err f xs) (\<lambda>ys. Inr (y # ys)))"

text \<open>
  A tensor is kept by its rank and its entries: a zero-dimensional tensor, a vector (a
  bias), or a matrix as the list of its rows (a weight; axis 0 runs over the rows, axis 1
  along a row). The loader only rearranges entries and never computes with them, so the
  entries are integers standing for whatever the parameter dtype holds.
\<close>

datatype tensor = T0 int | T1 "int list" | T2 "int list list"

datatype pyval = PNone | PTensor tensor | PTuple "pyval list" | PStr string

type_synonym pydict = "(string \<times> pyval) list"

text \<open>
  A Python \<^verbatim>\<open>dict\<close> with string keys is an association list in insertion order;
  \<^verbatim>\<open>d[k] = v\<close> is \<^const>\<open>AList.update\<close>, \<^verbatim>\<open>d[k]\<close> raises \<^verbatim>\<open>KeyError\<close> on a
  missing key and \<^verbatim>\<open>d.get(k)\<close> gives \<^verbatim>\<open>None\<close> there.
\<close>

definition getitem :: "pydict \<Rightarrow> string \<Rightarrow> error + pyval" where
  "getitem d k = (case map_of d k of None \<Rightarrow> Inl (KeyError k) | Some v \<Rightarrow> Inr v)"

definition dict_get :: "pydict \<Rightarrow> string \<Rightarrow> pyval" where
  "dict_get d k = (case map_of d k of None \<Rightarrow> PNone | Some v \<Rightarrow> v)"

definition setitem :: "pydict \<Rightarrow> string \<Rightarrow> pyval \<Rightarrow> pydict" where
  "setitem d k v = AList.update k v d"

text \<open>\<^verbatim>\<open>xs[i]\<close> on a list, with \<^verbatim>\<open>IndexError\<close> out of range.\<close>

definition list_index :: "'a list \<Rightarrow> nat \<Rightarrow> error + 'a" where
  "list_index xs i = (if i < length xs then Inr (xs ! i) else Inl IndexError)"

text \<open>
  \<^verbatim>\<open>w[i]\<close> on a value: an element of a tuple, a slice of a tensor along axis 0, a
  character of a string; \<^verbatim>\<open>None\<close> is not subscriptable.
\<close>

fun subscript :: "pyval \<Rightarrow> nat \<Rightarrow> error + pyval" where
  "subscript (PTuple vs) i = list_index vs i"
| "subscript (PTensor (T2 rows)) i = bind_err (list_index rows i) (\<lambda>r. Inr (PTensor (T1 r)))"
| "subscript (PTensor (T1 xs)) i = bind_err (list_index xs i) (\<lambda>x. Inr (PTensor (T0 x)))"
| "subscript (PTensor (T0 x)) i = Inl IndexError"
| "subscript (PStr s) i = bind_err (list_index s i) (\<lambda>c. Inr (PStr [c]))"
| "subscript PNone i = Inl TypeError"

section \<open>The tensor operations the loader calls\<close>

text \<open>
  \<^verbatim>\<open>torch.cat\<close> and \<^verbatim>\<open>torch.chunk\<close> belong to the PyTorch library. They are modelled
  by their documented behaviour on the ranks above: \<^verbatim>\<open>torch.cat(ts, dim=0)\<close> appends
  vectors, or the rows of matrices of one width; \<^verbatim>\<open>torch.cat(ts, dim=1)\<close> appends the
  matrices row by row and needs equal row counts; both refuse an empty list
  (\<^verbatim>\<open>ValueError\<close>), a non-tensor, a zero-dimensional tensor and mixed ranks, except that
  a vector without entries among matrices is passed over; axis 1 is out of range when
  the first tensor that counts is a vector. \<^verbatim>\<open>torch.chunk(t, 2, dim=0)\<close>
  cuts \<open>n\<close> slices into pieces of \<open>\<lceil>n / 2\<rceil>\<close>: two empty pieces for \<open>n = 0\<close>, one
  piece for \<open>n = 1\<close>, two pieces otherwise.
\<close>

fun is_tensor :: "pyval \<Rightarrow> bool" where
  "is_tensor (PTensor t) = True"
| "is_tensor v = False"

fun is_scalar :: "pyval \<Rightarrow> bool" where
  "is_scalar (PTensor (T0 x)) = True"
| "is_scalar v = False"

fun is_vec :: "pyval \<Rightarrow> bool" where
  "is_vec (PTensor (T1 xs)) = True"
| "is_vec v = False"

fun is_mat :: "pyval \<Rightarrow> bool" where
  "is_mat (PTensor (T2 rows)) = True"
| "is_mat v = False"

fun vec_of :: "pyval \<Rightarrow> int list" where
  "vec_of (PTensor (T1 xs)) = xs"
| "vec_of v = []"

fun mat_of :: "pyval \<Rightarrow> int list list" where
  "mat_of (PTensor (T2 rows)) = rows"
| "mat_of v = []"

fun same_width :: "int list list \<Rightarrow> bool" where
  "same_width [] = True"
| "same_width (r # rs) = list_all (\<lambda>x. length x = length r) rs"

definition skip_empty :: "pyval list \<Rightarrow> pyval list" where
  "skip_empty ts = filter (\<lambda>t. t \<noteq> PTensor (T1 [])) ts"

definition torch_cat0 :: "pyval list \<Rightarrow> error + pyval" where
  "torch_cat0 ts =
     (if ts = [] then Inl ValueError
      else if \<not> list_all is_tensor ts then Inl TypeError
      else if list_all is_vec ts then Inr (PTensor (T1 (concat (map vec_of ts))))
      else if list_all is_mat (skip_empty ts) \<and> same_width (concat (map mat_of (skip_empty ts)))
        then Inr (PTensor (T2 (concat (map mat_of (skip_empty ts)))))
      else Inl RuntimeError)"

fun hcat :: "int list list list \<Rightarrow> int list list" where
  "hcat [] = []"
| "hcat [m] = m"
| "hcat (m # ms) = map2 (@) m (hcat ms)"

definition torch_cat1 :: "pyval list \<Rightarrow> error + pyval" where
  "torch_cat1 ts =
     (if ts = [] then Inl ValueError
      else if \<not> list_all is_tensor ts then Inl TypeError
      else if list_all is_vec ts then Inl IndexError
      else if list_ex is_scalar ts then Inl RuntimeError
      else if is_vec (hd (skip_empty ts)) then Inl IndexError
      else if list_all is_mat (skip_empty ts)
              \<and> list_all (\<lambda>t. length (mat_of t) = length (mat_of (hd (skip_empty ts))))
                    (skip_empty ts)
        then Inr (PTensor (T2 (hcat (map mat_of (skip_empty ts)))))
      else Inl RuntimeError)"

definition chunk_list :: "'a list \<Rightarrow> 'a list list" where
  "chunk_list xs =
     (let n = length xs; c = (n + 1) div 2
      in if n = 0 then [[], []]
         else if n \<le> c then [xs]
         else [take c xs, drop c xs])"

fun torch_chunk :: "pyval \<Rightarrow> error + pyval" where
  "torch_chunk (PTensor (T1 xs)) = Inr (PTuple (map (\<lambda>c. PTensor (T1 c)) (chunk_list xs)))"
| "torch_chunk (PTensor (T2 rows)) = Inr (PTuple (map (\<lambda>c. PTensor (T2 c)) (chunk_list rows)))"
| "torch_chunk (PTensor (T0 x)) = Inl RuntimeError"
| "torch_chunk v = Inl TypeError"

text \<open>\<^verbatim>\<open>t.cpu()\<close> leaves the entries of a tensor as they are.\<close>

fun cpu :: "pyval \<Rightarrow> error + pyval" where
  "cpu (PTensor t) = Inr (PTensor t)"
| "cpu v = Inl TypeError"

section \<open>Gated linear units: the merge of the first MLP linear\<close>

text \<open>
  Lines 349-354 and 365-369 of \<^verbatim>\<open>_load_checkpoint\<close>:
  \<^verbatim>\<open>
  for tp_rank in range(tp_size):
      mlp_l0_weight[tp_rank] = torch.chunk(mlp_l0_weight[tp_rank], 2, dim=0)
  message["mlp l0 weight W"] = torch.cat([w[0] for w in mlp_l0_weight], dim=0)
  message["mlp l0 weight V"] = torch.cat([w[1] for w in mlp_l0_weight], dim=0)
  \<close>
  \<open>chunk_ranks\<close> is the loop over the ranks, \<open>swiglu_merge\<close> the whole step; it writes
  the two fields under the labels \<open>kW\<close> and \<open>kV\<close>.
\<close>

fun chunk_ranks :: "nat list \<Rightarrow> pyval list \<Rightarrow> error + pyval list" where
  "chunk_ranks [] ws = Inr ws"
| "chunk_ranks (tp_rank # rest) ws =
     bind_err (list_index ws tp_rank) (\<lambda>w.
     bind_err (torch_chunk w) (\<lambda>c.
     chunk_ranks rest (ws[tp_rank := c])))"

definition swiglu_merge ::
  "nat \<Rightarrow> pyval list \<Rightarrow> string \<Rightarrow> string \<Rightarrow> pydict \<Rightarrow> error + pydict" where
  "swiglu_merge tp_size ws kW kV message =
     bind_err (chunk_ranks [0..<tp_size] ws) (\<lambda>cs.
     bind_err (map_err (\<lambda>w. subscript w 0) cs) (\<lambda>h0.
     bind_err (torch_cat0 h0) (\<lambda>W.
     bind_err (map_err (\<lambda>w. subscript w 1) cs) (\<lambda>h1.
     bind_err (torch_cat0 h1) (\<lambda>V.
     Inr (setitem (setitem message kW W) kV V))))))"

text \<open>
  The two ways of sharding a gated first linear over \<open>tp\<close> tensor-parallel ranks that
  the round trip is stated for. \<open>row_shards\<close> cuts a tensor into \<open>tp\<close> equal pieces
  along axis 0. \<open>gated_shards\<close> is the layout of a Megatron checkpoint: rank \<open>i\<close>
  holds the \<open>i\<close>-th piece of the gate followed by the \<open>i\<close>-th piece of the value.
\<close>

definition row_shards :: "nat \<Rightarrow> 'a list \<Rightarrow> 'a list list" where
  "row_shards tp xs =
     map (\<lambda>i. take (length xs div tp) (drop (i * (length xs div tp)) xs)) [0..<tp]"

definition gated_shards :: "nat \<Rightarrow> 'a list \<Rightarrow> 'a list \<Rightarrow> 'a list list" where
  "gated_shards tp gate val = map2 (@) (row_shards tp gate) (row_shards tp val)"

section \<open>The schema of a shard (schema_core.py)\<close>

text \<open>\<^verbatim>\<open>str(n)\<close> and \<^verbatim>\<open>f"{n}"\<close> for a non-negative integer: its decimal digits.\<close>

definition digit :: "nat \<Rightarrow> char" where
  "digit d = ''0123456789'' ! d"

function str_nat :: "nat \<Rightarrow> string" where
  "str_nat n = (if n < 10 then [digit n] else str_nat (n div 10) @ [digit (n mod 10)])"
  by pat_completeness auto
termination
  by (relation "measure (\<lambda>n. n)") auto

declare str_nat.simps [simp del]

text \<open>
  A schema is the dictionary that \<^verbatim>\<open>CoreSchema.__init__\<close> hands to its base class:
  one table from logical role to storage path per section, and the path of the layer
  list.
\<close>

type_synonym section_schema = "(string \<times> string) list"

record schema =
  s_embeddings :: section_schema
  s_layer_prefix :: string
  s_layer :: section_schema
  s_final_norm :: section_schema
  s_output_layer :: section_schema
  s_pooler :: section_schema
  s_lm_head :: section_schema
  s_binary_head :: section_schema

definition get_core_transformer_block_key :: "string \<Rightarrow> error + string" where
  "get_core_transformer_block_key model_key =
     (if model_key = ''GPT'' then Inr ''decoder''
      else if model_key = ''BERT'' then Inr ''encoder''
      else Inl (KeyError model_key))"

definition CoreSchema :: "string \<Rightarrow> section_schema \<Rightarrow> error + schema" where
  "CoreSchema model_type layer_schema =
     bind_err (get_core_transformer_block_key model_type) (\<lambda>block_key.
     Inr \<lparr> s_embeddings =
             [(''pos'', ''embedding.position_embeddings.weight''),
              (''word'', ''embedding.word_embeddings.weight'')],
           s_layer_prefix = block_key @ ''.layers'',
           s_layer = layer_schema,
           s_final_norm =
             [(''weight'', block_key @ ''.final_layernorm.weight''),
              (''bias'', block_key @ ''.final_layernorm.bias'')],
           s_output_layer = [(''weight'', ''output_layer.weight'')],
           s_pooler =
             [(''weight'', ''pooler.dense.weight''),
              (''bias'', ''pooler.dense.bias'')],
           s_lm_head =
             [(''dense_weight'', ''lm_head.dense.weight''),
              (''dense_bias'', ''lm_head.dense.bias''),
              (''norm_weight'', ''lm_head.layer_norm.weight''),
              (''norm_bias'', ''lm_head.layer_norm.bias'')],
           s_binary_head =
             [(''weight'', ''binary_head.weight''),
              (''bias'', ''binary_head.bias'')] \<rparr>)"

definition dense_layer_schema :: section_schema where
  "dense_layer_schema =
     [(''self_attn_norm_weight'', ''input_layernorm.weight''),
      (''self_attn_norm_bias'', ''input_layernorm.bias''),
      (''self_attn_qkv_weight'', ''self_attention.linear_qkv.weight''),
      (''self_attn_qkv_bias'', ''self_attention.linear_qkv.bias''),
      (''self_attn_proj_weight'', ''self_attention.linear_proj.weight''),
      (''self_attn_proj_bias'', ''self_attention.linear_proj.bias''),
      (''self_attn_q_layernorm_weight'', ''self_attention.q_layernorm.weight''),
      (''self_attn_q_layernorm_bias'', ''self_attention.q_layernorm.bias''),
      (''self_attn_k_layernorm_weight'', ''self_attention.k_layernorm.weight''),
      (''self_attn_k_layernorm_bias'', ''self_attention.k_layernorm.bias''),
      (''mlp_norm_weight'', ''pre_mlp_layernorm.weight''),
      (''mlp_norm_bias'', ''pre_mlp_layernorm.bias''),
      (''mlp_fc1_weight'', ''mlp.linear_fc1.weight''),
      (''mlp_fc1_bias'', ''mlp.linear_fc1.bias''),
      (''mlp_fc2_weight'', ''mlp.linear_fc2.weight''),
      (''mlp_fc2_bias'', ''mlp.linear_fc2.bias''),
      (''mlp_xielu_alpha_p'', ''mlp.activation_func.alpha_p''),
      (''mlp_xielu_alpha_n'', ''mlp.activation_func.alpha_n'')]"

text \<open>
  \<^verbatim>\<open>CoreLocalSchema\<close> and \<^verbatim>\<open>CoreTESchema\<close> pass the same layer table, written out
  twice in the source.
\<close>

definition CoreLocalSchema :: "string \<Rightarrow> error + schema" where
  "CoreLocalSchema model_type = CoreSchema model_type dense_layer_schema"

definition CoreTESchema :: "string \<Rightarrow> error + schema" where
  "CoreTESchema model_type = CoreSchema model_type dense_layer_schema"

text \<open>
  \<^verbatim>\<open>CoreMoETESchema\<close>: \<^verbatim>\<open>num_experts // expert_model_parallel_size\<close> local experts
  (Python's floor division, \<^verbatim>\<open>ZeroDivisionError\<close> on zero), and one role per local
  expert index for each of the four expert tables, in the order of the dictionary
  literal.
\<close>

definition expert_roles :: "string \<Rightarrow> string \<Rightarrow> nat \<Rightarrow> section_schema" where
  "expert_roles role path_suffix num_local_experts =
     map (\<lambda>expert_idx.
            (role @ ''.'' @ str_nat expert_idx,
             ''mlp.experts.local_experts.'' @ str_nat expert_idx @ path_suffix))
         [0..<num_local_experts]"

definition moe_layer_schema :: "nat \<Rightarrow> section_schema" where
  "moe_layer_schema num_local_experts =
     [(''self_attn_norm_weight'', ''self_attention.linear_qkv.layer_norm_weight''),
      (''self_attn_norm_bias'', ''self_attention.linear_qkv.layer_norm_bias''),
      (''self_attn_qkv_weight'', ''self_attention.linear_qkv.weight''),
      (''self_attn_qkv_bias'', ''self_attention.linear_qkv.bias''),
      (''self_attn_proj_weight'', ''self_attention.linear_proj.weight''),
      (''self_attn_proj_bias'', ''self_attention.linear_proj.bias''),
      (''self_attn_q_layernorm_weight'', ''self_attention.q_layernorm.weight''),
      (''self_attn_q_layernorm_bias'', ''self_attention.q_layernorm.bias''),
      (''self_attn_k_layernorm_weight'', ''self_attention.k_layernorm.weight''),
      (''self_attn_k_layernorm_bias'', ''self_attention.k_layernorm.bias''),
      (''mlp_norm_weight'', ''pre_mlp_layernorm.weight''),
      (''mlp_norm_bias'', ''pre_mlp_layernorm.bias''),
      (''router_weight'', ''mlp.router.weight'')]
     @ expert_roles ''mlp_fc1_weight'' ''.linear_fc1.weight'' num_local_experts
     @ expert_roles ''mlp_fc2_weight'' ''.linear_fc2.weight'' num_local_experts
     @ expert_roles ''mlp_xielu_alpha_p'' ''.activation_func.alpha_p.weight'' num_local_experts
     @ expert_roles ''mlp_xielu_alpha_n'' ''.activation_func.alpha_n.weight'' num_local_experts"

definition CoreMoETESchema :: "string \<Rightarrow> int \<Rightarrow> int \<Rightarrow> error + schema" where
  "CoreMoETESchema model_type num_experts expert_model_parallel_size =
     (if expert_model_parallel_size = 0 then Inl ZeroDivisionError
      else CoreSchema model_type
             (moe_layer_schema (nat (num_experts div expert_model_parallel_size))))"

definition get_model_schema ::
  "string \<Rightarrow> string \<Rightarrow> int option \<Rightarrow> int option \<Rightarrow> error + schema" where
  "get_model_schema model_type transformer_impl num_experts expert_model_parallel_size =
     (case num_experts of
        None \<Rightarrow>
          (if transformer_impl = ''local'' then CoreLocalSchema model_type
           else if transformer_impl = ''transformer_engine'' then CoreTESchema model_type
           else Inl (KeyError transformer_impl))
      | Some n \<Rightarrow>
          (if 0 < n then
             (if transformer_impl \<noteq> ''transformer_engine'' then Inl AssertionError
              else (case expert_model_parallel_size of
                      None \<Rightarrow> Inl AssertionError
                    | Some ep \<Rightarrow> CoreMoETESchema model_type n ep))
           else if transformer_impl = ''local'' then CoreLocalSchema model_type
           else if transformer_impl = ''transformer_engine'' then CoreTESchema model_type
           else Inl (KeyError transformer_impl)))"

section \<open>Model objects and the schema's getters\<close>

text \<open>
  A model object, as one shard of the checkpoint holds it: the tensors reachable from
  the model by a storage path, and under the path of a layer list the layers, each with
  the tensors reachable from that layer.
\<close>

record megatron_model =
  params :: "(string \<times> tensor) list"
  layer_lists :: "(string \<times> (string \<times> tensor) list list) list"

text \<open>
  Modelled from the spec: the base class \<^verbatim>\<open>ModelSchema\<close> of \<^verbatim>\<open>schema_base.py\<close> is
  not among the sources. The spec gives its getters: \<^verbatim>\<open>get(section, shard)\<close> is the
  mapping of the section's roles to the named tensors of the shard, \<^verbatim>\<open>get_layer(shard,
  layer_index)\<close> the same for one transformer layer, \<^verbatim>\<open>get_num_layers(shard)\<close> the
  number of layers; a shard is looked up by storage path. A path the shard does not
  hold gives \<^verbatim>\<open>None\<close> (the loader tests \<^verbatim>\<open>is None\<close> on such entries); a section the
  schema does not have is a \<^verbatim>\<open>KeyError\<close>, a missing layer list a failed assertion.
\<close>

definition get_deep_attr :: "(string \<times> tensor) list \<Rightarrow> string \<Rightarrow> pyval" where
  "get_deep_attr obj path = (case map_of obj path of None \<Rightarrow> PNone | Some t \<Rightarrow> PTensor t)"

definition schema_get_all :: "section_schema \<Rightarrow> (string \<times> tensor) list \<Rightarrow> pydict" where
  "schema_get_all sec obj = map (\<lambda>(k, path). (k, get_deep_attr obj path)) sec"

definition schema_section :: "schema \<Rightarrow> string \<Rightarrow> error + section_schema" where
  "schema_section sch key =
     (if key = ''embeddings'' then Inr (s_embeddings sch)
      else if key = ''layer'' then Inr (s_layer sch)
      else if key = ''final_norm'' then Inr (s_final_norm sch)
      else if key = ''output_layer'' then Inr (s_output_layer sch)
      else if key = ''pooler'' then Inr (s_pooler sch)
      else if key = ''lm_head'' then Inr (s_lm_head sch)
      else if key = ''binary_head'' then Inr (s_binary_head sch)
      else Inl (KeyError key))"

definition schema_get :: "schema \<Rightarrow> string \<Rightarrow> megatron_model \<Rightarrow> error + pydict" where
  "schema_get sch key m =
     bind_err (schema_section sch key) (\<lambda>sec. Inr (schema_get_all sec (params m)))"

definition get_layers :: "schema \<Rightarrow> megatron_model \<Rightarrow> error + (string \<times> tensor) list list" where
  "get_layers sch m =
     (case map_of (layer_lists m) (s_layer_prefix sch) of
        None \<Rightarrow> Inl AssertionError
      | Some layers \<Rightarrow> Inr layers)"

definition get_num_layers :: "schema \<Rightarrow> megatron_model \<Rightarrow> error + nat" where
  "get_num_layers sch m = bind_err (get_layers sch m) (\<lambda>layers. Inr (length layers))"

definition get_layer :: "schema \<Rightarrow> megatron_model \<Rightarrow> nat \<Rightarrow> error + pydict" where
  "get_layer sch m layer_idx =
     bind_err (get_layers sch m) (\<lambda>layers.
     bind_err (list_index layers layer_idx) (\<lambda>layer.
     Inr (schema_get_all (s_layer sch) layer)))"

section \<open>The loader's data (loader_core.py)\<close>

text \<open>
  \<open>loader_args\<close> are the arguments of the converter that the loader reads (\<^verbatim>\<open>args\<close>),
  \<open>margs\<close> the Megatron arguments, with the attributes the loader checks for
  \<^verbatim>\<open>None\<close> as options, \<open>checkpoint_args\<close> the arguments stored in
  the checkpoint (\<^verbatim>\<open>hasattr(checkpoint_args, 'normalization')\<close> is \<open>ca_normalization \<noteq>
  None\<close>), and \<open>metadata\<close> the namespace \<^verbatim>\<open>md\<close>.
\<close>

record loader_args =
  a_model_type :: string
  a_true_vocab_size :: "nat option"
  a_vocab_file :: "string option"
  a_test_logits :: bool
  a_loader_transformer_impl :: string

record checkpoint_args =
  ca_normalization :: "string option"

record margs =
  m_tensor_model_parallel_size :: "nat option"
  m_pipeline_model_parallel_size :: "nat option"
  m_virtual_pipeline_model_parallel_size :: "nat option"
  m_expert_model_parallel_size :: "int option"
  m_num_experts :: "int option"
  m_num_layers :: "nat option"
  m_hidden_size :: "nat option"
  m_seq_length :: "nat option"
  m_num_attention_heads :: "nat option"
  m_max_position_embeddings :: "nat option"
  m_position_embedding_type :: "string option"
  m_tokenizer_type :: "string option"
  m_iteration :: "nat option"
  m_bert_binary_head :: "bool option"
  m_disable_bias_linear :: "bool option"
  m_params_dtype :: "string option"
  m_swiglu :: "bool option"
  m_xielu :: "bool option"
  m_untie_embeddings_and_output_weights :: bool
  m_add_bias_linear :: bool
  m_add_qkv_bias :: bool
  m_make_vocab_size_divisible_by :: nat
  m_use_legacy_models :: bool
  m_transformer_impl :: string

record metadata =
  md_model_type :: string
  md_num_layers :: nat
  md_hidden_size :: nat
  md_seq_length :: nat
  md_num_attention_heads :: nat
  md_max_position_embeddings :: nat
  md_tokenizer_type :: string
  md_iteration :: nat
  md_params_dtype :: string
  md_bert_binary_head :: bool
  md_output_layer :: bool
  md_position_embedding_type :: string
  md_linear_bias :: bool
  md_qkv_bias :: bool
  md_norm_has_bias :: bool
  md_swiglu :: bool
  md_previous_tensor_parallel_size :: nat
  md_previous_pipeline_parallel_size :: nat
  md_true_vocab_size :: "nat option"
  md_make_vocab_size_divisible_by :: nat
  md_checkpoint_args :: checkpoint_args
  md_use_legacy_models :: bool
  md_consumed_train_samples :: "int option"
  md_consumed_valid_samples :: "int option"

text \<open>
  What the collaborators outside the two files give: whether Megatron can be imported;
  the arguments \<^verbatim>\<open>parse_args\<close> and \<^verbatim>\<open>load_args_from_checkpoint\<close> return (lines
  81-82), which \<^verbatim>\<open>validate_args\<close> (line 97) is taken to hand back with the attributes
  below as they were; the vocabulary files, by path, with the
  number of entries \<^verbatim>\<open>json.load\<close> finds; for each pipeline rank and tensor rank the
  shard that \<^verbatim>\<open>model_provider\<close> and Megatron's \<^verbatim>\<open>load_checkpoint\<close> fill: its two
  consumed-sample counters and one model per virtual-pipeline rank; and for the logits
  check the fabricated batch and the output of the forward pass.
\<close>

record shard_file =
  sf_consumed_train_samples :: int
  sf_consumed_valid_samples :: int
  sf_model :: "nat \<Rightarrow> megatron_model"

record env =
  e_megatron_importable :: bool
  e_margs :: margs
  e_checkpoint_args :: checkpoint_args
  e_vocab_files :: "(string \<times> nat) list"
  e_ckpt :: "nat \<Rightarrow> nat \<Rightarrow> shard_file"
  e_tokens :: tensor
  e_position_ids :: tensor
  e_attention_mask :: tensor
  e_forward :: "megatron_model \<Rightarrow> tensor"

text \<open>
  What goes through the queue: the metadata namespace, a named-tensor message (a
  dictionary), or a sentinel string.
\<close>

datatype qitem = QMetadata metadata | QMessage pydict | QStr string

text \<open>
  The variables of \<^verbatim>\<open>_load_checkpoint\<close> that change while it runs: the queue, the two
  \<^verbatim>\<open>nonlocal\<close> counters of \<^verbatim>\<open>get_models\<close>, the pipeline rank set in \<^verbatim>\<open>mpu\<close>,
  \<^verbatim>\<open>all_models\<close>, \<^verbatim>\<open>models\<close>, the loop variable \<^verbatim>\<open>model\<close> of line 337 (unbound
  before the first pass) and \<^verbatim>\<open>total_layer_num\<close>. A step returns the new state, or
  the error raised together with the state it was raised in.
\<close>

record lstate =
  queue :: "qitem list"
  consumed_train_samples :: "int option"
  consumed_valid_samples :: "int option"
  pipeline_rank :: nat
  all_models :: "megatron_model list list list"
  models :: "megatron_model list"
  model :: "megatron_model option"
  total_layer_num :: nat

type_synonym 'a run = "(error \<times> lstate) + 'a"

definition raise_at :: "lstate \<Rightarrow> error + 'a \<Rightarrow> 'a run" where
  "raise_at st m = (case m of Inl e \<Rightarrow> Inl (e, st) | Inr x \<Rightarrow> Inr x)"

definition put :: "qitem \<Rightarrow> lstate \<Rightarrow> lstate" where
  "put item st = st\<lparr>queue := queue st @ [item]\<rparr>"

definition queue_put :: "string \<Rightarrow> pydict \<Rightarrow> lstate \<Rightarrow> lstate" where
  "queue_put name msg st = put (QMessage (setitem msg ''name'' (PStr name))) st"

section \<open>Argument checks (lines 43-57 and 86-136)\<close>

definition import_megatron :: "env \<Rightarrow> lstate \<Rightarrow> lstate run" where
  "import_megatron e st =
     (if e_megatron_importable e then Inr st
      else Inl (SystemExit 1, put (QStr ''exit'') st))"

text \<open>
  \<^verbatim>\<open>check_for_arg\<close>: the attribute after the call, \<open>None\<close> when the call pushes
  \<^verbatim>\<open>"exit"\<close> and exits. \<open>check_for_args\<close> is the sequence of calls of lines 112-126;
  every failing call does the same.
\<close>

definition check_for_arg :: "'a option \<Rightarrow> 'a option \<Rightarrow> 'a option" where
  "check_for_arg attr dflt = (case attr of Some v \<Rightarrow> Some v | None \<Rightarrow> dflt)"

definition check_for_args :: "margs \<Rightarrow> margs option" where
  "check_for_args margs =
     (if check_for_arg (m_tensor_model_parallel_size margs) None = None then None
      else if check_for_arg (m_pipeline_model_parallel_size margs) None = None then None
      else if check_for_arg (m_num_layers margs) None = None then None
      else if check_for_arg (m_hidden_size margs) None = None then None
      else if check_for_arg (m_seq_length margs) None = None then None
      else if check_for_arg (m_num_attention_heads margs) None = None then None
      else if check_for_arg (m_max_position_embeddings margs) None = None then None
      else if check_for_arg (m_position_embedding_type margs) None = None then None
      else if check_for_arg (m_tokenizer_type margs) None = None then None
      else if check_for_arg (m_iteration margs) None = None then None
      else if check_for_arg (m_bert_binary_head margs) None = None then None
      else if check_for_arg (m_params_dtype margs) None = None then None
      else Some (margs
             \<lparr> m_disable_bias_linear := check_for_arg (m_disable_bias_linear margs) (Some False),
               m_swiglu := check_for_arg (m_swiglu margs) (Some False),
               m_xielu := check_for_arg (m_xielu margs) (Some False) \<rparr>))"

text \<open>
  Line 86: \<^verbatim>\<open>margs.world_size\<close> is the product of the tensor-parallel and the
  pipeline-parallel size; a product with \<^verbatim>\<open>None\<close> is a \<^verbatim>\<open>TypeError\<close>. The loader does
  not read the attribute afterwards. Lines 89-94 copy the dtype flags of the checkpoint
  and switch on sequence parallelism for an expert-parallel size above 1 (a comparison
  that presupposes a size that is not \<^verbatim>\<open>None\<close>); the loader reads none of these
  attributes either.
\<close>

definition world_size :: "margs \<Rightarrow> error + nat" where
  "world_size margs =
     (case m_tensor_model_parallel_size margs of
        None \<Rightarrow> Inl TypeError
      | Some tp \<Rightarrow>
          (case m_pipeline_model_parallel_size margs of
             None \<Rightarrow> Inl TypeError
           | Some pp \<Rightarrow> Inr (tp * pp)))"

definition checked_margs :: "env \<Rightarrow> loader_args \<Rightarrow> lstate \<Rightarrow> margs run" where
  "checked_margs e args st =
     bind_err (raise_at st (world_size (e_margs e))) (\<lambda>_.
     (case check_for_args
             ((e_margs e)\<lparr> m_use_legacy_models := False,
                          m_transformer_impl := a_loader_transformer_impl args \<rparr>) of
        None \<Rightarrow> Inl (SystemExit 1, put (QStr ''exit'') st)
      | Some margs \<Rightarrow> Inr margs))"

definition check_model_type :: "loader_args \<Rightarrow> error + unit" where
  "check_model_type args =
     (if a_model_type args = ''GPT'' then Inr ()
      else if a_model_type args = ''BERT'' then Inr ()
      else Inl (Exception (''unrecognized model type: '' @ a_model_type args)))"

section \<open>Loading the shards of one pipeline stage (get_models, lines 141-190)\<close>

definition check_consumed :: "int option \<Rightarrow> int \<Rightarrow> error + int option" where
  "check_consumed consumed reported =
     (case consumed of
        Some c \<Rightarrow> (if reported = c then Inr (Some c) else Inl AssertionError)
      | None \<Rightarrow> Inr (Some reported))"

fun get_models_ranks ::
  "env \<Rightarrow> margs \<Rightarrow> nat list \<Rightarrow> megatron_model list list \<Rightarrow> lstate
     \<Rightarrow> error + megatron_model list list \<times> lstate" where
  "get_models_ranks e margs [] ms st = Inr (ms, st)"
| "get_models_ranks e margs (rank # rest) ms st =
     (let sf = e_ckpt e (pipeline_rank st) rank;
          model_list = (case m_virtual_pipeline_model_parallel_size margs of
                          Some vp \<Rightarrow> map (sf_model sf) [0..<vp]
                        | None \<Rightarrow> [sf_model sf 0])
      in bind_err (check_consumed (consumed_train_samples st) (sf_consumed_train_samples sf))
           (\<lambda>ct.
         bind_err (check_consumed (consumed_valid_samples st) (sf_consumed_valid_samples sf))
           (\<lambda>cv.
         get_models_ranks e margs rest (map2 (\<lambda>m x. m @ [x]) ms model_list)
           (st\<lparr>consumed_train_samples := ct, consumed_valid_samples := cv\<rparr>))))"

definition get_models ::
  "env \<Rightarrow> margs \<Rightarrow> nat \<Rightarrow> lstate \<Rightarrow> error + megatron_model list list \<times> lstate" where
  "get_models e margs count st =
     (let model_array_len = (case m_virtual_pipeline_model_parallel_size margs of
                               None \<Rightarrow> 1 | Some vp \<Rightarrow> vp)
      in get_models_ranks e margs [0..<count] (replicate model_array_len []) st)"

section \<open>Vocabulary size, logits precondition, metadata (lines 199-253)\<close>

definition get_true_vocab_size :: "env \<Rightarrow> loader_args \<Rightarrow> lstate \<Rightarrow> nat option run" where
  "get_true_vocab_size e args st =
     (case a_true_vocab_size args of
        Some n \<Rightarrow> Inr (Some n)
      | None \<Rightarrow>
          (case a_vocab_file args of
             Some f \<Rightarrow>
               (case map_of (e_vocab_files e) f of
                  None \<Rightarrow> Inl (FileNotFoundError f, st)
                | Some true_vocab_size \<Rightarrow>
                    (if a_true_vocab_size args \<noteq> None
                        \<and> Some true_vocab_size \<noteq> a_true_vocab_size args
                     then Inl (SystemExit 1, put (QStr ''exit'') st)
                     else Inr (Some true_vocab_size)))
           | None \<Rightarrow> Inr None))"

definition check_test_logits :: "loader_args \<Rightarrow> nat \<Rightarrow> nat \<Rightarrow> error + unit" where
  "check_test_logits args tp_size vp_size =
     (if a_test_logits args then
        (if \<not> (tp_size = vp_size \<and> vp_size = vp_size \<and> vp_size = 1) then Inl AssertionError
         else if a_model_type args \<noteq> ''GPT'' then Inl AssertionError
         else Inr ())
      else Inr ())"

definition norm_has_bias_of :: "checkpoint_args \<Rightarrow> bool" where
  "norm_has_bias_of ca =
     (case ca_normalization ca of Some n \<Rightarrow> n = ''LayerNorm'' | None \<Rightarrow> True)"

definition make_md ::
  "loader_args \<Rightarrow> margs \<Rightarrow> checkpoint_args \<Rightarrow> bool \<Rightarrow> nat option \<Rightarrow> metadata" where
  "make_md args margs ca norm_has_bias true_vocab_size =
     \<lparr> md_model_type = a_model_type args,
       md_num_layers = the (m_num_layers margs),
       md_hidden_size = the (m_hidden_size margs),
       md_seq_length = the (m_seq_length margs),
       md_num_attention_heads = the (m_num_attention_heads margs),
       md_max_position_embeddings = the (m_max_position_embeddings margs),
       md_tokenizer_type = the (m_tokenizer_type margs),
       md_iteration = the (m_iteration margs),
       md_params_dtype = the (m_params_dtype margs),
       md_bert_binary_head = the (m_bert_binary_head margs),
       md_output_layer = m_untie_embeddings_and_output_weights margs,
       md_position_embedding_type = the (m_position_embedding_type margs),
       md_linear_bias = m_add_bias_linear margs,
       md_qkv_bias = m_add_qkv_bias margs,
       md_norm_has_bias = norm_has_bias,
       md_swiglu = the (m_swiglu margs),
       md_previous_tensor_parallel_size = the (m_tensor_model_parallel_size margs),
       md_previous_pipeline_parallel_size = the (m_pipeline_model_parallel_size margs),
       md_true_vocab_size = true_vocab_size,
       md_make_vocab_size_divisible_by = m_make_vocab_size_divisible_by margs,
       md_checkpoint_args = ca,
       md_use_legacy_models = m_use_legacy_models margs,
       md_consumed_train_samples = None,
       md_consumed_valid_samples = None \<rparr>"

section \<open>One transformer-layer message (lines 299-371)\<close>

definition norm_bias_fields :: "bool \<Rightarrow> pydict \<Rightarrow> pydict \<Rightarrow> error + pydict" where
  "norm_bias_fields norm_has_bias layer message =
     (if norm_has_bias then
        bind_err (getitem layer ''self_attn_norm_bias'') (\<lambda>b1.
        bind_err (getitem layer ''mlp_norm_bias'') (\<lambda>b2.
        Inr (setitem (setitem message ''input norm bias'' b1) ''post norm bias'' b2)))
      else Inr message)"

definition linear_bias_fields :: "bool \<Rightarrow> pydict \<Rightarrow> pydict \<Rightarrow> error + pydict" where
  "linear_bias_fields linear_bias layer message =
     (if linear_bias then
        bind_err (getitem layer ''self_attn_proj_bias'') (\<lambda>b1.
        bind_err (getitem layer ''mlp_fc2_bias'') (\<lambda>b2.
        Inr (setitem (setitem message ''dense bias'' b1) ''mlp l1 bias'' b2)))
      else Inr message)"

definition qk_norm_fields ::
  "bool \<Rightarrow> pydict \<Rightarrow> string \<Rightarrow> string \<Rightarrow> string \<Rightarrow> string \<Rightarrow> pydict \<Rightarrow> error + pydict" where
  "qk_norm_fields norm_has_bias layer wkey bkey wlabel blabel message =
     (if dict_get layer wkey \<noteq> PNone then
        bind_err (getitem layer wkey) (\<lambda>w.
        if norm_has_bias then
          bind_err (getitem layer bkey) (\<lambda>b.
          Inr (setitem (setitem message wlabel w) blabel b))
        else Inr (setitem message wlabel w))
      else Inr message)"

definition xielu_field :: "pydict \<Rightarrow> string \<Rightarrow> string \<Rightarrow> pydict \<Rightarrow> error + pydict" where
  "xielu_field layer key label message =
     (if dict_get layer key \<noteq> PNone then
        bind_err (getitem layer key) (\<lambda>a.
        bind_err (cpu a) (\<lambda>a'.
        Inr (setitem message label a')))
      else Inr message)"

text \<open>Lines 299-328: the tensors taken from tensor-parallel rank 0 alone.\<close>

definition replicated_fields :: "bool \<Rightarrow> bool \<Rightarrow> pydict \<Rightarrow> error + pydict" where
  "replicated_fields norm_has_bias linear_bias layer =
     bind_err (getitem layer ''self_attn_norm_weight'') (\<lambda>w1.
     bind_err (getitem layer ''mlp_norm_weight'') (\<lambda>w2.
     bind_err (norm_bias_fields norm_has_bias layer
                 (setitem (setitem [] ''input norm weight'' w1) ''post norm weight'' w2))
       (\<lambda>message.
     bind_err (linear_bias_fields linear_bias layer message) (\<lambda>message.
     bind_err (qk_norm_fields norm_has_bias layer
                 ''self_attn_q_layernorm_weight'' ''self_attn_q_layernorm_bias''
                 ''q norm weight'' ''q norm bias'' message) (\<lambda>message.
     bind_err (qk_norm_fields norm_has_bias layer
                 ''self_attn_k_layernorm_weight'' ''self_attn_k_layernorm_bias''
                 ''k norm weight'' ''k norm bias'' message) (\<lambda>message.
     bind_err (xielu_field layer ''mlp_xielu_alpha_p'' ''mlp xielu alpha p'' message)
       (\<lambda>message.
     xielu_field layer ''mlp_xielu_alpha_n'' ''mlp xielu alpha n'' message)))))))"

text \<open>Lines 331-346: the lists of per-rank tensors, one pass over \<^verbatim>\<open>models\<close>.\<close>

record parallel_tensors =
  qkv_weight :: "pyval list"
  qkv_bias :: "pyval list"
  dense_weight :: "pyval list"
  mlp_l0_weight :: "pyval list"
  mlp_l0_bias :: "pyval list"
  mlp_l1_weight :: "pyval list"

definition no_tensors :: parallel_tensors where
  "no_tensors = \<lparr> qkv_weight = [], qkv_bias = [], dense_weight = [], mlp_l0_weight = [],
                  mlp_l0_bias = [], mlp_l1_weight = [] \<rparr>"

fun grab_parallel ::
  "schema \<Rightarrow> metadata \<Rightarrow> nat \<Rightarrow> megatron_model list \<Rightarrow> parallel_tensors
     \<Rightarrow> error + parallel_tensors" where
  "grab_parallel sch md layer_num [] pt = Inr pt"
| "grab_parallel sch md layer_num (m # rest) pt =
     bind_err (get_layer sch m layer_num) (\<lambda>layer.
     bind_err (getitem layer ''self_attn_qkv_weight'') (\<lambda>qw.
     bind_err (getitem layer ''self_attn_proj_weight'') (\<lambda>dw.
     bind_err (getitem layer ''mlp_fc1_weight'') (\<lambda>l0.
     bind_err (getitem layer ''mlp_fc2_weight'') (\<lambda>l1.
     bind_err (if md_qkv_bias md
               then bind_err (getitem layer ''self_attn_qkv_bias'') (\<lambda>b. Inr (qkv_bias pt @ [b]))
               else Inr (qkv_bias pt)) (\<lambda>qb.
     bind_err (if md_linear_bias md
               then bind_err (getitem layer ''mlp_fc1_bias'') (\<lambda>b. Inr (mlp_l0_bias pt @ [b]))
               else Inr (mlp_l0_bias pt)) (\<lambda>l0b.
     grab_parallel sch md layer_num rest
       \<lparr> qkv_weight = qkv_weight pt @ [qw], qkv_bias = qb,
         dense_weight = dense_weight pt @ [dw], mlp_l0_weight = mlp_l0_weight pt @ [l0],
         mlp_l0_bias = l0b, mlp_l1_weight = mlp_l1_weight pt @ [l1] \<rparr>)))))))"

text \<open>Lines 348-371: the merge across the tensor-parallel ranks.\<close>

definition cat_field ::
  "(pyval list \<Rightarrow> error + pyval) \<Rightarrow> pyval list \<Rightarrow> string \<Rightarrow> pydict \<Rightarrow> error + pydict" where
  "cat_field cat ts label message = bind_err (cat ts) (\<lambda>t. Inr (setitem message label t))"

definition merge_parallel ::
  "metadata \<Rightarrow> nat \<Rightarrow> parallel_tensors \<Rightarrow> pydict \<Rightarrow> error + pydict" where
  "merge_parallel md tp_size pt message =
     bind_err (if md_swiglu md
               then swiglu_merge tp_size (mlp_l0_weight pt)
                      ''mlp l0 weight W'' ''mlp l0 weight V'' message
               else cat_field torch_cat0 (mlp_l0_weight pt) ''mlp l0 weight'' message)
       (\<lambda>message.
     bind_err (cat_field torch_cat0 (qkv_weight pt) ''qkv weight'' message) (\<lambda>message.
     bind_err (cat_field torch_cat1 (dense_weight pt) ''dense weight'' message) (\<lambda>message.
     bind_err (cat_field torch_cat1 (mlp_l1_weight pt) ''mlp l1 weight'' message) (\<lambda>message.
     bind_err (if md_qkv_bias md
               then cat_field torch_cat0 (qkv_bias pt) ''qkv bias'' message
               else Inr message) (\<lambda>message.
     if md_linear_bias md then
       (if md_swiglu md
        then swiglu_merge tp_size (mlp_l0_bias pt) ''mlp l0 bias W'' ''mlp l0 bias V'' message
        else cat_field torch_cat0 (mlp_l0_bias pt) ''mlp l0 bias'' message)
     else Inr message)))))"

text \<open>
  What the layer loop reads besides its state: the collaborators, both argument sets,
  the metadata, the schema, the three sizes and \<^verbatim>\<open>norm_has_bias\<close>.
\<close>

record ctx =
  c_env :: env
  c_args :: loader_args
  c_margs :: margs
  c_md :: metadata
  c_schema :: schema
  c_tp_size :: nat
  c_pp_size :: nat
  c_vp_size :: nat
  c_norm_has_bias :: bool

definition layer_message ::
  "schema \<Rightarrow> metadata \<Rightarrow> bool \<Rightarrow> nat \<Rightarrow> megatron_model list \<Rightarrow> nat \<Rightarrow> error + pydict" where
  "layer_message sch md norm_has_bias tp_size ms layer_num =
     bind_err (list_index ms 0) (\<lambda>m0.
     bind_err (get_layer sch m0 layer_num) (\<lambda>layer.
     bind_err (replicated_fields norm_has_bias (md_linear_bias md) layer) (\<lambda>message.
     bind_err (grab_parallel sch md layer_num ms no_tensors) (\<lambda>pt.
     merge_parallel md tp_size pt message))))"

section \<open>The walk over the stages (lines 288-375)\<close>

text \<open>A \<^verbatim>\<open>for\<close> loop whose body may raise: the first error ends it.\<close>

fun for_each :: "('a \<Rightarrow> 's \<Rightarrow> 'e + 's) \<Rightarrow> 'a list \<Rightarrow> 's \<Rightarrow> 'e + 's" where
  "for_each body [] st = Inr st"
| "for_each body (x # xs) st = bind_err (body x st) (\<lambda>st'. for_each body xs st')"

definition layer_name :: "nat \<Rightarrow> string" where
  "layer_name n = ''transformer layer '' @ str_nat n"

definition send_layer :: "ctx \<Rightarrow> nat \<Rightarrow> lstate \<Rightarrow> lstate run" where
  "send_layer c layer_num st =
     bind_err (raise_at st (layer_message (c_schema c) (c_md c) (c_norm_has_bias c)
                              (c_tp_size c) (models st) layer_num)) (\<lambda>message.
     Inr ((queue_put (layer_name (total_layer_num st)) message st)
            \<lparr> model := (if models st = [] then model st else Some (last (models st))),
              total_layer_num := total_layer_num st + 1 \<rparr>))"

definition load_stage :: "ctx \<Rightarrow> nat \<Rightarrow> nat \<Rightarrow> lstate \<Rightarrow> lstate run" where
  "load_stage c vp_rank pp_rank st =
     (if 0 < pp_rank then
        (if vp_rank = 0 then
           bind_err (raise_at (st\<lparr>pipeline_rank := pp_rank\<rparr>)
                       (get_models (c_env c) (c_margs c) (c_tp_size c)
                          (st\<lparr>pipeline_rank := pp_rank\<rparr>)))
             (\<lambda>(ms, st'). Inr (st'\<lparr>all_models := all_models st' @ [ms]\<rparr>))
         else Inr (st\<lparr>pipeline_rank := pp_rank\<rparr>))
      else Inr st)"

definition send_stage :: "ctx \<Rightarrow> nat \<Rightarrow> nat \<Rightarrow> lstate \<Rightarrow> lstate run" where
  "send_stage c vp_rank pp_rank st =
     bind_err (load_stage c vp_rank pp_rank st) (\<lambda>st1.
     bind_err (raise_at st1 (bind_err (list_index (all_models st1) pp_rank)
                               (\<lambda>stage. list_index stage vp_rank))) (\<lambda>ms.
     bind_err (raise_at (st1\<lparr>models := ms\<rparr>)
                 (bind_err (list_index ms 0) (get_num_layers (c_schema c)))) (\<lambda>n.
     for_each (send_layer c) [0..<n] (st1\<lparr>models := ms\<rparr>))))"

definition send_pass :: "ctx \<Rightarrow> nat \<Rightarrow> lstate \<Rightarrow> lstate run" where
  "send_pass c vp_rank st = for_each (send_stage c vp_rank) [0..<c_pp_size c] st"

definition send_layers :: "ctx \<Rightarrow> lstate \<Rightarrow> lstate run" where
  "send_layers c st = for_each (send_pass c) [0..<c_vp_size c] (st\<lparr>total_layer_num := 0\<rparr>)"

section \<open>The other messages (lines 277-286 and 377-461)\<close>

definition embeddings_message ::
  "schema \<Rightarrow> string \<Rightarrow> megatron_model list \<Rightarrow> error + pydict" where
  "embeddings_message sch position_embedding_type ms =
     bind_err (map_err (schema_get sch ''embeddings'') ms) (\<lambda>embeddings.
     bind_err (map_err (\<lambda>e. getitem e ''word'') embeddings) (\<lambda>words.
     bind_err (torch_cat0 words) (\<lambda>w.
     bind_err (list_index embeddings 0) (\<lambda>e0.
     bind_err (getitem e0 ''pos'') (\<lambda>pos.
     if position_embedding_type = ''learned_absolute''
     then Inr (setitem (setitem [] ''word embeddings'' w) ''position embeddings'' pos)
     else if pos = PNone then Inr (setitem [] ''word embeddings'' w)
     else Inl AssertionError)))))"

definition send_embeddings :: "ctx \<Rightarrow> lstate \<Rightarrow> lstate run" where
  "send_embeddings c st =
     bind_err (raise_at st (embeddings_message (c_schema c)
                              (md_position_embedding_type (c_md c)) (models st)))
       (\<lambda>message. Inr (queue_put ''embeddings'' message st))"

definition final_norm_message ::
  "schema \<Rightarrow> bool \<Rightarrow> megatron_model list \<Rightarrow> error + pydict" where
  "final_norm_message sch norm_has_bias ms =
     bind_err (list_index ms 0) (\<lambda>m0.
     bind_err (schema_get sch ''final_norm'' m0) (\<lambda>final_norm.
     bind_err (getitem final_norm ''weight'') (\<lambda>w.
     if norm_has_bias
     then bind_err (getitem final_norm ''bias'') (\<lambda>b.
            Inr (setitem (setitem [] ''weight'' w) ''bias'' b))
     else Inr (setitem [] ''weight'' w))))"

definition send_final_norm :: "ctx \<Rightarrow> lstate \<Rightarrow> lstate run" where
  "send_final_norm c st =
     bind_err (raise_at st (final_norm_message (c_schema c) (c_norm_has_bias c) (models st)))
       (\<lambda>message. Inr (queue_put ''final norm'' message st))"

definition output_layer_message :: "schema \<Rightarrow> megatron_model list \<Rightarrow> error + pydict" where
  "output_layer_message sch ms =
     bind_err (map_err (schema_get sch ''output_layer'') ms) (\<lambda>output_layer_ranks.
     bind_err (map_err (\<lambda>r. getitem r ''weight'') output_layer_ranks) (\<lambda>ws.
     bind_err (torch_cat0 ws) (\<lambda>w.
     Inr (setitem [] ''weight'' w))))"

definition send_output_layer :: "ctx \<Rightarrow> lstate \<Rightarrow> lstate run" where
  "send_output_layer c st =
     (if md_output_layer (c_md c) then
        bind_err (raise_at st (output_layer_message (c_schema c) (models st)))
          (\<lambda>message. Inr (queue_put ''output layer'' message st))
      else Inr st)"

definition pooler_message :: "schema \<Rightarrow> megatron_model list \<Rightarrow> error + pydict" where
  "pooler_message sch ms =
     bind_err (list_index ms 0) (\<lambda>m0.
     bind_err (schema_get sch ''pooler'' m0) (\<lambda>pooler.
     bind_err (getitem pooler ''weight'') (\<lambda>w.
     bind_err (getitem pooler ''bias'') (\<lambda>b.
     Inr (setitem (setitem [] ''weight'' w) ''bias'' b)))))"

text \<open>
  Line 413 ends in a comma: \<^verbatim>\<open>message["norm bias"] = lm_head["norm_bias"],\<close>
  stores a one-element tuple.
\<close>

definition lm_head_message :: "schema \<Rightarrow> bool \<Rightarrow> megatron_model list \<Rightarrow> error + pydict" where
  "lm_head_message sch norm_has_bias ms =
     bind_err (list_index ms 0) (\<lambda>m0.
     bind_err (schema_get sch ''lm_head'' m0) (\<lambda>lm_head.
     bind_err (getitem lm_head ''dense_weight'') (\<lambda>dw.
     bind_err (getitem lm_head ''dense_bias'') (\<lambda>db.
     bind_err (getitem lm_head ''norm_weight'') (\<lambda>nw.
     if norm_has_bias
     then bind_err (getitem lm_head ''norm_bias'') (\<lambda>nb.
            Inr (setitem (setitem (setitem (setitem [] ''dense weight'' dw) ''dense bias'' db)
                            ''norm weight'' nw) ''norm bias'' (PTuple [nb])))
     else Inr (setitem (setitem (setitem [] ''dense weight'' dw) ''dense bias'' db)
                 ''norm weight'' nw))))))"

definition binary_head_message :: "schema \<Rightarrow> megatron_model list \<Rightarrow> error + pydict" where
  "binary_head_message sch ms =
     bind_err (list_index ms 0) (\<lambda>m0.
     bind_err (schema_get sch ''binary_head'' m0) (\<lambda>binary_head.
     bind_err (getitem binary_head ''weight'') (\<lambda>w.
     bind_err (getitem binary_head ''bias'') (\<lambda>b.
     Inr (setitem (setitem [] ''weight'' w) ''bias'' b)))))"

definition send_bert :: "ctx \<Rightarrow> lstate \<Rightarrow> lstate run" where
  "send_bert c st =
     (if md_model_type (c_md c) = ''BERT'' then
        bind_err (raise_at st (pooler_message (c_schema c) (models st))) (\<lambda>pooler.
        bind_err (raise_at (queue_put ''pooler'' pooler st)
                    (lm_head_message (c_schema c) (c_norm_has_bias c) (models st))) (\<lambda>lm_head.
        if md_bert_binary_head (c_md c) then
          bind_err (raise_at (queue_put ''lm head'' lm_head (queue_put ''pooler'' pooler st))
                      (binary_head_message (c_schema c) (models st))) (\<lambda>binary_head.
          Inr (queue_put ''binary head'' binary_head
                 (queue_put ''lm head'' lm_head (queue_put ''pooler'' pooler st))))
        else Inr (queue_put ''lm head'' lm_head (queue_put ''pooler'' pooler st))))
      else Inr st)"

text \<open>
  Lines 426-461. The batch and the forward pass are the collaborators'; \<^verbatim>\<open>model\<close> is
  the variable the layer loop bound last, and is deleted afterwards.
\<close>

definition send_logits :: "ctx \<Rightarrow> lstate \<Rightarrow> lstate run" where
  "send_logits c st =
     (if a_test_logits (c_args c) then
        (case model st of
           None \<Rightarrow> Inl (UnboundLocalError ''model'', st)
         | Some m \<Rightarrow>
             Inr (queue_put ''logits_check''
                    [(''tokens'', PTensor (e_tokens (c_env c))),
                     (''position_ids'', PTensor (e_position_ids (c_env c))),
                     (''attention_mask'', PTensor (e_attention_mask (c_env c))),
                     (''output'', PTensor (e_forward (c_env c) m))]
                    (st\<lparr>model := None\<rparr>)))
      else Inr st)"

section \<open>The run (lines 34-471)\<close>

definition init_state :: "qitem list \<Rightarrow> lstate" where
  "init_state q =
     \<lparr> queue = q, consumed_train_samples = None, consumed_valid_samples = None,
       pipeline_rank = 0, all_models = [], models = [], model = None,
       total_layer_num = 0 \<rparr>"

text \<open>Lines 255-258: the first pipeline stage.\<close>

definition first_stage :: "env \<Rightarrow> margs \<Rightarrow> nat \<Rightarrow> lstate \<Rightarrow> lstate run" where
  "first_stage e margs tp_size st =
     bind_err (raise_at (st\<lparr>pipeline_rank := 0\<rparr>)
                 (get_models e margs tp_size (st\<lparr>pipeline_rank := 0\<rparr>))) (\<lambda>(ms, st').
     bind_err (raise_at (st'\<lparr>all_models := [ms]\<rparr>) (list_index ms 0)) (\<lambda>ms0.
     Inr (st'\<lparr>all_models := [ms], models := ms0\<rparr>)))"

definition make_ctx ::
  "env \<Rightarrow> loader_args \<Rightarrow> margs \<Rightarrow> metadata \<Rightarrow> schema \<Rightarrow> ctx" where
  "make_ctx e args margs md sch =
     \<lparr> c_env = e, c_args = args, c_margs = margs, c_md = md, c_schema = sch,
       c_tp_size = the (m_tensor_model_parallel_size margs),
       c_pp_size = the (m_pipeline_model_parallel_size margs),
       c_vp_size = (case m_virtual_pipeline_model_parallel_size margs of
                      None \<Rightarrow> 1 | Some vp \<Rightarrow> vp),
       c_norm_has_bias = md_norm_has_bias md \<rparr>"

text \<open>Lines 277-464: from the embeddings to \<^verbatim>\<open>"done"\<close>.\<close>

definition send_messages :: "ctx \<Rightarrow> lstate \<Rightarrow> lstate run" where
  "send_messages c st =
     bind_err (send_embeddings c st) (\<lambda>st.
     bind_err (send_layers c st) (\<lambda>st.
     bind_err (send_final_norm c st) (\<lambda>st.
     bind_err (send_output_layer c st) (\<lambda>st.
     bind_err (send_bert c st) (\<lambda>st.
     bind_err (send_logits c st) (\<lambda>st.
     Inr (put (QStr ''done'') st)))))))"

text \<open>Lines 260-275: the metadata goes out first, then the schema is chosen.\<close>

definition send_all :: "env \<Rightarrow> loader_args \<Rightarrow> margs \<Rightarrow> metadata \<Rightarrow> lstate \<Rightarrow> lstate run" where
  "send_all e args margs md0 st =
     (let md = md0\<lparr> md_consumed_train_samples := consumed_train_samples st,
                    md_consumed_valid_samples := consumed_valid_samples st \<rparr>
      in bind_err (raise_at (put (QMetadata md) st)
                     (get_model_schema (md_model_type md) (m_transformer_impl margs)
                        (m_num_experts margs) (m_expert_model_parallel_size margs)))
           (\<lambda>sch. send_messages (make_ctx e args margs md sch) (put (QMetadata md) st)))"

text \<open>\<^verbatim>\<open>_load_checkpoint(queue, args)\<close>.\<close>

definition private_load_checkpoint :: "env \<Rightarrow> loader_args \<Rightarrow> qitem list \<Rightarrow> lstate run" where
  "private_load_checkpoint e args q =
     bind_err (import_megatron e (init_state q)) (\<lambda>st.
     bind_err (checked_margs e args st) (\<lambda>margs.
     bind_err (raise_at st (check_model_type args)) (\<lambda>_.
     bind_err (get_true_vocab_size e args st) (\<lambda>true_vocab_size.
     bind_err (raise_at st
                 (check_test_logits args (the (m_tensor_model_parallel_size margs))
                    (case m_virtual_pipeline_model_parallel_size margs of
                       None \<Rightarrow> 1 | Some vp \<Rightarrow> vp))) (\<lambda>_.
     bind_err (first_stage e margs (the (m_tensor_model_parallel_size margs)) st) (\<lambda>st.
     send_all e args margs
       (make_md args margs (e_checkpoint_args e) (norm_has_bias_of (e_checkpoint_args e))
          true_vocab_size) st))))))"

text \<open>
  \<^verbatim>\<open>load_checkpoint(queue, args)\<close>: an \<^verbatim>\<open>Exception\<close> of the body pushes \<^verbatim>\<open>"exit"\<close>
  and is raised again. The result is what the caller sees: the error, if any, and the
  queue.
\<close>

definition load_checkpoint :: "env \<Rightarrow> loader_args \<Rightarrow> qitem list \<Rightarrow> (error + unit) \<times> qitem list" where
  "load_checkpoint e args q =
     (case private_load_checkpoint e args q of
        Inl (err, st) \<Rightarrow>
          (Inl err, if is_Exception err then queue st @ [QStr ''exit''] else queue st)
      | Inr st \<Rightarrow> (Inr (), queue st))"

section \<open>Reading the queue\<close>

text \<open>
  What a consumer sees of an item: the metadata record, the \<^verbatim>\<open>name\<close> of a message, or
  a sentinel.
\<close>

datatype label = LMetadata | LMessage string | LSentinel string | LUnnamed

fun label_of :: "qitem \<Rightarrow> label" where
  "label_of (QMetadata md) = LMetadata"
| "label_of (QStr s) = LSentinel s"
| "label_of (QMessage m) =
     (case map_of m ''name'' of Some (PStr n) \<Rightarrow> LMessage n | _ \<Rightarrow> LUnnamed)"

fun field_of :: "string \<Rightarrow> qitem \<Rightarrow> pyval option" where
  "field_of k (QMessage m) = map_of m k"
| "field_of k item = None"

section \<open>What the walk is expected to hold and emit\<close>

text \<open>
  The terms in which the walk is described: the number of models \<^verbatim>\<open>get_models\<close>
  builds per rank, the shard set it returns for a pipeline stage (by virtual-pipeline
  rank, then tensor rank), the list \<^verbatim>\<open>all_models\<close> after \<open>k\<close> stages, and the queue
  item of a layer message with its global index.
\<close>

definition model_array_len :: "margs \<Rightarrow> nat" where
  "model_array_len margs =
     (case m_virtual_pipeline_model_parallel_size margs of None \<Rightarrow> 1 | Some vp \<Rightarrow> vp)"

definition stage_models :: "env \<Rightarrow> margs \<Rightarrow> nat \<Rightarrow> nat \<Rightarrow> megatron_model list list" where
  "stage_models e margs tp pp =
     map (\<lambda>vp. map (\<lambda>rank. sf_model (e_ckpt e pp rank) vp) [0..<tp])
       [0..<model_array_len margs]"

definition loaded_stages :: "env \<Rightarrow> margs \<Rightarrow> nat \<Rightarrow> nat \<Rightarrow> megatron_model list list list" where
  "loaded_stages e margs tp k = map (stage_models e margs tp) [0..<k]"

definition layer_item ::
  "schema \<Rightarrow> metadata \<Rightarrow> bool \<Rightarrow> nat \<Rightarrow> megatron_model list \<Rightarrow> nat \<Rightarrow> nat \<Rightarrow> qitem" where
  "layer_item sch md nb tp ms l g =
     QMessage (setitem (projr (layer_message sch md nb tp ms l)) ''name'' (PStr (layer_name g)))"

definition stage_layers :: "schema \<Rightarrow> env \<Rightarrow> nat \<Rightarrow> nat \<Rightarrow> nat" where
  "stage_layers sch e p v =
     (case get_num_layers sch (sf_model (e_ckpt e p 0) v) of Inr n \<Rightarrow> n | Inl err \<Rightarrow> 0)"

definition emits_layers :: "lstate \<Rightarrow> lstate \<Rightarrow> bool" where
  "emits_layers st s \<longleftrightarrow>
     total_layer_num st \<le> total_layer_num s
   \<and> (\<exists>items. queue s = queue st @ items
         \<and> map label_of items
             = map (\<lambda>i. LMessage (layer_name i)) [total_layer_num st..<total_layer_num s])"

definition final_state :: "lstate run \<Rightarrow> lstate" where
  "final_state r = (case r of Inl (err, s) \<Rightarrow> s | Inr s \<Rightarrow> s)"

fun is_layer_label :: "label \<Rightarrow> bool" where
  "is_layer_label (LMessage n) = (take 18 n = ''transformer layer '')"
| "is_layer_label l = False"

definition digits_value :: "string \<Rightarrow> nat" where
  "digits_value s = foldl (\<lambda>a c. 10 * a + (of_char c - 48)) 0 s"

section \<open>How a run fails\<close>

text \<open>
  \<open>only_exceptions\<close>: a step raises nothing but subclasses of \<^verbatim>\<open>Exception\<close>, the errors
  that \<^verbatim>\<open>load_checkpoint\<close> (lines 465-471) answers with \<^verbatim>\<open>"exit"\<close>. \<open>layer_count\<close> counts
  the transformer-layer messages of a queue. \<open>fatal bound\<close>: the run ended with an error
  that leaves or will leave \<^verbatim>\<open>"exit"\<close> last in the queue, which holds no \<^verbatim>\<open>"done"\<close> and at
  most \<open>bound\<close> transformer-layer messages.
\<close>

definition only_exceptions :: "error + 'a \<Rightarrow> bool" where
  "only_exceptions m = (case m of Inl err \<Rightarrow> is_Exception err | Inr x \<Rightarrow> True)"

definition layer_count :: "qitem list \<Rightarrow> nat" where
  "layer_count q = length (filter is_layer_label (map label_of q))"

definition fatal :: "nat \<Rightarrow> lstate run \<Rightarrow> bool" where
  "fatal bound r =
     (case r of
        Inr s \<Rightarrow> False
      | Inl (err, st) \<Rightarrow>
          (is_Exception err \<or> (queue st \<noteq> [] \<and> last (queue st) = QStr ''exit''))
        \<and> QStr ''done'' \<notin> set (queue st)
        \<and> layer_count (queue st) \<le> bound)"

section \<open>Concrete checkpoints\<close>

text \<open>
  A small dense checkpoint of hidden size 2 for two tensor-parallel and two pipeline
  ranks, one layer per stage; the entries of a shard's tensors are tagged with its
  ranks. \<open>ex_args\<close> asks for a GPT model.
\<close>

definition ex_layer :: "int \<Rightarrow> (string \<times> tensor) list" where
  "ex_layer k =
     [(''input_layernorm.weight'', T1 [k, k]),
      (''input_layernorm.bias'', T1 [k, k]),
      (''self_attention.linear_qkv.weight'', T2 [[k, k]]),
      (''self_attention.linear_qkv.bias'', T1 [k]),
      (''self_attention.linear_proj.weight'', T2 [[k], [k]]),
      (''self_attention.linear_proj.bias'', T1 [k, k]),
      (''pre_mlp_layernorm.weight'', T1 [k, k]),
      (''pre_mlp_layernorm.bias'', T1 [k, k]),
      (''mlp.linear_fc1.weight'', T2 [[k, k]]),
      (''mlp.linear_fc1.bias'', T1 [k]),
      (''mlp.linear_fc2.weight'', T2 [[k], [k]]),
      (''mlp.linear_fc2.bias'', T1 [k, k])]"

definition ex_model :: "string \<Rightarrow> nat \<Rightarrow> nat \<Rightarrow> megatron_model" where
  "ex_model block_key pp tp =
     \<lparr> params =
         [(''embedding.word_embeddings.weight'', T2 [[int tp, int tp]]),
          (block_key @ ''.final_layernorm.weight'', T1 [int pp, int pp]),
          (block_key @ ''.final_layernorm.bias'', T1 [int pp, int pp]),
          (''pooler.dense.weight'', T2 [[1, 0], [0, 1]]),
          (''pooler.dense.bias'', T1 [0, 0]),
          (''lm_head.dense.weight'', T2 [[1, 0], [0, 1]]),
          (''lm_head.dense.bias'', T1 [0, 0]),
          (''lm_head.layer_norm.weight'', T1 [1, 1]),
          (''lm_head.layer_norm.bias'', T1 [3, 4]),
          (''binary_head.weight'', T2 [[1, 0], [0, 1]]),
          (''binary_head.bias'', T1 [0, 0])],
       layer_lists = [(block_key @ ''.layers'', [ex_layer (10 * int pp + int tp)])] \<rparr>"

definition ex_margs :: margs where
  "ex_margs =
     \<lparr> m_tensor_model_parallel_size = Some 2,
       m_pipeline_model_parallel_size = Some 2,
       m_virtual_pipeline_model_parallel_size = None,
       m_expert_model_parallel_size = Some 1,
       m_num_experts = None,
       m_num_layers = Some 2,
       m_hidden_size = Some 2,
       m_seq_length = Some 4,
       m_num_attention_heads = Some 1,
       m_max_position_embeddings = Some 4,
       m_position_embedding_type = Some ''rope'',
       m_tokenizer_type = Some ''NullTokenizer'',
       m_iteration = Some 1,
       m_bert_binary_head = Some False,
       m_disable_bias_linear = None,
       m_params_dtype = Some ''torch.float32'',
       m_swiglu = None,
       m_xielu = None,
       m_untie_embeddings_and_output_weights = False,
       m_add_bias_linear = False,
       m_add_qkv_bias = False,
       m_make_vocab_size_divisible_by = 128,
       m_use_legacy_models = False,
       m_transformer_impl = ''transformer_engine'' \<rparr>"

definition ex_shard :: "string \<Rightarrow> nat \<Rightarrow> nat \<Rightarrow> shard_file" where
  "ex_shard block_key pp tp =
     \<lparr> sf_consumed_train_samples = 0, sf_consumed_valid_samples = 0,
       sf_model = (\<lambda>vp. ex_model block_key pp tp) \<rparr>"

definition ex_env :: env where
  "ex_env =
     \<lparr> e_megatron_importable = True,
       e_margs = ex_margs,
       e_checkpoint_args = \<lparr> ca_normalization = Some ''RMSNorm'' \<rparr>,
       e_vocab_files = [(''vocab.json'', 50)],
       e_ckpt = ex_shard ''decoder'',
       e_tokens = T2 [[1, 2, 3, 4]],
       e_position_ids = T2 [[0, 1, 2, 3]],
       e_attention_mask = T2 [[1, 1, 1, 1]],
       e_forward = (\<lambda>m. T2 [[0, 0, 0, 0]]) \<rparr>"

definition ex_args :: loader_args where
  "ex_args =
     \<lparr> a_model_type = ''GPT'', a_true_vocab_size = None, a_vocab_file = None,
       a_test_logits = False, a_loader_transformer_impl = ''transformer_engine'' \<rparr>"

text \<open>
  The same request with both \<^verbatim>\<open>--true-vocab-size 100\<close> and a vocabulary file of 50
  entries.
\<close>

definition vocab_args :: loader_args where
  "vocab_args = ex_args\<lparr> a_true_vocab_size := Some 100, a_vocab_file := Some ''vocab.json'' \<rparr>"

text \<open>
  An encoder-style checkpoint on one rank with \<^verbatim>\<open>LayerNorm\<close> (so that normalization
  has a bias) and the binary head.
\<close>

definition bert_env :: env where
  "bert_env =
     ex_env\<lparr> e_margs := ex_margs\<lparr> m_tensor_model_parallel_size := Some 1,
                                  m_pipeline_model_parallel_size := Some 1,
                                  m_num_layers := Some 1,
                                  m_bert_binary_head := Some True \<rparr>,
             e_checkpoint_args := \<lparr> ca_normalization = Some ''LayerNorm'' \<rparr>,
             e_ckpt := ex_shard ''encoder'' \<rparr>"

definition bert_args :: loader_args where
  "bert_args = ex_args\<lparr> a_model_type := ''BERT'' \<rparr>"

text \<open>
  A mixture-of-experts checkpoint with four experts over two expert-parallel ranks, on
  one tensor-parallel and one pipeline rank: each layer holds two local experts.
\<close>

definition moe_layer :: "(string \<times> tensor) list" where
  "moe_layer =
     [(''self_attention.linear_qkv.layer_norm_weight'', T1 [1, 1]),
      (''self_attention.linear_qkv.weight'', T2 [[1, 1]]),
      (''self_attention.linear_proj.weight'', T2 [[1], [1]]),
      (''pre_mlp_layernorm.weight'', T1 [1, 1]),
      (''mlp.router.weight'', T2 [[1, 1], [1, 1]]),
      (''mlp.experts.local_experts.0.linear_fc1.weight'', T2 [[1, 1]]),
      (''mlp.experts.local_experts.0.linear_fc2.weight'', T2 [[1], [1]]),
      (''mlp.experts.local_experts.1.linear_fc1.weight'', T2 [[2, 2]]),
      (''mlp.experts.local_experts.1.linear_fc2.weight'', T2 [[2], [2]])]"

definition moe_model :: megatron_model where
  "moe_model =
     \<lparr> params =
         [(''embedding.word_embeddings.weight'', T2 [[0, 0]]),
          (''decoder.final_layernorm.weight'', T1 [1, 1])],
       layer_lists = [(''decoder.layers'', [moe_layer])] \<rparr>"

definition moe_env :: env where
  "moe_env =
     ex_env\<lparr> e_margs := ex_margs\<lparr> m_tensor_model_parallel_size := Some 1,
                                  m_pipeline_model_parallel_size := Some 1,
                                  m_num_layers := Some 1,
                                  m_num_experts := Some 4,
                                  m_expert_model_parallel_size := Some 2 \<rparr>,
             e_ckpt := (\<lambda>pp tp. \<lparr> sf_consumed_train_samples = 0,
                                   sf_consumed_valid_samples = 0,
                                   sf_model = (\<lambda>vp. moe_model) \<rparr>) \<rparr>"

text \<open>The schema the loader selects for this checkpoint.\<close>

definition moe_schema :: schema where
  "moe_schema = projr (CoreMoETESchema ''GPT'' 4 2)"

text \<open>
  The metadata of the dense checkpoint with bias on the linear layers, and the schema of
  a GPT model.
\<close>

definition bias_md :: metadata where
  "bias_md =
     make_md ex_args (ex_margs\<lparr> m_add_bias_linear := True, m_swiglu := Some False \<rparr>)
       (e_checkpoint_args ex_env) False None"

definition gpt_schema :: schema where
  "gpt_schema = projr (CoreTESchema ''GPT'')"

text \<open>The GPT request with the logits check, and the dense checkpoint on one tensor rank.\<close>

definition logits_args :: loader_args where
  "logits_args = ex_args\<lparr> a_test_logits := True \<rparr>"

definition tp1_env :: env where
  "tp1_env = ex_env\<lparr> e_margs := ex_margs\<lparr> m_tensor_model_parallel_size := Some 1 \<rparr> \<rparr>"

text \<open>
  The dense checkpoint again, but the two tensor-parallel shards of the second pipeline
  stage report different consumed-train-sample counters.
\<close>

definition mismatch_env :: env where
  "mismatch_env =
     ex_env\<lparr> e_ckpt := (\<lambda>pp tp. (ex_shard ''decoder'' pp tp)
                \<lparr> sf_consumed_train_samples := (if pp = 1 then int tp else 0) \<rparr>) \<rparr>"

section \<open>Lemmas\<close>

lemma bind_err_simps [simp]:
  "bind_err (Inl e) f = Inl e"
  "bind_err (Inr x) f = f x"
  by (simp_all add: bind_err_def)

lemma bind_err_Inr_iff: "bind_err m f = Inr y \<longleftrightarrow> (\<exists>x. m = Inr x \<and> f x = Inr y)"
  by (cases m) simp_all

lemma bind_err_Inl_iff:
  "bind_err m f = Inl e \<longleftrightarrow> m = Inl e \<or> (\<exists>x. m = Inr x \<and> f x = Inl e)"
  by (cases m) simp_all

lemma raise_at_Inr_iff [simp]: "raise_at st m = Inr x \<longleftrightarrow> m = Inr x"
  by (cases m) (simp_all add: raise_at_def)

lemma raise_at_Inl_iff [simp]: "raise_at st m = Inl (e, st') \<longleftrightarrow> m = Inl e \<and> st' = st"
  by (cases m) (auto simp: raise_at_def)

lemma raise_at_simps [simp]:
  "raise_at st (Inl e) = Inl (e, st)"
  "raise_at st (Inr x) = Inr x"
  by (simp_all add: raise_at_def)

lemma map_of_setitem [simp]:
  "map_of (setitem d k v) k' = (if k' = k then Some v else map_of d k')"
  by (simp add: setitem_def update_conv')

lemma cat_field_other:
  "cat_field cat ts label message = Inr message' \<Longrightarrow> k \<noteq> label
     \<Longrightarrow> map_of message' k = map_of message k"
  by (auto simp: cat_field_def bind_err_Inr_iff)

lemma swiglu_merge_other:
  "swiglu_merge tp ws kW kV message = Inr message' \<Longrightarrow> k \<noteq> kW \<Longrightarrow> k \<noteq> kV
     \<Longrightarrow> map_of message' k = map_of message k"
  by (auto simp: swiglu_merge_def bind_err_Inr_iff)

lemma qk_norm_fields_other:
  "qk_norm_fields nb layer wkey bkey wlabel blabel message = Inr message'
     \<Longrightarrow> k \<noteq> wlabel \<Longrightarrow> k \<noteq> blabel \<Longrightarrow> map_of message' k = map_of message k"
  by (auto simp: qk_norm_fields_def bind_err_Inr_iff split: if_splits)

lemma xielu_field_other:
  "xielu_field layer key label message = Inr message' \<Longrightarrow> k \<noteq> label
     \<Longrightarrow> map_of message' k = map_of message k"
  by (auto simp: xielu_field_def bind_err_Inr_iff split: if_splits)

lemma merge_parallel_bias:
  assumes "merge_parallel md tp pt message = Inr message'"
  shows "map_of message' ''dense bias'' = map_of message ''dense bias''
       \<and> map_of message' ''mlp l1 bias'' = map_of message ''mlp l1 bias''"
proof -
  from assms obtain m1 m2 m3 m4 m5 where
    1: "(if md_swiglu md
         then swiglu_merge tp (mlp_l0_weight pt) ''mlp l0 weight W'' ''mlp l0 weight V'' message
         else cat_field torch_cat0 (mlp_l0_weight pt) ''mlp l0 weight'' message) = Inr m1"
    and 2: "cat_field torch_cat0 (qkv_weight pt) ''qkv weight'' m1 = Inr m2"
    and 3: "cat_field torch_cat1 (dense_weight pt) ''dense weight'' m2 = Inr m3"
    and 4: "cat_field torch_cat1 (mlp_l1_weight pt) ''mlp l1 weight'' m3 = Inr m4"
    and 5: "(if md_qkv_bias md then cat_field torch_cat0 (qkv_bias pt) ''qkv bias'' m4
             else Inr m4) = Inr m5"
    and 6: "(if md_linear_bias md then
               (if md_swiglu md
                then swiglu_merge tp (mlp_l0_bias pt) ''mlp l0 bias W'' ''mlp l0 bias V'' m5
                else cat_field torch_cat0 (mlp_l0_bias pt) ''mlp l0 bias'' m5)
             else Inr m5) = Inr message'"
    unfolding merge_parallel_def bind_err_Inr_iff by blast
  have a: "map_of m1 k = map_of message k"
    if "k = ''dense bias'' \<or> k = ''mlp l1 bias''" for k
    using 1 that by (auto split: if_splits dest!: swiglu_merge_other[where k = k] cat_field_other[where k = k])
  have b: "map_of m2 k = map_of m1 k" if "k = ''dense bias'' \<or> k = ''mlp l1 bias''" for k
    using 2 that by (auto dest!: cat_field_other[where k = k])
  have c: "map_of m3 k = map_of m2 k" if "k = ''dense bias'' \<or> k = ''mlp l1 bias''" for k
    using 3 that by (auto dest!: cat_field_other[where k = k])
  have d: "map_of m4 k = map_of m3 k" if "k = ''dense bias'' \<or> k = ''mlp l1 bias''" for k
    using 4 that by (auto dest!: cat_field_other[where k = k])
  have e: "map_of m5 k = map_of m4 k" if "k = ''dense bias'' \<or> k = ''mlp l1 bias''" for k
    using 5 that by (auto split: if_splits dest!: cat_field_other[where k = k])
  have f: "map_of message' k = map_of m5 k" if "k = ''dense bias'' \<or> k = ''mlp l1 bias''" for k
    using 6 that by (auto split: if_splits dest!: swiglu_merge_other[where k = k] cat_field_other[where k = k])
  show ?thesis using a b c d e f by simp
qed

lemma replicated_fields_bias:
  assumes "replicated_fields nb True layer = Inr message"
  shows "\<exists>b1 b2. getitem layer ''self_attn_proj_bias'' = Inr b1
               \<and> getitem layer ''mlp_fc2_bias'' = Inr b2
               \<and> map_of message ''dense bias'' = Some b1
               \<and> map_of message ''mlp l1 bias'' = Some b2"
proof -
  from assms obtain w1 w2 m1 m2 m3 m4 m5 where
    1: "norm_bias_fields nb layer
          (setitem (setitem [] ''input norm weight'' w1) ''post norm weight'' w2) = Inr m1"
    and 2: "linear_bias_fields True layer m1 = Inr m2"
    and 3: "qk_norm_fields nb layer ''self_attn_q_layernorm_weight''
              ''self_attn_q_layernorm_bias'' ''q norm weight'' ''q norm bias'' m2 = Inr m3"
    and 4: "qk_norm_fields nb layer ''self_attn_k_layernorm_weight''
              ''self_attn_k_layernorm_bias'' ''k norm weight'' ''k norm bias'' m3 = Inr m4"
    and 5: "xielu_field layer ''mlp_xielu_alpha_p'' ''mlp xielu alpha p'' m4 = Inr m5"
    and 6: "xielu_field layer ''mlp_xielu_alpha_n'' ''mlp xielu alpha n'' m5 = Inr message"
    unfolding replicated_fields_def bind_err_Inr_iff by blast
  from 2 obtain b1 b2 where b: "getitem layer ''self_attn_proj_bias'' = Inr b1"
    "getitem layer ''mlp_fc2_bias'' = Inr b2"
    "m2 = setitem (setitem m1 ''dense bias'' b1) ''mlp l1 bias'' b2"
    by (auto simp: linear_bias_fields_def bind_err_Inr_iff)
  have m2: "map_of m2 ''dense bias'' = Some b1" "map_of m2 ''mlp l1 bias'' = Some b2"
    using b(3) by simp_all
  have c: "map_of m3 k = map_of m2 k" if "k = ''dense bias'' \<or> k = ''mlp l1 bias''" for k
    using 3 that by (auto dest!: qk_norm_fields_other[where k = k])
  have d: "map_of m4 k = map_of m3 k" if "k = ''dense bias'' \<or> k = ''mlp l1 bias''" for k
    using 4 that by (auto dest!: qk_norm_fields_other[where k = k])
  have e: "map_of m5 k = map_of m4 k" if "k = ''dense bias'' \<or> k = ''mlp l1 bias''" for k
    using 5 that by (auto dest!: xielu_field_other[where k = k])
  have f: "map_of message k = map_of m5 k" if "k = ''dense bias'' \<or> k = ''mlp l1 bias''" for k
    using 6 that by (auto dest!: xielu_field_other[where k = k])
  show ?thesis using b(1,2) m2 c d e f by simp
qed

lemma chunk_list_append: "length a = length b \<Longrightarrow> chunk_list (a @ b) = [a, b]"
  by (auto simp: chunk_list_def Let_def)

lemma chunk_ranks_upt:
  assumes "\<And>w. w \<in> set ws \<Longrightarrow> torch_chunk w = Inr (f w)" "k \<le> length ws"
  shows "chunk_ranks [k..<length ws] (map f (take k ws) @ drop k ws) = Inr (map f ws)"
  using assms
proof (induction "length ws - k" arbitrary: k)
  case 0
  then show ?case by simp
next
  case (Suc d)
  then have k: "k < length ws" by simp
  have nth: "(map f (take k ws) @ drop k ws) ! k = ws ! k"
    using k by (simp add: nth_append)
  have upd: "(map f (take k ws) @ drop k ws)[k := f (ws ! k)] = map f (take (Suc k) ws) @ drop (Suc k) ws"
    using k by (simp add: list_update_append take_Suc_conv_app_nth  Cons_nth_drop_Suc[symmetric])
  have "chunk_ranks [Suc k..<length ws] (map f (take (Suc k) ws) @ drop (Suc k) ws) = Inr (map f ws)"
    using Suc by simp
  then show ?case
    using k nth upd Suc.prems(1)[of "ws ! k"] by (simp add: upt_conv_Cons list_index_def)
qed

lemma chunk_ranks_all:
  assumes "\<And>w. w \<in> set ws \<Longrightarrow> torch_chunk w = Inr (f w)" "tp = length ws"
  shows "chunk_ranks [0..<tp] ws = Inr (map f ws)"
  using chunk_ranks_upt[of ws f 0] assms by simp

lemma map_err_Inr:
  "(\<And>x. x \<in> set xs \<Longrightarrow> f x = Inr (g x)) \<Longrightarrow> map_err f xs = Inr (map g xs)"
  by (induction xs) simp_all

lemma map_err_map:
  "(\<And>x. x \<in> set xs \<Longrightarrow> f (h x) = Inr (g x)) \<Longrightarrow> map_err f (map h xs) = Inr (map g xs)"
  by (induction xs) simp_all

lemma concat_take_drop:
  "concat (map (\<lambda>i. take k (drop (i * k) xs)) [0..<n]) = take (n * k) xs"
proof (induction n)
  case 0
  then show ?case by simp
next
  case (Suc n)
  have "take (Suc n * k) xs = take (n * k + k) xs"
    by (simp add: add.commute)
  also have "\<dots> = take (n * k) xs @ take k (drop (n * k) xs)"
    by (rule take_add)
  finally show ?case using Suc by simp
qed

lemma concat_row_shards: "length xs = tp * k \<Longrightarrow> concat (row_shards tp xs) = xs"
  by (cases "tp = 0") (simp_all add: row_shards_def concat_take_drop)

lemma length_shard:
  assumes "length xs = tp * k" "i < tp"
  shows "length (take k (drop (i * k) xs)) = k"
proof -
  have "tp * k - i * k = (tp - i) * k" by (simp add: diff_mult_distrib)
  moreover have "k \<le> (tp - i) * k" using assms(2) by (cases "tp - i") simp_all
  ultimately show ?thesis using assms(1) by simp
qed

lemma gated_shards_eq:
  assumes "length gate = tp * k" "length val = tp * k" "0 < tp"
  shows "gated_shards tp gate val =
           map (\<lambda>i. take k (drop (i * k) gate) @ take k (drop (i * k) val)) [0..<tp]"
  using assms by (simp add: gated_shards_def row_shards_def map2_map_map)

lemma skip_empty_mats [simp]:
  "skip_empty (map (\<lambda>m. PTensor (T2 m)) ms) = map (\<lambda>m. PTensor (T2 m)) ms"
  by (simp add: skip_empty_def)

lemma torch_cat0_mats:
  assumes "ms \<noteq> []" "same_width (concat ms)"
  shows "torch_cat0 (map (\<lambda>m. PTensor (T2 m)) ms) = Inr (PTensor (T2 (concat ms)))"
proof -
  have 1: "list_all is_tensor (map (\<lambda>m. PTensor (T2 m)) ms)" by (simp add: list_all_iff)
  have 2: "\<not> list_all is_vec (map (\<lambda>m. PTensor (T2 m)) ms)"
    using assms(1) by (cases ms) simp_all
  have 3: "list_all is_mat (map (\<lambda>m. PTensor (T2 m)) ms)" by (simp add: list_all_iff)
  have 4: "map mat_of (map (\<lambda>m. PTensor (T2 m)) ms) = ms" by (simp add: map_idI)
  show ?thesis
    unfolding torch_cat0_def using assms 1 2 3 4 by simp
qed

lemma torch_cat0_vecs:
  assumes "vs \<noteq> []"
  shows "torch_cat0 (map (\<lambda>v. PTensor (T1 v)) vs) = Inr (PTensor (T1 (concat vs)))"
proof -
  have 1: "list_all is_tensor (map (\<lambda>m. PTensor (T1 m)) vs)" by (simp add: list_all_iff)
  have 3: "list_all is_vec (map (\<lambda>m. PTensor (T1 m)) vs)" by (simp add: list_all_iff)
  have 4: "map vec_of (map (\<lambda>m. PTensor (T1 m)) vs) = vs" by (simp add: map_idI)
  show ?thesis
    unfolding torch_cat0_def using assms 1 3 4 by simp
qed

lemma swiglu_merge_mats:
  assumes "0 < tp" "length gate = tp * k" "length val = tp * k"
    "same_width gate" "same_width val"
  shows "swiglu_merge tp (map (\<lambda>s. PTensor (T2 s)) (gated_shards tp gate val)) kW kV message =
           Inr (setitem (setitem message kW (PTensor (T2 gate))) kV (PTensor (T2 val)))"
proof -
  let ?g = "\<lambda>i. take k (drop (i * k) gate)"
  let ?v = "\<lambda>i. take k (drop (i * k) val)"
  let ?ws = "map (\<lambda>i. PTensor (T2 (?g i @ ?v i))) [0..<tp]"
  let ?f = "\<lambda>w. PTuple (map (\<lambda>c. PTensor (T2 c)) (chunk_list (mat_of w)))"
  have ws: "map (\<lambda>s. PTensor (T2 s)) (gated_shards tp gate val) = ?ws"
    using assms by (simp add: gated_shards_eq[where k = k])
  have len: "\<And>i. i < tp \<Longrightarrow> length (?g i) = length (?v i)"
    using assms by (simp only: length_shard[where tp = tp])
  have chunks: "chunk_ranks [0..<tp] ?ws = Inr (map ?f ?ws)"
    by (rule chunk_ranks_all) auto
  have cs: "map ?f ?ws = map (\<lambda>i. PTuple [PTensor (T2 (?g i)), PTensor (T2 (?v i))]) [0..<tp]"
    using len by (simp add: chunk_list_append)
  have h0: "map_err (\<lambda>w. subscript w 0) (map ?f ?ws) = Inr (map (\<lambda>m. PTensor (T2 m)) (map ?g [0..<tp]))"
    unfolding cs by (simp add: map_err_map[where g = "\<lambda>w. PTensor (T2 (?g w))"] list_index_def comp_def)
  have h1: "map_err (\<lambda>w. subscript w 1) (map ?f ?ws) = Inr (map (\<lambda>m. PTensor (T2 m)) (map ?v [0..<tp]))"
    unfolding cs by (simp add: map_err_map[where g = "\<lambda>w. PTensor (T2 (?v w))"] list_index_def comp_def)
  have cg: "concat (map ?g [0..<tp]) = gate" using assms by (simp add: concat_take_drop)
  have cv: "concat (map ?v [0..<tp]) = val" using assms by (simp add: concat_take_drop)
  have W: "torch_cat0 (map (\<lambda>m. PTensor (T2 m)) (map ?g [0..<tp])) = Inr (PTensor (T2 gate))"
    using torch_cat0_mats[of "map ?g [0..<tp]"] assms cg by simp
  have V: "torch_cat0 (map (\<lambda>m. PTensor (T2 m)) (map ?v [0..<tp])) = Inr (PTensor (T2 val))"
    using torch_cat0_mats[of "map ?v [0..<tp]"] assms cv by simp
  show ?thesis
    unfolding swiglu_merge_def ws by (simp only: chunks h0 h1 W V bind_err_simps)
qed

lemma swiglu_merge_vecs:
  assumes "0 < tp" "length gate = tp * k" "length val = tp * k"
  shows "swiglu_merge tp (map (\<lambda>s. PTensor (T1 s)) (gated_shards tp gate val)) kW kV message =
           Inr (setitem (setitem message kW (PTensor (T1 gate))) kV (PTensor (T1 val)))"
proof -
  let ?g = "\<lambda>i. take k (drop (i * k) gate)"
  let ?v = "\<lambda>i. take k (drop (i * k) val)"
  let ?ws = "map (\<lambda>i. PTensor (T1 (?g i @ ?v i))) [0..<tp]"
  let ?f = "\<lambda>w. PTuple (map (\<lambda>c. PTensor (T1 c)) (chunk_list (vec_of w)))"
  have ws: "map (\<lambda>s. PTensor (T1 s)) (gated_shards tp gate val) = ?ws"
    using assms by (simp add: gated_shards_eq[where k = k])
  have len: "\<And>i. i < tp \<Longrightarrow> length (?g i) = length (?v i)"
    using assms by (simp only: length_shard[where tp = tp])
  have chunks: "chunk_ranks [0..<tp] ?ws = Inr (map ?f ?ws)"
    by (rule chunk_ranks_all) auto
  have cs: "map ?f ?ws = map (\<lambda>i. PTuple [PTensor (T1 (?g i)), PTensor (T1 (?v i))]) [0..<tp]"
    using len by (simp add: chunk_list_append)
  have h0: "map_err (\<lambda>w. subscript w 0) (map ?f ?ws) = Inr (map (\<lambda>m. PTensor (T1 m)) (map ?g [0..<tp]))"
    unfolding cs by (simp add: map_err_map[where g = "\<lambda>w. PTensor (T1 (?g w))"] list_index_def comp_def)
  have h1: "map_err (\<lambda>w. subscript w 1) (map ?f ?ws) = Inr (map (\<lambda>m. PTensor (T1 m)) (map ?v [0..<tp]))"
    unfolding cs by (simp add: map_err_map[where g = "\<lambda>w. PTensor (T1 (?v w))"] list_index_def comp_def)
  have cg: "concat (map ?g [0..<tp]) = gate" using assms by (simp add: concat_take_drop)
  have cv: "concat (map ?v [0..<tp]) = val" using assms by (simp add: concat_take_drop)
  have W: "torch_cat0 (map (\<lambda>m. PTensor (T1 m)) (map ?g [0..<tp])) = Inr (PTensor (T1 gate))"
    using torch_cat0_vecs[of "map ?g [0..<tp]"] assms cg by simp
  have V: "torch_cat0 (map (\<lambda>m. PTensor (T1 m)) (map ?v [0..<tp])) = Inr (PTensor (T1 val))"
    using torch_cat0_vecs[of "map ?v [0..<tp]"] assms cv by simp
  show ?thesis
    unfolding swiglu_merge_def ws by (simp only: chunks h0 h1 W V bind_err_simps)
qed

text \<open>
  C5 (as stated): cutting the axis-0 concatenation of gate and value into
  \<open>tensor_parallel_size\<close> equal row shards and merging gives back gate and value. This
  fails for two ranks: rank 0 then holds the whole gate, rank 1 the whole value, and the
  merge interleaves their halves.
\<close>

theorem swiglu_row_shards_counterexample:
  "swiglu_merge 2 (map (\<lambda>s. PTensor (T2 s)) (row_shards 2 ([[1], [2]] @ [[3], [4]])))
       ''mlp l0 weight W'' ''mlp l0 weight V'' []
     = Inr [(''mlp l0 weight W'', PTensor (T2 [[1], [3]])),
            (''mlp l0 weight V'', PTensor (T2 [[2], [4]]))]
   \<and> swiglu_merge 2 (map (\<lambda>s. PTensor (T2 s)) (row_shards 2 ([[1], [2]] @ [[3], [4]])))
       ''mlp l0 weight W'' ''mlp l0 weight V'' []
     \<noteq> Inr [(''mlp l0 weight W'', PTensor (T2 [[1], [2]])),
            (''mlp l0 weight V'', PTensor (T2 [[3], [4]]))]"
  by (simp add: swiglu_merge_def row_shards_def list_index_def chunk_list_def
      torch_cat0_def skip_empty_def setitem_def upt_rec)

text \<open>
  C5 (amended): when rank \<open>i\<close> holds the \<open>i\<close>-th row shard of the gate followed by the
  \<open>i\<close>-th row shard of the value (gate and value of equal row count, divisible by the
  tensor-parallel size), the merge step gives back the gate under the \<open>W\<close> label and
  the value under the \<open>V\<close> label, for the weight matrices and for the bias vectors.
\<close>

theorem swiglu_merge_round_trip:
  assumes "0 < tp"
    and "length gate = tp * k" and "length val = tp * k"
    and "same_width gate" and "same_width val"
    and "length bgate = tp * j" and "length bval = tp * j"
  shows "swiglu_merge tp (map (\<lambda>s. PTensor (T2 s)) (gated_shards tp gate val)) kW kV message
           = Inr (setitem (setitem message kW (PTensor (T2 gate))) kV (PTensor (T2 val)))
       \<and> swiglu_merge tp (map (\<lambda>s. PTensor (T1 s)) (gated_shards tp bgate bval)) bW bV message
           = Inr (setitem (setitem message bW (PTensor (T1 bgate))) bV (PTensor (T1 bval)))"
  using assms swiglu_merge_mats [of tp gate k val kW kV message]
    swiglu_merge_vecs [of tp bgate j bval bW bV message]
  by simp

theorem swiglu_merge_round_trip_witness:
  "swiglu_merge 2 (map (\<lambda>s. PTensor (T2 s)) (gated_shards 2 [[1], [2]] [[3], [4]]))
       ''mlp l0 weight W'' ''mlp l0 weight V'' []
     = Inr [(''mlp l0 weight W'', PTensor (T2 [[1], [2]])),
            (''mlp l0 weight V'', PTensor (T2 [[3], [4]]))]
   \<and> swiglu_merge 2 (map (\<lambda>s. PTensor (T1 s)) (gated_shards 2 [5, 6] [7, 8]))
       ''mlp l0 bias W'' ''mlp l0 bias V'' []
     = Inr [(''mlp l0 bias W'', PTensor (T1 [5, 6])),
            (''mlp l0 bias V'', PTensor (T1 [7, 8]))]"
  using swiglu_merge_round_trip [of 2 "[[1], [2]]" 1 "[[3], [4]]" "[5, 6]" 1 "[7, 8]"
      "''mlp l0 weight W''" "''mlp l0 weight V''" "[]" "''mlp l0 bias W''" "''mlp l0 bias V''"]
  by (simp add: setitem_def)

section \<open>The vocabulary-size check\<close>

text \<open>
  C3: when a vocabulary file and an explicit true vocabulary size are both given and
  disagree, the run should push \<^verbatim>\<open>"exit"\<close> and stop. The branch that compares the
  two (lines 205-208) sits under \<^verbatim>\<open>elif args.vocab_file is not None\<close>, which is only
  reached when no explicit size was given: with a size of 100 and a file of 50 entries
  the run goes through to \<^verbatim>\<open>"done"\<close> and reports 100.
\<close>

theorem vocab_mismatch_runs_to_done:
  "map_of (e_vocab_files ex_env) ''vocab.json'' = Some 50
   \<and> a_true_vocab_size vocab_args = Some 100
   \<and> fst (load_checkpoint ex_env vocab_args []) = Inr ()
   \<and> map label_of (snd (load_checkpoint ex_env vocab_args []))
       = [LMetadata, LMessage ''embeddings'', LMessage ''transformer layer 0'',
          LMessage ''transformer layer 1'', LMessage ''final norm'', LSentinel ''done'']
   \<and> (case hd (snd (load_checkpoint ex_env vocab_args [])) of
         QMetadata md \<Rightarrow> md_true_vocab_size md | _ \<Rightarrow> None) = Some 100"
  by code_simp

section \<open>Mixture of experts\<close>

text \<open>
  C6: with four experts over two expert-parallel ranks every transformer-layer message
  should carry two local-expert weight pairs, indexed 0 and 1. The schema chosen for
  this configuration has these roles, and no role \<^verbatim>\<open>mlp_fc1_weight\<close> without an index;
  the layer loop reads \<^verbatim>\<open>layer["mlp_fc1_weight"]\<close> all the same (line 341), so the run
  stops with a \<^verbatim>\<open>KeyError\<close> at the first layer and no layer message goes out.
\<close>

theorem moe_run_raises_key_error:
  "map fst (filter (\<lambda>(role, path). take 6 role = ''mlp_fc'')
              (moe_layer_schema (nat (4 div 2))))
     = [''mlp_fc1_weight.0'', ''mlp_fc1_weight.1'', ''mlp_fc2_weight.0'', ''mlp_fc2_weight.1'']
   \<and> fst (load_checkpoint moe_env ex_args []) = Inl (KeyError ''mlp_fc1_weight'')
   \<and> map label_of (snd (load_checkpoint moe_env ex_args []))
       = [LMetadata, LMessage ''embeddings'', LSentinel ''exit'']"
  by code_simp

section \<open>The fields of the lm-head message\<close>

text \<open>
  C9: every field of a message other than \<^verbatim>\<open>name\<close> should be a single tensor, and
  \<^verbatim>\<open>norm bias\<close> of the \<^verbatim>\<open>lm head\<close> message the layer-norm bias itself. Line 413 ends
  in a comma, so the field holds a one-element tuple around that tensor.
\<close>

theorem lm_head_norm_bias_is_tuple:
  "fst (load_checkpoint bert_env bert_args []) = Inr ()
   \<and> map label_of (snd (load_checkpoint bert_env bert_args []))
       = [LMetadata, LMessage ''embeddings'', LMessage ''transformer layer 0'',
          LMessage ''final norm'', LMessage ''pooler'', LMessage ''lm head'',
          LMessage ''binary head'', LSentinel ''done'']
   \<and> map (field_of ''norm bias'')
         (filter (\<lambda>item. label_of item = LMessage ''lm head'')
            (snd (load_checkpoint bert_env bert_args [])))
       = [Some (PTuple [PTensor (T1 [3, 4])])]
   \<and> map_of (params (ex_model ''encoder'' 0 0)) ''lm_head.layer_norm.bias'' = Some (T1 [3, 4])"
  by code_simp

section \<open>Column-parallel biases\<close>

text \<open>
  C8: with linear bias enabled, the attention output-projection bias (\<^verbatim>\<open>dense bias\<close>)
  and the second MLP linear bias (\<^verbatim>\<open>mlp l1 bias\<close>) of a layer message are the copies
  held by tensor-parallel rank 0 (the first model of the stage), whatever the number of
  ranks: no later step of the message touches the two fields.
\<close>

theorem column_parallel_bias_from_rank0:
  assumes "md_linear_bias md"
    and "layer_message sch md norm_has_bias tp_size ms layer_num = Inr message"
  shows "ms \<noteq> []
       \<and> (\<exists>layer b1 b2.
            get_layer sch (hd ms) layer_num = Inr layer
          \<and> getitem layer ''self_attn_proj_bias'' = Inr b1
          \<and> getitem layer ''mlp_fc2_bias'' = Inr b2
          \<and> map_of message ''dense bias'' = Some b1
          \<and> map_of message ''mlp l1 bias'' = Some b2)"
proof -
  from assms(2) obtain m0 layer m1 pt where
    0: "list_index ms 0 = Inr m0"
    and 1: "get_layer sch m0 layer_num = Inr layer"
    and 2: "replicated_fields norm_has_bias (md_linear_bias md) layer = Inr m1"
    and 3: "merge_parallel md tp_size pt m1 = Inr message"
    unfolding layer_message_def bind_err_Inr_iff by blast
  from 0 have ms: "ms \<noteq> []" "m0 = hd ms"
    by (auto simp: list_index_def hd_conv_nth split: if_splits)
  from 2 assms(1) obtain b1 b2 where b: "getitem layer ''self_attn_proj_bias'' = Inr b1"
    "getitem layer ''mlp_fc2_bias'' = Inr b2"
    "map_of m1 ''dense bias'' = Some b1" "map_of m1 ''mlp l1 bias'' = Some b2"
    using replicated_fields_bias by force
  from merge_parallel_bias[OF 3] b(3,4)
  have "map_of message ''dense bias'' = Some b1" "map_of message ''mlp l1 bias'' = Some b2"
    by simp_all
  with ms 1 b(1,2) show ?thesis by blast
qed

theorem column_parallel_bias_from_rank0_witness:
  "md_linear_bias bias_md
   \<and> layer_message gpt_schema bias_md False 2 [ex_model ''decoder'' 0 0, ex_model ''decoder'' 0 1] 0
       = Inr [(''input norm weight'', PTensor (T1 [0, 0])),
              (''post norm weight'', PTensor (T1 [0, 0])),
              (''dense bias'', PTensor (T1 [0, 0])),
              (''mlp l1 bias'', PTensor (T1 [0, 0])),
              (''mlp l0 weight'', PTensor (T2 [[0, 0], [1, 1]])),
              (''qkv weight'', PTensor (T2 [[0, 0], [1, 1]])),
              (''dense weight'', PTensor (T2 [[0, 1], [0, 1]])),
              (''mlp l1 weight'', PTensor (T2 [[0, 1], [0, 1]])),
              (''mlp l0 bias'', PTensor (T1 [0, 1]))]
   \<and> (\<exists>layer b1 b2.
         get_layer gpt_schema (ex_model ''decoder'' 0 0) 0 = Inr layer
       \<and> getitem layer ''self_attn_proj_bias'' = Inr b1
       \<and> getitem layer ''mlp_fc2_bias'' = Inr b2
       \<and> Some (PTensor (T1 [0, 0])) = Some b1
       \<and> Some (PTensor (T1 [0, 0])) = Some b2)"
proof -
  have h1: "md_linear_bias bias_md"
    by code_simp
  have h2: "layer_message gpt_schema bias_md False 2 [ex_model ''decoder'' 0 0, ex_model ''decoder'' 0 1] 0
       = Inr [(''input norm weight'', PTensor (T1 [0, 0])),
              (''post norm weight'', PTensor (T1 [0, 0])),
              (''dense bias'', PTensor (T1 [0, 0])),
              (''mlp l1 bias'', PTensor (T1 [0, 0])),
              (''mlp l0 weight'', PTensor (T2 [[0, 0], [1, 1]])),
              (''qkv weight'', PTensor (T2 [[0, 0], [1, 1]])),
              (''dense weight'', PTensor (T2 [[0, 1], [0, 1]])),
              (''mlp l1 weight'', PTensor (T2 [[0, 1], [0, 1]])),
              (''mlp l0 bias'', PTensor (T1 [0, 1]))]"
    by code_simp
  from column_parallel_bias_from_rank0 [OF h1 h2] h1 h2 show ?thesis
    by simp
qed

lemma world_size_Some:
  "m_tensor_model_parallel_size m = Some tp \<Longrightarrow> m_pipeline_model_parallel_size m = Some pp
     \<Longrightarrow> world_size m = Inr (tp * pp)"
  by (simp add: world_size_def)

lemma check_for_args_world_size:
  assumes "check_for_args (m\<lparr> m_use_legacy_models := a, m_transformer_impl := b \<rparr>) = Some m'"
  shows "\<exists>n. world_size m = Inr n"
  using assms
  by (auto simp: check_for_args_def check_for_arg_def world_size_def
      split: if_splits option.splits)

section \<open>The precondition of the logits check\<close>

text \<open>
  C10: when the logits check is requested and the run gets as far as line 219, it goes
  on to load the first stage exactly when the tensor-parallel size and the
  virtual-pipeline size are 1 and the model type is GPT, whatever the pipeline-parallel
  size; otherwise the assertion fails before anything is put on the queue, which then
  holds \<^verbatim>\<open>"exit"\<close> alone.
\<close>

theorem test_logits_precondition:
  assumes "a_test_logits args"
    and "e_megatron_importable e"
    and "check_for_args ((e_margs e)\<lparr> m_use_legacy_models := False,
                                      m_transformer_impl := a_loader_transformer_impl args \<rparr>)
           = Some margs"
    and "check_model_type args = Inr ()"
    and "get_true_vocab_size e args (init_state q) = Inr v"
    and "tp = the (m_tensor_model_parallel_size margs)"
    and "vp = (case m_virtual_pipeline_model_parallel_size margs of None \<Rightarrow> 1 | Some n \<Rightarrow> n)"
  shows "(if tp = 1 \<and> vp = 1 \<and> a_model_type args = ''GPT''
          then check_test_logits args tp vp = Inr ()
             \<and> private_load_checkpoint e args q
                 = bind_err (first_stage e margs tp (init_state q))
                     (send_all e args margs
                        (make_md args margs (e_checkpoint_args e)
                           (norm_has_bias_of (e_checkpoint_args e)) v))
          else check_test_logits args tp vp = Inl AssertionError
             \<and> load_checkpoint e args q = (Inl AssertionError, q @ [QStr ''exit'']))"
  using assms check_for_args_world_size[OF assms(3)]
  by (auto simp: load_checkpoint_def private_load_checkpoint_def import_megatron_def
      checked_margs_def check_test_logits_def init_state_def)

theorem test_logits_precondition_witness:
  "load_checkpoint ex_env logits_args [] = (Inl AssertionError, [QStr ''exit''])
   \<and> m_pipeline_model_parallel_size (e_margs tp1_env) = Some 2
   \<and> check_test_logits logits_args 1 1 = Inr ()
   \<and> map label_of (snd (load_checkpoint tp1_env logits_args []))
       = [LMetadata, LMessage ''embeddings'', LMessage ''transformer layer 0'',
          LMessage ''transformer layer 1'', LMessage ''final norm'',
          LMessage ''logits_check'', LSentinel ''done'']"
proof -
  let ?m2 = "the (check_for_args ((e_margs ex_env)\<lparr> m_use_legacy_models := False,
               m_transformer_impl := a_loader_transformer_impl logits_args \<rparr>))"
  let ?m1 = "the (check_for_args ((e_margs tp1_env)\<lparr> m_use_legacy_models := False,
               m_transformer_impl := a_loader_transformer_impl logits_args \<rparr>))"
  have a: "a_test_logits logits_args" by code_simp
  have b2: "e_megatron_importable ex_env" and b1: "e_megatron_importable tp1_env"
    by code_simp+
  have c2: "check_for_args ((e_margs ex_env)\<lparr> m_use_legacy_models := False,
               m_transformer_impl := a_loader_transformer_impl logits_args \<rparr>) = Some ?m2"
    by code_simp
  have c1: "check_for_args ((e_margs tp1_env)\<lparr> m_use_legacy_models := False,
               m_transformer_impl := a_loader_transformer_impl logits_args \<rparr>) = Some ?m1"
    by code_simp
  have d: "check_model_type logits_args = Inr ()" by code_simp
  have e2: "get_true_vocab_size ex_env logits_args (init_state []) = Inr None"
    and e1: "get_true_vocab_size tp1_env logits_args (init_state []) = Inr None"
    by code_simp+
  have t2: "the (m_tensor_model_parallel_size ?m2) = 2" 
    and v2: "(case m_virtual_pipeline_model_parallel_size ?m2 of None \<Rightarrow> 1 | Some n \<Rightarrow> n) = (1::nat)"
    and g: "a_model_type logits_args = ''GPT''"
    and t1: "the (m_tensor_model_parallel_size ?m1) = 1" 
    and v1: "(case m_virtual_pipeline_model_parallel_size ?m1 of None \<Rightarrow> 1 | Some n \<Rightarrow> n) = (1::nat)"
    and p: "m_pipeline_model_parallel_size (e_margs tp1_env) = Some 2"
    by code_simp+
  have r: "map label_of (snd (load_checkpoint tp1_env logits_args []))
       = [LMetadata, LMessage ''embeddings'', LMessage ''transformer layer 0'',
          LMessage ''transformer layer 1'', LMessage ''final norm'',
          LMessage ''logits_check'', LSentinel ''done'']"
    by code_simp
  from test_logits_precondition [OF a b2 c2 d e2 refl refl]
    test_logits_precondition [OF a b1 c1 d e1 refl refl]
  show ?thesis
    by (simp only: t2 v2 g t1 v1 p r) simp
qed

section \<open>The walk, step by step\<close>

lemma check_consumed_Inr:
  "check_consumed consumed reported = Inr c' \<longleftrightarrow>
     c' = Some reported \<and> (consumed = None \<or> consumed = Some reported)"
  by (cases consumed) (auto simp: check_consumed_def)

lemma check_consumed_Inl:
  "check_consumed consumed reported = Inl err \<Longrightarrow> err = AssertionError"
  by (cases consumed) (auto simp: check_consumed_def split: if_splits)

lemma model_list_eq:
  "(case m_virtual_pipeline_model_parallel_size margs of
      Some vp \<Rightarrow> map (sf_model sf) [0..<vp] | None \<Rightarrow> [sf_model sf 0])
   = map (sf_model sf) [0..<model_array_len margs]"
  by (simp add: model_array_len_def split: option.splits)

lemma map2_snoc:
  "length ms = n \<Longrightarrow>
     map2 (\<lambda>m x. m @ [x]) ms (map f [0..<n]) = map (\<lambda>v. ms ! v @ [f v]) [0..<n]"
  by (rule nth_equalityI) simp_all

text \<open>What a successful pass over the ranks returns and changes.\<close>

lemma get_models_ranks_Inr:
  assumes "get_models_ranks e margs ranks ms st = Inr (ms', st')"
    and "length ms = model_array_len margs"
  shows "ms' = map (\<lambda>vp. ms ! vp @ map (\<lambda>rank. sf_model (e_ckpt e (pipeline_rank st) rank) vp) ranks)
                 [0..<model_array_len margs]
       \<and> st' = st\<lparr> consumed_train_samples := consumed_train_samples st',
                    consumed_valid_samples := consumed_valid_samples st' \<rparr>
       \<and> (ranks = [] \<longrightarrow> st' = st)
       \<and> (\<forall>rank \<in> set ranks.
            consumed_train_samples st'
              = Some (sf_consumed_train_samples (e_ckpt e (pipeline_rank st) rank))
          \<and> consumed_valid_samples st'
              = Some (sf_consumed_valid_samples (e_ckpt e (pipeline_rank st) rank)))
       \<and> (ranks \<noteq> [] \<longrightarrow> (consumed_train_samples st \<noteq> None \<longrightarrow> consumed_train_samples st' = consumed_train_samples st)
                       \<and> (consumed_valid_samples st \<noteq> None \<longrightarrow> consumed_valid_samples st' = consumed_valid_samples st))"
  using assms
proof (induction ranks arbitrary: ms st)
  case Nil
  then show ?case by (simp add: nth_equalityI)
next
  case (Cons rank rest)
  let ?sf = "e_ckpt e (pipeline_rank st) rank"
  let ?ms1 = "map (\<lambda>v. ms ! v @ [sf_model ?sf v]) [0..<model_array_len margs]"
  let ?st1 = "st\<lparr> consumed_train_samples := Some (sf_consumed_train_samples ?sf),
                  consumed_valid_samples := Some (sf_consumed_valid_samples ?sf) \<rparr>"
  from Cons.prems(1) have
    ct: "consumed_train_samples st = None
           \<or> consumed_train_samples st = Some (sf_consumed_train_samples ?sf)"
    and cv: "consumed_valid_samples st = None
           \<or> consumed_valid_samples st = Some (sf_consumed_valid_samples ?sf)"
    and rec: "get_models_ranks e margs rest ?ms1 ?st1 = Inr (ms', st')"
    by (auto simp: Let_def bind_err_Inr_iff check_consumed_Inr model_list_eq
        map2_snoc[OF Cons.prems(2)])
  have len: "length ?ms1 = model_array_len margs" by simp
  note IH = Cons.IH[OF rec len]
  have pr: "pipeline_rank ?st1 = pipeline_rank st" by simp
  have 1: "ms' = map (\<lambda>vp. ms ! vp @ map (\<lambda>rank. sf_model (e_ckpt e (pipeline_rank st) rank) vp) (rank # rest))
                 [0..<model_array_len margs]"
    using IH by (simp add: pr)
  have 2: "st' = st\<lparr> consumed_train_samples := consumed_train_samples st',
                    consumed_valid_samples := consumed_valid_samples st' \<rparr>"
    using IH by (metis (no_types, lifting) lstate.surjective lstate.update_convs(2) lstate.update_convs(3) lstate.select_convs)
  have 3: "consumed_train_samples st' = Some (sf_consumed_train_samples ?sf)
         \<and> consumed_valid_samples st' = Some (sf_consumed_valid_samples ?sf)"
    using IH by (cases "rest = []") auto
  have 4: "\<forall>r \<in> set rest.
            consumed_train_samples st'
              = Some (sf_consumed_train_samples (e_ckpt e (pipeline_rank st) r))
          \<and> consumed_valid_samples st'
              = Some (sf_consumed_valid_samples (e_ckpt e (pipeline_rank st) r))"
    using IH by (simp add: pr)
  show ?case using 1 2 3 4 ct cv by auto
qed

lemma get_models_Inr:
  assumes "get_models e margs tp st = Inr (ms, st')"
  shows "ms = stage_models e margs tp (pipeline_rank st)"
    and "st' = st\<lparr> consumed_train_samples := consumed_train_samples st',
                    consumed_valid_samples := consumed_valid_samples st' \<rparr>"
    and "\<forall>rank < tp.
            consumed_train_samples st'
              = Some (sf_consumed_train_samples (e_ckpt e (pipeline_rank st) rank))
          \<and> consumed_valid_samples st'
              = Some (sf_consumed_valid_samples (e_ckpt e (pipeline_rank st) rank))"
proof -
  have r: "get_models_ranks e margs [0..<tp] (replicate (model_array_len margs) []) st = Inr (ms, st')"
    using assms by (simp add: get_models_def model_array_len_def)
  note * = get_models_ranks_Inr[OF r, simplified]
  show "ms = stage_models e margs tp (pipeline_rank st)"
    using * by (simp add: stage_models_def)
  show "st' = st\<lparr> consumed_train_samples := consumed_train_samples st',
                    consumed_valid_samples := consumed_valid_samples st' \<rparr>"
    using * by blast
  show "\<forall>rank < tp.
            consumed_train_samples st'
              = Some (sf_consumed_train_samples (e_ckpt e (pipeline_rank st) rank))
          \<and> consumed_valid_samples st'
              = Some (sf_consumed_valid_samples (e_ckpt e (pipeline_rank st) rank))"
    using * by simp
qed

lemma get_models_ranks_Inl:
  "get_models_ranks e margs ranks ms st = Inl err \<Longrightarrow> err = AssertionError"
proof (induction ranks arbitrary: ms st)
  case Nil
  then show ?case by simp
next
  case (Cons rank rest)
  then show ?case
    by (auto simp: Let_def bind_err_Inl_iff dest: check_consumed_Inl)
qed

lemma get_models_Inl: "get_models e margs tp st = Inl err \<Longrightarrow> err = AssertionError"
  by (auto simp: get_models_def dest: get_models_ranks_Inl)

lemma get_models_mismatch:
  assumes "r1 < tp" "r2 < tp"
    and "sf_consumed_train_samples (e_ckpt e (pipeline_rank st) r1)
           \<noteq> sf_consumed_train_samples (e_ckpt e (pipeline_rank st) r2)
         \<or> sf_consumed_valid_samples (e_ckpt e (pipeline_rank st) r1)
           \<noteq> sf_consumed_valid_samples (e_ckpt e (pipeline_rank st) r2)"
  shows "get_models e margs tp st = Inl AssertionError"
proof (cases "get_models e margs tp st")
  case (Inl err)
  then show ?thesis using get_models_Inl by blast
next
  case (Inr r)
  obtain ms st' where "r = (ms, st')" by (cases r)
  with Inr get_models_Inr(3)[of e margs tp st ms st'] assms show ?thesis
    by (metis option.inject)
qed

lemma for_each_append:
  "for_each body (xs @ ys) st = bind_err (for_each body xs st) (\<lambda>st'. for_each body ys st')"
proof (induction xs arbitrary: st)
  case Nil
  show ?case by simp
next
  case (Cons x xs)
  show ?case by (cases "body x st") (simp_all add: Cons)
qed

lemma for_each_Inl:
  assumes "for_each body xs st = Inl err"
  shows "\<exists>ys x zs st1. xs = ys @ x # zs \<and> for_each body ys st = Inr st1 \<and> body x st1 = Inl err"
  using assms
proof (induction xs arbitrary: st)
  case Nil
  then show ?case by simp
next
  case (Cons x xs)
  show ?case
  proof (cases "body x st")
    case (Inl e)
    with Cons.prems have "e = err" by simp
    with Inl have "x # xs = [] @ x # xs \<and> for_each body [] st = Inr st \<and> body x st = Inl err"
      by simp
    then show ?thesis by blast
  next
    case (Inr st1)
    with Cons.prems have "for_each body xs st1 = Inl err" by simp
    from Cons.IH[OF this] obtain ys y zs st2 where
      "xs = ys @ y # zs" "for_each body ys st1 = Inr st2" "body y st2 = Inl err" by blast
    with Inr have "x # xs = (x # ys) @ y # zs \<and> for_each body (x # ys) st = Inr st2 \<and> body y st2 = Inl err"
      by simp
    then show ?thesis by blast
  qed
qed

lemma bind_err_Inr_right [simp]: "bind_err m (\<lambda>x. Inr x) = m"
  by (cases m) simp_all

lemma for_each_Nil: "for_each body [] = (\<lambda>st. Inr st)"
  by (rule ext) simp

lemma for_each_upt_Suc:
  "for_each body [0..<Suc n] st = bind_err (for_each body [0..<n] st) (body n)"
  by (simp add: for_each_append for_each_Nil)

lemma label_of_queue_put [simp]:
  "queue (queue_put name msg st) = queue st @ [QMessage (setitem msg ''name'' (PStr name))]"
  by (simp add: queue_put_def put_def)

lemma queue_put_frame [simp]:
  "all_models (queue_put name msg st) = all_models st"
  "models (queue_put name msg st) = models st"
  "model (queue_put name msg st) = model st"
  "total_layer_num (queue_put name msg st) = total_layer_num st"
  "pipeline_rank (queue_put name msg st) = pipeline_rank st"
  "consumed_train_samples (queue_put name msg st) = consumed_train_samples st"
  "consumed_valid_samples (queue_put name msg st) = consumed_valid_samples st"
  by (simp_all add: queue_put_def put_def)

lemma send_layer_Inr:
  assumes "send_layer c l st = Inr st'"
  shows "\<exists>message. layer_message (c_schema c) (c_md c) (c_norm_has_bias c) (c_tp_size c)
                      (models st) l = Inr message"
    and "queue st' = queue st @ [layer_item (c_schema c) (c_md c) (c_norm_has_bias c)
                                  (c_tp_size c) (models st) l (total_layer_num st)]"
    and "total_layer_num st' = Suc (total_layer_num st)"
    and "all_models st' = all_models st" and "models st' = models st"
    and "pipeline_rank st' = pipeline_rank st"
    and "consumed_train_samples st' = consumed_train_samples st"
    and "consumed_valid_samples st' = consumed_valid_samples st"
  using assms by (auto simp: send_layer_def bind_err_Inr_iff layer_item_def)

lemma layer_loop_Inr:
  assumes "for_each (send_layer c) [0..<n] st = Inr st'"
  shows "queue st' = queue st @ map (\<lambda>l. layer_item (c_schema c) (c_md c) (c_norm_has_bias c)
                                  (c_tp_size c) (models st) l (total_layer_num st + l)) [0..<n]
       \<and> total_layer_num st' = total_layer_num st + n
       \<and> all_models st' = all_models st \<and> models st' = models st
       \<and> pipeline_rank st' = pipeline_rank st
       \<and> consumed_train_samples st' = consumed_train_samples st
       \<and> consumed_valid_samples st' = consumed_valid_samples st
       \<and> (\<forall>l < n. \<exists>message. layer_message (c_schema c) (c_md c) (c_norm_has_bias c)
                       (c_tp_size c) (models st) l = Inr message)"
  using assms
proof (induction n arbitrary: st')
  case 0
  then show ?case by simp
next
  case (Suc n)
  from Suc.prems obtain s where s: "for_each (send_layer c) [0..<n] st = Inr s"
    and l: "send_layer c n s = Inr st'"
    unfolding for_each_upt_Suc bind_err_Inr_iff by blast
  note IH = Suc.IH[OF s]
  note L = send_layer_Inr[OF l]
  show ?case using IH L by (auto simp: less_Suc_eq)
qed

lemma load_stage_Inr:
  assumes "load_stage c v p st = Inr st1"
  shows "queue st1 = queue st" and "total_layer_num st1 = total_layer_num st"
    and "models st1 = models st" and "model st1 = model st"
    and "all_models st1 =
           (if 0 < p \<and> v = 0
            then all_models st @ [stage_models (c_env c) (c_margs c) (c_tp_size c) p]
            else all_models st)"
proof -
  have "queue st1 = queue st \<and> total_layer_num st1 = total_layer_num st
      \<and> models st1 = models st \<and> model st1 = model st
      \<and> all_models st1 =
           (if 0 < p \<and> v = 0
            then all_models st @ [stage_models (c_env c) (c_margs c) (c_tp_size c) p]
            else all_models st)"
  proof (cases "0 < p \<and> v = 0")
    case True
    with assms obtain ms st' where
      g: "get_models (c_env c) (c_margs c) (c_tp_size c) (st\<lparr>pipeline_rank := p\<rparr>) = Inr (ms, st')"
      and st1: "st1 = st'\<lparr>all_models := all_models st' @ [ms]\<rparr>"
      by (auto simp: load_stage_def bind_err_Inr_iff)
    from get_models_Inr(1,2)[OF g]
    have ms: "ms = stage_models (c_env c) (c_margs c) (c_tp_size c) p"
      and st': "st' = st\<lparr> pipeline_rank := p,
                  consumed_train_samples := consumed_train_samples st',
                  consumed_valid_samples := consumed_valid_samples st' \<rparr>"
      by simp_all
    have "queue st' = queue st" "total_layer_num st' = total_layer_num st"
      "models st' = models st" "model st' = model st" "all_models st' = all_models st"
      by (subst st', simp)+
    with st1 ms True show ?thesis by simp
  next
    case False
    with assms show ?thesis by (auto simp: load_stage_def split: if_splits)
  qed
  then show "queue st1 = queue st" and "total_layer_num st1 = total_layer_num st"
    and "models st1 = models st" and "model st1 = model st"
    and "all_models st1 =
           (if 0 < p \<and> v = 0
            then all_models st @ [stage_models (c_env c) (c_margs c) (c_tp_size c) p]
            else all_models st)"
    by simp_all
qed

lemma loaded_stages_Suc:
  "loaded_stages e margs tp (Suc k) = loaded_stages e margs tp k @ [stage_models e margs tp k]"
  by (simp add: loaded_stages_def)

lemma loaded_stages_nth:
  "p < k \<Longrightarrow> list_index (loaded_stages e margs tp k) p = Inr (stage_models e margs tp p)"
  by (simp add: loaded_stages_def list_index_def)

lemma stage_models_nth:
  "v < model_array_len margs \<Longrightarrow>
     list_index (stage_models e margs tp p) v
       = Inr (map (\<lambda>rank. sf_model (e_ckpt e p rank) v) [0..<tp])"
  by (simp add: stage_models_def list_index_def)

lemma stage_models_nth':
  "v < model_array_len margs \<Longrightarrow>
     stage_models e margs tp p ! v = map (\<lambda>rank. sf_model (e_ckpt e p rank) v) [0..<tp]"
  by (simp add: stage_models_def)

lemma send_stage_Inr:
  assumes run: "send_stage c v p st = Inr st'"
    and am: "all_models st = loaded_stages (c_env c) (c_margs c) (c_tp_size c)
                               (if v = 0 then max 1 p else pp)"
    and p: "p < pp" and v: "v < model_array_len (c_margs c)" and tp: "0 < c_tp_size c"
  shows "\<exists>n. get_num_layers (c_schema c) (sf_model (e_ckpt (c_env c) p 0) v) = Inr n
       \<and> queue st' = queue st @
           map (\<lambda>l. layer_item (c_schema c) (c_md c) (c_norm_has_bias c) (c_tp_size c)
                      (stage_models (c_env c) (c_margs c) (c_tp_size c) p ! v) l
                      (total_layer_num st + l)) [0..<n]
       \<and> total_layer_num st' = total_layer_num st + n
       \<and> all_models st' = loaded_stages (c_env c) (c_margs c) (c_tp_size c)
                               (if v = 0 then Suc p else pp)
       \<and> (\<forall>l < n. \<exists>message. layer_message (c_schema c) (c_md c) (c_norm_has_bias c)
                       (c_tp_size c) (stage_models (c_env c) (c_margs c) (c_tp_size c) p ! v) l
                     = Inr message)"
proof -
  let ?e = "c_env c" and ?m = "c_margs c" and ?tp = "c_tp_size c"
  let ?k = "if v = 0 then Suc p else pp"
  let ?ms = "stage_models ?e ?m ?tp p ! v"
  from run obtain st1 ms n where
    ld: "load_stage c v p st = Inr st1"
    and ix: "bind_err (list_index (all_models st1) p) (\<lambda>stage. list_index stage v) = Inr ms"
    and nl: "bind_err (list_index ms 0) (get_num_layers (c_schema c)) = Inr n"
    and lp: "for_each (send_layer c) [0..<n] (st1\<lparr>models := ms\<rparr>) = Inr st'"
    by (auto simp: send_stage_def bind_err_Inr_iff)
  note L = load_stage_Inr[OF ld]
  have am1: "all_models st1 = loaded_stages ?e ?m ?tp ?k"
  proof (cases "v = 0")
    case True
    show ?thesis
    proof (cases "p = 0")
      case True
      with \<open>v = 0\<close> L(5) am show ?thesis by simp
    next
      case False
      with \<open>v = 0\<close> L(5) am show ?thesis by (simp add: loaded_stages_Suc max_def)
    qed
  next
    case False
    with L(5) am show ?thesis by simp
  qed
  have pk: "p < ?k" using p by simp
  have ms: "ms = ?ms"
    using ix v by (simp add: am1 loaded_stages_nth[OF pk] stage_models_nth stage_models_nth')
  have m0: "list_index ms 0 = Inr (sf_model (e_ckpt ?e p 0) v)"
    using tp v by (simp add: ms stage_models_nth' list_index_def)
  have n: "get_num_layers (c_schema c) (sf_model (e_ckpt ?e p 0) v) = Inr n"
    using nl by (simp add: m0)
  note W = layer_loop_Inr[OF lp]
  show ?thesis
    using n W L(1,2) am1 ms by auto
qed

lemma pass_Inr:
  assumes run: "for_each (send_stage c v) [0..<k] st = Inr s"
    and k: "k \<le> pp"
    and am: "all_models st = loaded_stages (c_env c) (c_margs c) (c_tp_size c)
                               (if v = 0 then 1 else pp)"
    and v: "v < model_array_len (c_margs c)" and tp: "0 < c_tp_size c"
    and uni: "\<forall>p < pp. get_num_layers (c_schema c) (sf_model (e_ckpt (c_env c) p 0) v) = Inr lps"
  shows "queue s = queue st @
           concat (map (\<lambda>p. map (\<lambda>l. layer_item (c_schema c) (c_md c) (c_norm_has_bias c)
                                      (c_tp_size c)
                                      (stage_models (c_env c) (c_margs c) (c_tp_size c) p ! v) l
                                      (total_layer_num st + p * lps + l)) [0..<lps]) [0..<k])
       \<and> total_layer_num s = total_layer_num st + k * lps
       \<and> all_models s = loaded_stages (c_env c) (c_margs c) (c_tp_size c)
                               (if v = 0 then max 1 k else pp)
       \<and> (\<forall>p < k. \<forall>l < lps. \<exists>message.
             layer_message (c_schema c) (c_md c) (c_norm_has_bias c) (c_tp_size c)
               (stage_models (c_env c) (c_margs c) (c_tp_size c) p ! v) l = Inr message)"
  using run k
proof (induction k arbitrary: s)
  case 0
  then show ?case using am by simp
next
  case (Suc k)
  from Suc.prems(1) obtain s1 where s1: "for_each (send_stage c v) [0..<k] st = Inr s1"
    and st: "send_stage c v k s1 = Inr s"
    unfolding for_each_upt_Suc bind_err_Inr_iff by blast
  from Suc.prems(2) have k: "k \<le> pp" "k < pp" by simp_all
  note IH = Suc.IH[OF s1 k(1)]
  have am1: "all_models s1 = loaded_stages (c_env c) (c_margs c) (c_tp_size c)
                               (if v = 0 then max 1 k else pp)"
    using IH by simp
  from send_stage_Inr[OF st am1 k(2) v tp] uni k(2)
  have S: "queue s = queue s1 @
           map (\<lambda>l. layer_item (c_schema c) (c_md c) (c_norm_has_bias c) (c_tp_size c)
                      (stage_models (c_env c) (c_margs c) (c_tp_size c) k ! v) l
                      (total_layer_num s1 + l)) [0..<lps]"
    "total_layer_num s = total_layer_num s1 + lps"
    "all_models s = loaded_stages (c_env c) (c_margs c) (c_tp_size c)
                               (if v = 0 then Suc k else pp)"
    "\<forall>l < lps. \<exists>message. layer_message (c_schema c) (c_md c) (c_norm_has_bias c)
                       (c_tp_size c) (stage_models (c_env c) (c_margs c) (c_tp_size c) k ! v) l
                     = Inr message"
    by auto
  have t1: "total_layer_num s1 = total_layer_num st + k * lps" using IH by simp
  show ?case
    using IH S by (auto simp: t1 less_Suc_eq)
qed

lemma send_pass_Inr:
  assumes run: "send_pass c v st = Inr s"
    and am: "all_models st = loaded_stages (c_env c) (c_margs c) (c_tp_size c)
                               (if v = 0 then 1 else c_pp_size c)"
    and pp: "0 < c_pp_size c"
    and v: "v < model_array_len (c_margs c)" and tp: "0 < c_tp_size c"
    and uni: "\<forall>p < c_pp_size c.
                get_num_layers (c_schema c) (sf_model (e_ckpt (c_env c) p 0) v) = Inr lps"
  shows "queue s = queue st @
           concat (map (\<lambda>p. map (\<lambda>l. layer_item (c_schema c) (c_md c) (c_norm_has_bias c)
                                      (c_tp_size c)
                                      (stage_models (c_env c) (c_margs c) (c_tp_size c) p ! v) l
                                      (total_layer_num st + p * lps + l)) [0..<lps])
                     [0..<c_pp_size c])
       \<and> total_layer_num s = total_layer_num st + c_pp_size c * lps
       \<and> all_models s = loaded_stages (c_env c) (c_margs c) (c_tp_size c) (c_pp_size c)
       \<and> (\<forall>p < c_pp_size c. \<forall>l < lps. \<exists>message.
             layer_message (c_schema c) (c_md c) (c_norm_has_bias c) (c_tp_size c)
               (stage_models (c_env c) (c_margs c) (c_tp_size c) p ! v) l = Inr message)"
proof -
  from run have r: "for_each (send_stage c v) [0..<c_pp_size c] st = Inr s"
    by (simp add: send_pass_def)
  have m: "max (Suc 0) (c_pp_size c) = c_pp_size c" using pp by simp
  from pass_Inr[OF r order_refl am v tp uni] show ?thesis
    by (simp add: m)
qed

lemma passes_Inr:
  assumes run: "for_each (send_pass c) [0..<j] st = Inr s"
    and j: "j \<le> model_array_len (c_margs c)"
    and am: "all_models st = loaded_stages (c_env c) (c_margs c) (c_tp_size c) 1"
    and pp: "0 < c_pp_size c" and tp: "0 < c_tp_size c"
    and uni: "\<forall>p < c_pp_size c. \<forall>v < model_array_len (c_margs c).
                get_num_layers (c_schema c) (sf_model (e_ckpt (c_env c) p 0) v) = Inr lps"
  shows "queue s = queue st @
           concat (map (\<lambda>v. concat (map (\<lambda>p. map (\<lambda>l.
                     layer_item (c_schema c) (c_md c) (c_norm_has_bias c) (c_tp_size c)
                       (stage_models (c_env c) (c_margs c) (c_tp_size c) p ! v) l
                       (total_layer_num st + v * (c_pp_size c * lps) + p * lps + l))
                     [0..<lps]) [0..<c_pp_size c])) [0..<j])
       \<and> total_layer_num s = total_layer_num st + j * (c_pp_size c * lps)
       \<and> all_models s = loaded_stages (c_env c) (c_margs c) (c_tp_size c)
                           (if j = 0 then 1 else c_pp_size c)
       \<and> (\<forall>v < j. \<forall>p < c_pp_size c. \<forall>l < lps. \<exists>message.
             layer_message (c_schema c) (c_md c) (c_norm_has_bias c) (c_tp_size c)
               (stage_models (c_env c) (c_margs c) (c_tp_size c) p ! v) l = Inr message)"
  using run j
proof (induction j arbitrary: s)
  case 0
  then show ?case using am by simp
next
  case (Suc j)
  from Suc.prems(1) obtain s1 where s1: "for_each (send_pass c) [0..<j] st = Inr s1"
    and st: "send_pass c j s1 = Inr s"
    unfolding for_each_upt_Suc bind_err_Inr_iff by blast
  from Suc.prems(2) have j: "j \<le> model_array_len (c_margs c)" "j < model_array_len (c_margs c)"
    by simp_all
  note IH = Suc.IH[OF s1 j(1)]
  have am1: "all_models s1 = loaded_stages (c_env c) (c_margs c) (c_tp_size c)
                               (if j = 0 then 1 else c_pp_size c)"
    using IH by simp
  have uni': "\<forall>p < c_pp_size c.
                get_num_layers (c_schema c) (sf_model (e_ckpt (c_env c) p 0) j) = Inr lps"
    using uni j(2) by simp
  note S = send_pass_Inr[OF st am1 pp j(2) tp uni']
  have t1: "total_layer_num s1 = total_layer_num st + j * (c_pp_size c * lps)" using IH by simp
  show ?case
    using IH S by (auto simp: t1 less_Suc_eq add.assoc)
qed

section \<open>Taking a run apart\<close>

lemma check_for_arg_None [simp]: "check_for_arg a None = a"
  by (cases a) (simp_all add: check_for_arg_def)

lemma check_for_args_Some:
  assumes "check_for_args m = Some m'"
  shows "m_tensor_model_parallel_size m' = m_tensor_model_parallel_size m"
    and "m_pipeline_model_parallel_size m' = m_pipeline_model_parallel_size m"
    and "m_virtual_pipeline_model_parallel_size m' = m_virtual_pipeline_model_parallel_size m"
    and "m_expert_model_parallel_size m' = m_expert_model_parallel_size m"
    and "m_num_experts m' = m_num_experts m"
    and "m_num_layers m' = m_num_layers m"
    and "m_position_embedding_type m' = m_position_embedding_type m"
    and "m_bert_binary_head m' = m_bert_binary_head m"
    and "m_untie_embeddings_and_output_weights m' = m_untie_embeddings_and_output_weights m"
    and "m_transformer_impl m' = m_transformer_impl m"
    and "model_array_len m' = model_array_len m"
    and "m_tensor_model_parallel_size m \<noteq> None"
    and "m_pipeline_model_parallel_size m \<noteq> None"
    and "m_num_layers m \<noteq> None"
    and "m_position_embedding_type m \<noteq> None"
    and "m_bert_binary_head m \<noteq> None"
  using assms by (auto simp: check_for_args_def model_array_len_def split: if_splits)

lemma loaded_stages_1: "loaded_stages e margs tp (Suc 0) = [stage_models e margs tp 0]"
  by (simp add: loaded_stages_def)

lemma first_stage_Inr:
  assumes "first_stage e margs tp st = Inr st1"
  shows "all_models st1 = loaded_stages e margs tp 1"
    and "models st1 = stage_models e margs tp 0 ! 0"
    and "queue st1 = queue st" and "total_layer_num st1 = total_layer_num st"
    and "model st1 = model st"
    and "0 < model_array_len margs"
proof -
  from assms obtain ms st' ms0 where
    g: "get_models e margs tp (st\<lparr>pipeline_rank := 0\<rparr>) = Inr (ms, st')"
    and i: "list_index ms 0 = Inr ms0"
    and st1: "st1 = st'\<lparr>all_models := [ms], models := ms0\<rparr>"
    by (auto simp: first_stage_def bind_err_Inr_iff)
  from get_models_Inr(1,2)[OF g]
  have ms: "ms = stage_models e margs tp 0"
    and st': "st' = st\<lparr> pipeline_rank := 0,
                consumed_train_samples := consumed_train_samples st',
                consumed_valid_samples := consumed_valid_samples st' \<rparr>"
    by simp_all
  have fr: "queue st' = queue st" "total_layer_num st' = total_layer_num st"
    "model st' = model st"
    by (subst st', simp)+
  from i have "ms \<noteq> []" "ms0 = ms ! 0" by (auto simp: list_index_def split: if_splits)
  then show "all_models st1 = loaded_stages e margs tp 1"
    and "models st1 = stage_models e margs tp 0 ! 0"
    and "queue st1 = queue st" and "total_layer_num st1 = total_layer_num st"
    and "model st1 = model st"
    and "0 < model_array_len margs"
    using st1 ms fr by (auto simp: loaded_stages_1 stage_models_def)
qed

text \<open>A successful run, taken apart.\<close>

lemma private_load_checkpoint_Inr:
  assumes "private_load_checkpoint e args q = Inr st"
  obtains margs v st1 md sch where
    "e_megatron_importable e"
    and "check_for_args ((e_margs e)\<lparr> m_use_legacy_models := False,
             m_transformer_impl := a_loader_transformer_impl args \<rparr>) = Some margs"
    and "check_model_type args = Inr ()"
    and "get_true_vocab_size e args (init_state q) = Inr v"
    and "check_test_logits args (the (m_tensor_model_parallel_size margs))
           (model_array_len margs) = Inr ()"
    and "first_stage e margs (the (m_tensor_model_parallel_size margs)) (init_state q) = Inr st1"
    and "md = (make_md args margs (e_checkpoint_args e)
                 (norm_has_bias_of (e_checkpoint_args e)) v)
                \<lparr> md_consumed_train_samples := consumed_train_samples st1,
                  md_consumed_valid_samples := consumed_valid_samples st1 \<rparr>"
    and "get_model_schema (a_model_type args) (m_transformer_impl margs)
           (m_num_experts margs) (m_expert_model_parallel_size margs) = Inr sch"
    and "send_messages (make_ctx e args margs md sch) (put (QMetadata md) st1) = Inr st"
proof -
  from assms obtain st0 margs u1 v u2 st1 where
    1: "import_megatron e (init_state q) = Inr st0"
    and 2: "checked_margs e args st0 = Inr margs"
    and 3: "check_model_type args = Inr u1"
    and 4: "get_true_vocab_size e args st0 = Inr v"
    and 5: "check_test_logits args (the (m_tensor_model_parallel_size margs))
              (case m_virtual_pipeline_model_parallel_size margs of
                 None \<Rightarrow> 1 | Some vp \<Rightarrow> vp) = Inr u2"
    and 6: "first_stage e margs (the (m_tensor_model_parallel_size margs)) st0 = Inr st1"
    and 7: "send_all e args margs
              (make_md args margs (e_checkpoint_args e) (norm_has_bias_of (e_checkpoint_args e)) v)
              st1 = Inr st"
    unfolding private_load_checkpoint_def bind_err_Inr_iff raise_at_Inr_iff by blast
  from 1 have imp: "e_megatron_importable e" and st0: "st0 = init_state q"
    by (auto simp: import_megatron_def split: if_splits)
  from 2 have cm: "check_for_args ((e_margs e)\<lparr> m_use_legacy_models := False,
             m_transformer_impl := a_loader_transformer_impl args \<rparr>) = Some margs"
    by (auto simp: checked_margs_def bind_err_Inr_iff raise_at_Inr_iff split: option.splits)
  let ?md = "(make_md args margs (e_checkpoint_args e)
                 (norm_has_bias_of (e_checkpoint_args e)) v)
                \<lparr> md_consumed_train_samples := consumed_train_samples st1,
                  md_consumed_valid_samples := consumed_valid_samples st1 \<rparr>"
  from 7 obtain sch where
    s: "get_model_schema (md_model_type ?md) (m_transformer_impl margs)
           (m_num_experts margs) (m_expert_model_parallel_size margs) = Inr sch"
    and m: "send_messages (make_ctx e args margs ?md sch) (put (QMetadata ?md) st1) = Inr st"
    by (auto simp: send_all_def Let_def bind_err_Inr_iff)
  have mt: "md_model_type ?md = a_model_type args" by (simp add: make_md_def)
  show ?thesis
    using that[OF imp cm _ _ _ _ refl _ m] 3 4 5 6 s
    by (simp add: st0 mt model_array_len_def)
qed

lemma send_messages_Inr:
  assumes "send_messages c st = Inr st'"
  obtains s1 s2 s3 s4 s5 s6 where
    "send_embeddings c st = Inr s1" and "send_layers c s1 = Inr s2"
    and "send_final_norm c s2 = Inr s3" and "send_output_layer c s3 = Inr s4"
    and "send_bert c s4 = Inr s5" and "send_logits c s5 = Inr s6"
    and "st' = put (QStr ''done'') s6"
  using assms unfolding send_messages_def bind_err_Inr_iff by blast

lemma final_state_simps [simp]:
  "final_state (Inl (err, s)) = s"
  "final_state (Inr s) = s"
  by (simp_all add: final_state_def)

lemma emits_layers_refl [simp]: "emits_layers st st"
  by (simp add: emits_layers_def)

lemma emits_layers_trans:
  assumes "emits_layers a b" and "emits_layers b c"
  shows "emits_layers a c"
proof -
  from assms have le: "total_layer_num a \<le> total_layer_num b" "total_layer_num b \<le> total_layer_num c"
    by (simp_all add: emits_layers_def)
  then have u: "[total_layer_num a..<total_layer_num c]
           = [total_layer_num a..<total_layer_num b] @ [total_layer_num b..<total_layer_num c]"
    by (metis le_Suc_ex upt_add_eq_append)
  from assms obtain i1 i2 where
    1: "queue b = queue a @ i1"
       "map label_of i1 = map (\<lambda>i. LMessage (layer_name i)) [total_layer_num a..<total_layer_num b]"
    and 2: "queue c = queue b @ i2"
       "map label_of i2 = map (\<lambda>i. LMessage (layer_name i)) [total_layer_num b..<total_layer_num c]"
    by (auto simp: emits_layers_def)
  have "queue c = queue a @ (i1 @ i2)" using 1(1) 2(1) by simp
  moreover have "map label_of (i1 @ i2)
      = map (\<lambda>i. LMessage (layer_name i)) [total_layer_num a..<total_layer_num c]"
    using 1(2) 2(2) u by simp
  ultimately show ?thesis using le unfolding emits_layers_def by (meson order_trans)
qed

lemma emits_layers_same:
  "queue s = queue st \<Longrightarrow> total_layer_num s = total_layer_num st \<Longrightarrow> emits_layers st s"
  by (simp add: emits_layers_def)

lemma emits_layers_bind:
  assumes "emits_layers st (final_state m)"
    and "\<And>s1. m = Inr s1 \<Longrightarrow> emits_layers s1 (final_state (g s1))"
  shows "emits_layers st (final_state (bind_err m g))"
proof (cases m)
  case (Inl a)
  with assms(1) show ?thesis by simp
next
  case (Inr s1)
  with assms show ?thesis by (auto intro: emits_layers_trans)
qed

lemma for_each_emits:
  assumes "\<And>x s. emits_layers s (final_state (body x s))"
  shows "emits_layers st (final_state (for_each body xs st))"
proof (induction xs arbitrary: st)
  case Nil
  show ?case by simp
next
  case (Cons x xs)
  show ?case
    unfolding for_each.simps by (rule emits_layers_bind) (simp_all add: assms Cons)
qed

lemma label_of_named [simp]: "label_of (QMessage (setitem msg ''name'' (PStr n))) = LMessage n"
  by simp

lemma send_layer_emits: "emits_layers st (final_state (send_layer c l st))"
proof (cases "layer_message (c_schema c) (c_md c) (c_norm_has_bias c) (c_tp_size c) (models st) l")
  case (Inl a)
  then show ?thesis by (simp add: send_layer_def)
next
  case (Inr message)
  then show ?thesis by (simp add: send_layer_def emits_layers_def)
qed

lemma load_stage_emits: "emits_layers st (final_state (load_stage c v p st))"
proof (cases "load_stage c v p st")
  case (Inl a)
  then have "final_state (load_stage c v p st) = st\<lparr>pipeline_rank := p\<rparr>"
    by (cases a) (auto simp: load_stage_def bind_err_Inl_iff split: if_splits)
  then show ?thesis by (simp add: emits_layers_same)
next
  case (Inr st1)
  from load_stage_Inr(1,2)[OF Inr] Inr show ?thesis by (simp add: emits_layers_same)
qed

lemma final_state_raise_at:
  "final_state (bind_err (raise_at st m) g) = (case m of Inl err \<Rightarrow> st | Inr x \<Rightarrow> final_state (g x))"
  by (cases m) simp_all

lemma send_stage_emits: "emits_layers st (final_state (send_stage c v p st))"
  unfolding send_stage_def
proof (rule emits_layers_bind)
  show "emits_layers st (final_state (load_stage c v p st))" by (rule load_stage_emits)
next
  fix s1
  show "emits_layers s1 (final_state
          (bind_err (raise_at s1 (bind_err (list_index (all_models s1) p)
                                    (\<lambda>stage. list_index stage v)))
             (\<lambda>ms. bind_err (raise_at (s1\<lparr>models := ms\<rparr>)
                              (bind_err (list_index ms 0) (get_num_layers (c_schema c))))
                     (\<lambda>n. for_each (send_layer c) [0..<n] (s1\<lparr>models := ms\<rparr>)))))"
  proof -
    have a: "emits_layers s1 (final_state (for_each (send_layer c) [0..<n] (s1\<lparr>models := ms\<rparr>)))"
      for n ms
    proof -
      have "emits_layers (s1\<lparr>models := ms\<rparr>)
              (final_state (for_each (send_layer c) [0..<n] (s1\<lparr>models := ms\<rparr>)))"
        by (rule for_each_emits) (rule send_layer_emits)
      moreover have "emits_layers s1 (s1\<lparr>models := ms\<rparr>)" by (simp add: emits_layers_same)
      ultimately show ?thesis by (rule emits_layers_trans[rotated])
    qed
    have b: "emits_layers s1 (s1\<lparr>models := ms\<rparr>)" for ms by (simp add: emits_layers_same)
    show ?thesis
      by (simp add: final_state_raise_at a b split: sum.splits)
  qed
qed

lemma send_pass_emits: "emits_layers st (final_state (send_pass c v st))"
  unfolding send_pass_def by (rule for_each_emits) (rule send_stage_emits)

lemma send_layers_emits:
  "\<exists>items. queue (final_state (send_layers c st)) = queue st @ items
         \<and> map label_of items
             = map (\<lambda>i. LMessage (layer_name i))
                 [0..<total_layer_num (final_state (send_layers c st))]"
proof -
  have "emits_layers (st\<lparr>total_layer_num := 0\<rparr>) (final_state (send_layers c st))"
    unfolding send_layers_def by (rule for_each_emits) (rule send_pass_emits)
  then show ?thesis by (simp add: emits_layers_def)
qed

lemma stage_frame:
  assumes run: "for_each (send_stage c v) [0..<k] st = Inr s"
    and k: "k \<le> pp"
    and am: "all_models st = loaded_stages (c_env c) (c_margs c) (c_tp_size c)
                               (if v = 0 then 1 else pp)"
    and v: "v < model_array_len (c_margs c)" and tp: "0 < c_tp_size c"
  shows "all_models s = loaded_stages (c_env c) (c_margs c) (c_tp_size c)
                               (if v = 0 then max 1 k else pp)
       \<and> total_layer_num s
           = total_layer_num st
             + sum_list (map (\<lambda>p. stage_layers (c_schema c) (c_env c) p v) [0..<k])"
  using run k
proof (induction k arbitrary: s)
  case 0
  then show ?case using am by simp
next
  case (Suc k)
  from Suc.prems(1) obtain s1 where s1: "for_each (send_stage c v) [0..<k] st = Inr s1"
    and st: "send_stage c v k s1 = Inr s"
    unfolding for_each_upt_Suc bind_err_Inr_iff by blast
  from Suc.prems(2) have k: "k \<le> pp" "k < pp" by simp_all
  note IH = Suc.IH[OF s1 k(1)]
  have am1: "all_models s1 = loaded_stages (c_env c) (c_margs c) (c_tp_size c)
                               (if v = 0 then max 1 k else pp)"
    using IH by simp
  from send_stage_Inr[OF st am1 k(2) v tp] obtain n where
    n: "get_num_layers (c_schema c) (sf_model (e_ckpt (c_env c) k 0) v) = Inr n"
    and t: "total_layer_num s = total_layer_num s1 + n"
    and a: "all_models s = loaded_stages (c_env c) (c_margs c) (c_tp_size c)
                               (if v = 0 then Suc k else pp)"
    by blast
  have "stage_layers (c_schema c) (c_env c) k v = n" by (simp add: stage_layers_def n)
  with IH t a show ?case by simp
qed

lemma passes_frame:
  assumes run: "for_each (send_pass c) [0..<j] st = Inr s"
    and j: "j \<le> model_array_len (c_margs c)"
    and am: "all_models st = loaded_stages (c_env c) (c_margs c) (c_tp_size c) 1"
    and pp: "0 < c_pp_size c" and tp: "0 < c_tp_size c"
  shows "all_models s = loaded_stages (c_env c) (c_margs c) (c_tp_size c)
                           (if j = 0 then 1 else c_pp_size c)"
  using run j
proof (induction j arbitrary: s)
  case 0
  then show ?case using am by simp
next
  case (Suc j)
  from Suc.prems(1) obtain s1 where s1: "for_each (send_pass c) [0..<j] st = Inr s1"
    and st: "for_each (send_stage c j) [0..<c_pp_size c] s1 = Inr s"
    unfolding for_each_upt_Suc bind_err_Inr_iff send_pass_def by blast
  from Suc.prems(2) have j: "j \<le> model_array_len (c_margs c)" "j < model_array_len (c_margs c)"
    by simp_all
  have am1: "all_models s1 = loaded_stages (c_env c) (c_margs c) (c_tp_size c)
                               (if j = 0 then 1 else c_pp_size c)"
    using Suc.IH[OF s1 j(1)] by simp
  have m: "max (Suc 0) (c_pp_size c) = c_pp_size c" using pp by simp
  from stage_frame[OF st order_refl am1 j(2) tp] show ?case by (simp add: m)
qed

lemma send_layers_frame:
  assumes run: "send_layers c st = Inr s"
    and vp: "c_vp_size c = model_array_len (c_margs c)" "0 < model_array_len (c_margs c)"
    and am: "all_models st = loaded_stages (c_env c) (c_margs c) (c_tp_size c) 1"
    and pp: "0 < c_pp_size c" and tp: "0 < c_tp_size c"
  shows "all_models s = loaded_stages (c_env c) (c_margs c) (c_tp_size c) (c_pp_size c)"
proof -
  from run have r: "for_each (send_pass c) [0..<model_array_len (c_margs c)]
                      (st\<lparr>total_layer_num := 0\<rparr>) = Inr s"
    by (simp add: send_layers_def vp)
  have am': "all_models (st\<lparr>total_layer_num := 0\<rparr>)
               = loaded_stages (c_env c) (c_margs c) (c_tp_size c) 1"
    using am by simp
  from passes_frame[OF r order_refl am' pp tp] vp(2) show ?thesis by simp
qed

lemma send_embeddings_Inr:
  assumes "send_embeddings c st = Inr s"
  obtains message where
    "embeddings_message (c_schema c) (md_position_embedding_type (c_md c)) (models st)
       = Inr message"
    and "s = queue_put ''embeddings'' message st"
  using assms by (auto simp: send_embeddings_def bind_err_Inr_iff)

lemma send_final_norm_Inr:
  assumes "send_final_norm c st = Inr s"
  obtains message where
    "final_norm_message (c_schema c) (c_norm_has_bias c) (models st) = Inr message"
    and "s = queue_put ''final norm'' message st"
  using assms by (auto simp: send_final_norm_def bind_err_Inr_iff)

lemma send_output_layer_Inr:
  assumes "send_output_layer c st = Inr s"
  shows "map label_of (queue s)
           = map label_of (queue st)
             @ (if md_output_layer (c_md c) then [LMessage ''output layer''] else [])"
    and "all_models s = all_models st" and "total_layer_num s = total_layer_num st"
    and "model s = model st" and "models s = models st"
  using assms by (auto simp: send_output_layer_def bind_err_Inr_iff split: if_splits)

lemma send_bert_Inr:
  assumes "send_bert c st = Inr s"
  shows "map label_of (queue s)
           = map label_of (queue st)
             @ (if md_model_type (c_md c) = ''BERT''
                then [LMessage ''pooler'', LMessage ''lm head'']
                     @ (if md_bert_binary_head (c_md c) then [LMessage ''binary head''] else [])
                else [])"
    and "all_models s = all_models st" and "total_layer_num s = total_layer_num st"
    and "model s = model st" and "models s = models st"
proof -
  have "map label_of (queue s)
           = map label_of (queue st)
             @ (if md_model_type (c_md c) = ''BERT''
                then [LMessage ''pooler'', LMessage ''lm head'']
                     @ (if md_bert_binary_head (c_md c) then [LMessage ''binary head''] else [])
                else [])
      \<and> all_models s = all_models st \<and> total_layer_num s = total_layer_num st
      \<and> model s = model st \<and> models s = models st"
  proof (cases "md_model_type (c_md c) = ''BERT''")
    case False
    with assms show ?thesis by (simp add: send_bert_def)
  next
    case True
    show ?thesis
    proof (cases "md_bert_binary_head (c_md c)")
      case False
      with True assms obtain pooler lm_head where
        "s = queue_put ''lm head'' lm_head (queue_put ''pooler'' pooler st)"
        by (auto simp: send_bert_def bind_err_Inr_iff)
      with True False show ?thesis by simp
    next
      case bh: True
      with True assms obtain pooler lm_head binary_head where
        "s = queue_put ''binary head'' binary_head
               (queue_put ''lm head'' lm_head (queue_put ''pooler'' pooler st))"
        by (auto simp: send_bert_def bind_err_Inr_iff)
      with True bh show ?thesis by simp
    qed
  qed
  then show "map label_of (queue s)
           = map label_of (queue st)
             @ (if md_model_type (c_md c) = ''BERT''
                then [LMessage ''pooler'', LMessage ''lm head'']
                     @ (if md_bert_binary_head (c_md c) then [LMessage ''binary head''] else [])
                else [])"
    and "all_models s = all_models st" and "total_layer_num s = total_layer_num st"
    and "model s = model st" and "models s = models st"
    by simp_all
qed

lemma send_logits_Inr:
  assumes "send_logits c st = Inr s"
  shows "map label_of (queue s)
           = map label_of (queue st)
             @ (if a_test_logits (c_args c) then [LMessage ''logits_check''] else [])"
    and "all_models s = all_models st" and "total_layer_num s = total_layer_num st"
    and "models s = models st"
  using assms
  by (auto simp: send_logits_def queue_put_def put_def setitem_def split: if_splits option.splits)

lemma make_ctx_simps [simp]:
  "c_env (make_ctx e args margs md sch) = e"
  "c_args (make_ctx e args margs md sch) = args"
  "c_margs (make_ctx e args margs md sch) = margs"
  "c_md (make_ctx e args margs md sch) = md"
  "c_schema (make_ctx e args margs md sch) = sch"
  "c_tp_size (make_ctx e args margs md sch) = the (m_tensor_model_parallel_size margs)"
  "c_pp_size (make_ctx e args margs md sch) = the (m_pipeline_model_parallel_size margs)"
  "c_vp_size (make_ctx e args margs md sch) = model_array_len margs"
  "c_norm_has_bias (make_ctx e args margs md sch) = md_norm_has_bias md"
  by (simp_all add: make_ctx_def model_array_len_def)

lemma put_simps [simp]:
  "queue (put item st) = queue st @ [item]"
  "all_models (put item st) = all_models st"
  "models (put item st) = models st"
  "model (put item st) = model st"
  "total_layer_num (put item st) = total_layer_num st"
  by (simp_all add: put_def)

lemma stage_models_cong:
  "model_array_len m = model_array_len m' \<Longrightarrow> stage_models e m tp p = stage_models e m' tp p"
  by (simp add: stage_models_def)

lemma loaded_stages_cong:
  "model_array_len m = model_array_len m' \<Longrightarrow> loaded_stages e m tp k = loaded_stages e m' tp k"
  by (simp add: loaded_stages_def stage_models_cong[of m m'])

lemma model_array_len_update [simp]:
  "model_array_len (m\<lparr> m_use_legacy_models := a, m_transformer_impl := b \<rparr>) = model_array_len m"
  by (simp add: model_array_len_def)

section \<open>The shard sets the walk keeps\<close>

text \<open>
  C7 (amended): the walk loads the shard set of each pipeline stage once, when the first
  virtual-pipeline pass reaches the stage, appends it to \<^verbatim>\<open>all_models\<close> and never
  removes it: at the end of a run over \<open>pp\<close> pipeline stages \<^verbatim>\<open>all_models\<close> holds the
  shard sets of all \<open>pp\<close> stages, in stage order.
\<close>

theorem all_stages_retained:
  assumes run: "private_load_checkpoint e args q = Inr st"
    and tp: "m_tensor_model_parallel_size (e_margs e) = Some tp"
    and pp: "m_pipeline_model_parallel_size (e_margs e) = Some pp" and pp0: "0 < pp"
  shows "all_models st = map (stage_models e (e_margs e) tp) [0..<pp]
       \<and> length (all_models st) = pp"
proof -
  from run obtain margs v st1 md sch where
    cm: "check_for_args ((e_margs e)\<lparr> m_use_legacy_models := False,
             m_transformer_impl := a_loader_transformer_impl args \<rparr>) = Some margs"
    and fs: "first_stage e margs (the (m_tensor_model_parallel_size margs)) (init_state q) = Inr st1"
    and tl: "check_test_logits args (the (m_tensor_model_parallel_size margs))
           (model_array_len margs) = Inr ()"
    and sm: "send_messages (make_ctx e args margs md sch) (put (QMetadata md) st1) = Inr st"
    by (rule private_load_checkpoint_Inr)
  let ?c = "make_ctx e args margs md sch"
  note M = check_for_args_Some[OF cm]
  have tpm: "the (m_tensor_model_parallel_size margs) = tp" using M(1) tp by simp
  have ppm: "the (m_pipeline_model_parallel_size margs) = pp" using M(2) pp by simp
  have mal: "model_array_len margs = model_array_len (e_margs e)" using M(11) by simp
  note F = first_stage_Inr[OF fs]
  from sm obtain s1 s2 s3 s4 s5 s6 where
    1: "send_embeddings ?c (put (QMetadata md) st1) = Inr s1" and 2: "send_layers ?c s1 = Inr s2"
    and 3: "send_final_norm ?c s2 = Inr s3" and 4: "send_output_layer ?c s3 = Inr s4"
    and 5: "send_bert ?c s4 = Inr s5" and 6: "send_logits ?c s5 = Inr s6"
    and 7: "st = put (QStr ''done'') s6"
    by (rule send_messages_Inr)
  have tp0: "0 < tp"
  proof -
    from 1 obtain message where
      "embeddings_message sch (md_position_embedding_type md) (models (put (QMetadata md) st1))
         = Inr message"
      by (rule send_embeddings_Inr) simp
    then obtain embeddings e0 where "map_err (schema_get sch ''embeddings'') (models st1) = Inr embeddings"
      "list_index embeddings 0 = Inr e0"
      by (auto simp: embeddings_message_def bind_err_Inr_iff)
    then have "models st1 \<noteq> []" by (auto simp: list_index_def split: if_splits)
    with F(2,6) show ?thesis
      by (cases "tp = 0") (simp_all add: tpm stage_models_def)
  qed
  have a1: "all_models s1 = loaded_stages e margs tp 1"
    using 1 F(1) by (auto elim!: send_embeddings_Inr simp: tpm)
  have a2: "all_models s2 = loaded_stages e margs tp pp"
    using send_layers_frame[OF 2] a1 F(6) tp0 pp0 by (simp add: tpm ppm)
  have a3: "all_models s3 = all_models s2"
    using 3 by (auto elim!: send_final_norm_Inr)
  have "all_models st = loaded_stages e margs tp pp"
    using a2 a3 send_output_layer_Inr(2)[OF 4] send_bert_Inr(2)[OF 5] send_logits_Inr(2)[OF 6] 7
    by simp
  moreover have "loaded_stages e margs tp pp = loaded_stages e (e_margs e) tp pp"
    by (rule loaded_stages_cong[OF mal])
  ultimately show ?thesis
    by (simp add: loaded_stages_def)
qed

text \<open>
  C7 (as stated): a stage's shard objects are released before the next stage is loaded,
  and the shard sets of two stages are never held together. On the dense checkpoint
  with two pipeline stages the run ends with both shard sets in \<^verbatim>\<open>all_models\<close>.
\<close>

theorem two_stages_retained_counterexample:
  "map_sum fst all_models (private_load_checkpoint ex_env ex_args [])
     = Inr [stage_models ex_env ex_margs 2 0, stage_models ex_env ex_margs 2 1]
   \<and> stage_models ex_env ex_margs 2 0 \<noteq> stage_models ex_env ex_margs 2 1"
  by code_simp

lemma Inr_projr: "(case r of Inl a \<Rightarrow> False | Inr b \<Rightarrow> True) \<Longrightarrow> r = Inr (projr r)"
  by (cases r) simp_all

theorem all_stages_retained_witness:
  "m_tensor_model_parallel_size (e_margs ex_env) = Some 2
   \<and> m_pipeline_model_parallel_size (e_margs ex_env) = Some 2
   \<and> private_load_checkpoint ex_env ex_args []
       = Inr (projr (private_load_checkpoint ex_env ex_args []))
   \<and> all_models (projr (private_load_checkpoint ex_env ex_args []))
       = [stage_models ex_env (e_margs ex_env) 2 0, stage_models ex_env (e_margs ex_env) 2 1]
   \<and> length (all_models (projr (private_load_checkpoint ex_env ex_args []))) = 2"
proof -
  have ok: "(case private_load_checkpoint ex_env ex_args [] of Inl a \<Rightarrow> False | Inr b \<Rightarrow> True)"
    by code_simp
  have run: "private_load_checkpoint ex_env ex_args []
       = Inr (projr (private_load_checkpoint ex_env ex_args []))"
    using ok by (rule Inr_projr)
  have tp: "m_tensor_model_parallel_size (e_margs ex_env) = Some 2"
    and pp: "m_pipeline_model_parallel_size (e_margs ex_env) = Some 2"
    by code_simp+
  have pp0: "(0::nat) < 2" by simp
  have u: "[0..<2] = [0, Suc 0]" by (simp add: upt_rec)
  from all_stages_retained [OF run tp pp pp0] run tp pp show ?thesis
    by (simp add: u)
qed





section \<open>A completed run\<close>

lemma send_output_layer_items:
  assumes "send_output_layer c st = Inr s"
  shows "\<exists>items. queue s = queue st @ items
           \<and> map label_of items
               = (if md_output_layer (c_md c) then [LMessage ''output layer''] else [])"
  using assms by (auto simp: send_output_layer_def bind_err_Inr_iff split: if_splits)

lemma send_bert_items:
  assumes "send_bert c st = Inr s"
  shows "\<exists>items. queue s = queue st @ items
           \<and> map label_of items
               = (if md_model_type (c_md c) = ''BERT''
                  then [LMessage ''pooler'', LMessage ''lm head'']
                       @ (if md_bert_binary_head (c_md c) then [LMessage ''binary head''] else [])
                  else [])"
proof (cases "md_model_type (c_md c) = ''BERT''")
  case False
  with assms show ?thesis by (simp add: send_bert_def)
next
  case True
  show ?thesis
  proof (cases "md_bert_binary_head (c_md c)")
    case False
    with True assms obtain pooler lm_head where
      "s = queue_put ''lm head'' lm_head (queue_put ''pooler'' pooler st)"
      by (auto simp: send_bert_def bind_err_Inr_iff)
    with True False show ?thesis by simp
  next
    case bh: True
    with True assms obtain pooler lm_head binary_head where
      "s = queue_put ''binary head'' binary_head
             (queue_put ''lm head'' lm_head (queue_put ''pooler'' pooler st))"
      by (auto simp: send_bert_def bind_err_Inr_iff)
    with True bh show ?thesis by simp
  qed
qed

lemma send_logits_items:
  assumes "send_logits c st = Inr s"
  shows "\<exists>items. queue s = queue st @ items
           \<and> map label_of items
               = (if a_test_logits (c_args c) then [LMessage ''logits_check''] else [])"
  using assms
  by (auto simp: send_logits_def queue_put_def put_def setitem_def split: if_splits option.splits)

text \<open>The queue of a completed run, piece by piece.\<close>

lemma completed_run:
  assumes run: "private_load_checkpoint e args [] = Inr st"
    and tp: "m_tensor_model_parallel_size (e_margs e) = Some tp"
  obtains margs v ct cv sch emb s1 s2 tail where
    "check_for_args ((e_margs e)\<lparr> m_use_legacy_models := False,
             m_transformer_impl := a_loader_transformer_impl args \<rparr>) = Some margs"
    and "get_model_schema (a_model_type args) (m_transformer_impl margs)
           (m_num_experts margs) (m_expert_model_parallel_size margs) = Inr sch"
    and "embeddings_message sch (the (m_position_embedding_type margs))
           (stage_models e margs tp 0 ! 0) = Inr emb"
    and "queue s1 = [QMetadata ((make_md args margs (e_checkpoint_args e)
                                  (norm_has_bias_of (e_checkpoint_args e)) v)
                                 \<lparr> md_consumed_train_samples := ct,
                                   md_consumed_valid_samples := cv \<rparr>),
                     QMessage (setitem emb ''name'' (PStr ''embeddings''))]"
    and "all_models s1 = loaded_stages e margs tp 1"
    and "send_layers (make_ctx e args margs
                        ((make_md args margs (e_checkpoint_args e)
                            (norm_has_bias_of (e_checkpoint_args e)) v)
                           \<lparr> md_consumed_train_samples := ct,
                             md_consumed_valid_samples := cv \<rparr>) sch) s1 = Inr s2"
    and "queue st = queue s2 @ tail"
    and "total_layer_num st = total_layer_num s2"
    and "map label_of tail =
           [LMessage ''final norm'']
           @ (if m_untie_embeddings_and_output_weights (e_margs e)
              then [LMessage ''output layer''] else [])
           @ (if a_model_type args = ''BERT''
              then [LMessage ''pooler'', LMessage ''lm head'']
                   @ (if m_bert_binary_head (e_margs e) = Some True
                      then [LMessage ''binary head''] else [])
              else [])
           @ (if a_test_logits args then [LMessage ''logits_check''] else [])
           @ [LSentinel ''done'']"
    and "0 < tp" and "0 < model_array_len margs"
proof -
  from run obtain margs v st1 md sch where
    cm: "check_for_args ((e_margs e)\<lparr> m_use_legacy_models := False,
             m_transformer_impl := a_loader_transformer_impl args \<rparr>) = Some margs"
    and fs: "first_stage e margs (the (m_tensor_model_parallel_size margs)) (init_state []) = Inr st1"
    and md: "md = (make_md args margs (e_checkpoint_args e)
                 (norm_has_bias_of (e_checkpoint_args e)) v)
                \<lparr> md_consumed_train_samples := consumed_train_samples st1,
                  md_consumed_valid_samples := consumed_valid_samples st1 \<rparr>"
    and sc: "get_model_schema (a_model_type args) (m_transformer_impl margs)
           (m_num_experts margs) (m_expert_model_parallel_size margs) = Inr sch"
    and sm: "send_messages (make_ctx e args margs md sch) (put (QMetadata md) st1) = Inr st"
    by (rule private_load_checkpoint_Inr)
  let ?c = "make_ctx e args margs md sch"
  note M = check_for_args_Some[OF cm]
  have tpm: "the (m_tensor_model_parallel_size margs) = tp" using M(1) tp by simp
  note F = first_stage_Inr[OF fs]
  from sm obtain s1 s2 s3 s4 s5 s6 where
    1: "send_embeddings ?c (put (QMetadata md) st1) = Inr s1" and 2: "send_layers ?c s1 = Inr s2"
    and 3: "send_final_norm ?c s2 = Inr s3" and 4: "send_output_layer ?c s3 = Inr s4"
    and 5: "send_bert ?c s4 = Inr s5" and 6: "send_logits ?c s5 = Inr s6"
    and 7: "st = put (QStr ''done'') s6"
    by (rule send_messages_Inr)
  have pet: "md_position_embedding_type md = the (m_position_embedding_type margs)"
    by (simp add: md make_md_def)
  from 1 obtain emb where
    em: "embeddings_message sch (the (m_position_embedding_type margs))
           (stage_models e margs tp 0 ! 0) = Inr emb"
    and s1: "s1 = queue_put ''embeddings'' emb (put (QMetadata md) st1)"
    by (rule send_embeddings_Inr) (simp add: pet F(2) tpm)
  have q1: "queue s1 = [QMetadata md, QMessage (setitem emb ''name'' (PStr ''embeddings''))]"
    using s1 F(3) by (simp add: init_state_def)
  have a1: "all_models s1 = loaded_stages e margs tp 1"
    using s1 F(1) by (simp add: tpm)
  have tp0: "0 < tp"
  proof -
    from em obtain embeddings e0 where
      "map_err (schema_get sch ''embeddings'') (stage_models e margs tp 0 ! 0) = Inr embeddings"
      "list_index embeddings 0 = Inr e0"
      by (auto simp: embeddings_message_def bind_err_Inr_iff)
    then have "stage_models e margs tp 0 ! 0 \<noteq> []"
      by (auto simp: list_index_def split: if_splits)
    with F(6) show ?thesis by (cases "tp = 0") (simp_all add: stage_models_def)
  qed
  from 3 obtain fn where s3: "s3 = queue_put ''final norm'' fn s2"
    by (rule send_final_norm_Inr)
  from send_output_layer_items[OF 4] obtain i4 where
    q4: "queue s4 = queue s3 @ i4"
    and l4: "map label_of i4 = (if md_output_layer md then [LMessage ''output layer''] else [])"
    by auto
  from send_bert_items[OF 5] obtain i5 where
    q5: "queue s5 = queue s4 @ i5"
    and l5: "map label_of i5
               = (if md_model_type md = ''BERT''
                  then [LMessage ''pooler'', LMessage ''lm head'']
                       @ (if md_bert_binary_head md then [LMessage ''binary head''] else [])
                  else [])"
    by auto
  from send_logits_items[OF 6] obtain i6 where
    q6: "queue s6 = queue s5 @ i6"
    and l6: "map label_of i6 = (if a_test_logits args then [LMessage ''logits_check''] else [])"
    by auto
  let ?tail = "[QMessage (setitem fn ''name'' (PStr ''final norm''))] @ i4 @ i5 @ i6
               @ [QStr ''done'']"
  have qt: "queue st = queue s2 @ ?tail"
    using 7 q6 q5 q4 s3 by simp
  have tt: "total_layer_num st = total_layer_num s2"
    using 7 send_logits_Inr(3)[OF 6] send_bert_Inr(3)[OF 5] send_output_layer_Inr(3)[OF 4] s3
    by simp
  have ol: "md_output_layer md = m_untie_embeddings_and_output_weights (e_margs e)"
    using M(9) by (simp add: md make_md_def)
  have mt: "md_model_type md = a_model_type args" by (simp add: md make_md_def)
  have bh: "md_bert_binary_head md \<longleftrightarrow> m_bert_binary_head (e_margs e) = Some True"
    using M(8,16) by (auto simp: md make_md_def)
  have lt: "map label_of ?tail =
           [LMessage ''final norm'']
           @ (if m_untie_embeddings_and_output_weights (e_margs e)
              then [LMessage ''output layer''] else [])
           @ (if a_model_type args = ''BERT''
              then [LMessage ''pooler'', LMessage ''lm head'']
                   @ (if m_bert_binary_head (e_margs e) = Some True
                      then [LMessage ''binary head''] else [])
              else [])
           @ (if a_test_logits args then [LMessage ''logits_check''] else [])
           @ [LSentinel ''done'']"
    using l4 l5 l6 by (simp add: ol mt bh)
  show ?thesis
    using that[OF cm sc em _ a1 _ qt tt lt tp0 F(6)] q1 2 by (simp add: md)
qed

section \<open>The order of emission\<close>



section \<open>Layer names\<close>

lemma digit_value: "d < 10 \<Longrightarrow> of_char (digit d) - 48 = d"
proof -
  have "list_all (\<lambda>d. of_char (digit d) - 48 = d) [0..<10]"
    by code_simp
  then show "d < 10 \<Longrightarrow> of_char (digit d) - 48 = d"
    by (simp add: list_all_iff)
qed

lemma digits_value_str_nat: "digits_value (str_nat n) = n"
proof (induction n rule: str_nat.induct)
  case (1 n)
  show ?case
  proof (cases "n < 10")
    case True
    then show ?thesis by (simp add: str_nat.simps[of n] digits_value_def digit_value)
  next
    case False
    with 1 have "digits_value (str_nat (n div 10)) = n div 10" by simp
    then show ?thesis
      using False by (simp add: str_nat.simps[of n] digits_value_def digit_value)
  qed
qed

lemma inj_str_nat: "inj str_nat"
  by (rule inj_on_inverseI[where g = digits_value]) (rule digits_value_str_nat)

lemma inj_layer_name: "inj layer_name"
  using inj_str_nat by (auto simp: layer_name_def inj_def)

lemma distinct_layer_names: "distinct (map layer_name [a..<b])"
  by (simp add: distinct_map inj_on_subset[OF inj_layer_name])

lemma take_layer_name [simp]: "take 18 (layer_name i) = ''transformer layer ''"
  by (simp add: layer_name_def)

section \<open>Lists of equal blocks\<close>

lemma block_index: "i < m \<Longrightarrow> j < n \<Longrightarrow> i * n + j < m * (n::nat)"
proof -
  assume "i < m" "j < n"
  then have "i * n + j < Suc i * n" by simp
  also have "\<dots> \<le> m * n" using \<open>i < m\<close> by (intro mult_le_mono1) simp
  finally show ?thesis .
qed

lemma concat_blocks:
  assumes "\<forall>i < m. length (g i) = n"
  shows "length (concat (map g [0..<m])) = m * n
       \<and> (\<forall>i < m. \<forall>j < n. concat (map g [0..<m]) ! (i * n + j) = g i ! j)"
  using assms
proof (induction m)
  case 0
  show ?case by simp
next
  case (Suc m)
  then have len: "length (concat (map g [0..<m])) = m * n"
    and nth: "\<forall>i < m. \<forall>j < n. concat (map g [0..<m]) ! (i * n + j) = g i ! j"
    and gm: "length (g m) = n"
    by simp_all
  have "concat (map g [0..<Suc m]) ! (i * n + j) = g i ! j" if "i < Suc m" "j < n" for i j
  proof (cases "i < m")
    case True
    then have "i * n + j < m * n" using that(2) by (rule block_index)
    then show ?thesis using nth True that(2) len by (simp add: nth_append)
  next
    case False
    with that(1) have "i = m" by simp
    then show ?thesis using len that(2) by (simp add: nth_append)
  qed
  then show ?case using len gm by simp
qed

section \<open>The transformer-layer messages\<close>

text \<open>
  The runs that complete. Take one on a geometry of \<open>tp\<close> tensor-parallel ranks, \<open>pp\<close>
  pipeline stages and \<open>vp\<close> virtual-pipeline passes in which every stage of every pass
  holds \<open>lps\<close> layers and \<^verbatim>\<open>num_layers\<close> is \<open>vp * pp * lps\<close>. It emits exactly
  \<^verbatim>\<open>num_layers\<close> transformer-layer messages; their names carry the indices
  \<open>0, \<dots>, num_layers - 1\<close> in this order, all different; and the message built from
  local layer \<open>l\<close> of pipeline stage \<open>p\<close> in pass \<open>v\<close> is the one named with the index
  \<open>v * pp * lps + p * lps + l\<close>. With at least one layer these are runs of the dense
  variants only: under a mixture-of-experts schema no layer message can be built
  (\<open>moe_layer_message_fails\<close> below), so such a run does not complete.
\<close>

theorem layer_messages_contiguous:
  assumes run: "private_load_checkpoint e args [] = Inr st"
    and tp: "m_tensor_model_parallel_size (e_margs e) = Some tp"
    and pp: "m_pipeline_model_parallel_size (e_margs e) = Some pp" and pp0: "0 < pp"
    and vp: "vp = model_array_len (e_margs e)"
    and nl: "m_num_layers (e_margs e) = Some (vp * pp * lps)"
    and sch: "get_model_schema (a_model_type args) (a_loader_transformer_impl args)
                (m_num_experts (e_margs e)) (m_expert_model_parallel_size (e_margs e)) = Inr sch"
    and uni: "\<forall>p < pp. \<forall>v < vp. get_num_layers sch (sf_model (e_ckpt e p 0) v) = Inr lps"
  shows "total_layer_num st = vp * pp * lps
       \<and> filter is_layer_label (map label_of (queue st))
           = map (\<lambda>i. LMessage (layer_name i)) [0..<vp * pp * lps]
       \<and> distinct (map layer_name [0..<vp * pp * lps])
       \<and> (\<exists>md. queue st ! 0 = QMetadata md \<and> md_num_layers md = vp * pp * lps
            \<and> (\<forall>v < vp. \<forall>p < pp. \<forall>l < lps. \<exists>message.
                  layer_message sch md (md_norm_has_bias md) tp
                    (map (\<lambda>rank. sf_model (e_ckpt e p rank) v) [0..<tp]) l = Inr message
                \<and> queue st ! (2 + (v * pp * lps + p * lps + l))
                    = QMessage (setitem message ''name''
                                  (PStr (layer_name (v * pp * lps + p * lps + l))))))"
proof -
  from run tp obtain margs vs ct cv sch' emb s1 s2 tail where
    cm: "check_for_args ((e_margs e)\<lparr> m_use_legacy_models := False,
             m_transformer_impl := a_loader_transformer_impl args \<rparr>) = Some margs"
    and sc: "get_model_schema (a_model_type args) (m_transformer_impl margs)
           (m_num_experts margs) (m_expert_model_parallel_size margs) = Inr sch'"
    and q1: "queue s1 = [QMetadata ((make_md args margs (e_checkpoint_args e)
                                  (norm_has_bias_of (e_checkpoint_args e)) vs)
                                 \<lparr> md_consumed_train_samples := ct,
                                   md_consumed_valid_samples := cv \<rparr>),
                     QMessage (setitem emb ''name'' (PStr ''embeddings''))]"
    and a1: "all_models s1 = loaded_stages e margs tp 1"
    and sl: "send_layers (make_ctx e args margs
                        ((make_md args margs (e_checkpoint_args e)
                            (norm_has_bias_of (e_checkpoint_args e)) vs)
                           \<lparr> md_consumed_train_samples := ct,
                             md_consumed_valid_samples := cv \<rparr>) sch') s1 = Inr s2"
    and qt: "queue st = queue s2 @ tail"
    and tt: "total_layer_num st = total_layer_num s2"
    and lt: "map label_of tail =
           [LMessage ''final norm'']
           @ (if m_untie_embeddings_and_output_weights (e_margs e)
              then [LMessage ''output layer''] else [])
           @ (if a_model_type args = ''BERT''
              then [LMessage ''pooler'', LMessage ''lm head'']
                   @ (if m_bert_binary_head (e_margs e) = Some True
                      then [LMessage ''binary head''] else [])
              else [])
           @ (if a_test_logits args then [LMessage ''logits_check''] else [])
           @ [LSentinel ''done'']"
    and tp0: "0 < tp" and mal: "0 < model_array_len margs"
    by (rule completed_run)
  note M = check_for_args_Some[OF cm]
  define md where "md = (make_md args margs (e_checkpoint_args e)
                                  (norm_has_bias_of (e_checkpoint_args e)) vs)
                                 \<lparr> md_consumed_train_samples := ct,
                                   md_consumed_valid_samples := cv \<rparr>"
  define c where "c = make_ctx e args margs md sch"
  have same_sch: "sch' = sch" using sc sch M(4,5,10) by simp
  have tpm: "the (m_tensor_model_parallel_size margs) = tp" using M(1) tp by simp
  have ppm: "the (m_pipeline_model_parallel_size margs) = pp" using M(2) pp by simp
  have vpm: "model_array_len margs = vp" using M(11) vp by simp
  have cs: "c_env c = e" "c_margs c = margs" "c_schema c = sch" "c_md c = md"
    "c_tp_size c = tp" "c_pp_size c = pp" "c_norm_has_bias c = md_norm_has_bias md"
    by (simp_all add: c_def tpm ppm)
  define item where "item v p l = layer_item sch md (md_norm_has_bias md) tp
                       (stage_models e margs tp p ! v) l (v * (pp * lps) + p * lps + l)"
    for v p l
  define stage where "stage v p = map (item v p) [0..<lps]" for v p
  define pass where "pass v = concat (map (stage v) [0..<pp])" for v
  define L where "L = concat (map pass [0..<vp])"
  have r: "for_each (send_pass c) [0..<model_array_len (c_margs c)]
             (s1\<lparr>total_layer_num := 0\<rparr>) = Inr s2"
    using sl by (simp add: send_layers_def c_def md_def same_sch)
  have am: "all_models (s1\<lparr>total_layer_num := 0\<rparr>)
              = loaded_stages (c_env c) (c_margs c) (c_tp_size c) 1"
    using a1 by (simp add: cs)
  have uni': "\<forall>p < c_pp_size c. \<forall>v < model_array_len (c_margs c).
                get_num_layers (c_schema c) (sf_model (e_ckpt (c_env c) p 0) v) = Inr lps"
    using uni by (simp add: cs vpm)
  have pp': "0 < c_pp_size c" and tp': "0 < c_tp_size c" using pp0 tp0 by (simp_all add: cs)
  have Leq: "L = concat (map (\<lambda>v. concat (map (\<lambda>p. map (\<lambda>l.
                   layer_item sch md (md_norm_has_bias md) tp (stage_models e margs tp p ! v) l
                     (v * (pp * lps) + p * lps + l)) [0..<lps]) [0..<pp])) [0..<vp])"
    unfolding L_def pass_def[abs_def] stage_def[abs_def] item_def[abs_def] ..
  from passes_Inr[OF r order_refl am pp' tp' uni']
  have q2: "queue s2 = queue s1 @ L"
    and t2: "total_layer_num s2 = vp * (pp * lps)"
    and ok: "\<forall>v < vp. \<forall>p < pp. \<forall>l < lps. \<exists>message.
               layer_message sch md (md_norm_has_bias md) tp (stage_models e margs tp p ! v) l
                 = Inr message"
    by (simp_all add: cs vpm Leq)
  have total: "total_layer_num st = vp * pp * lps" using tt t2 by (simp add: mult.assoc)
  text \<open>The labels.\<close>
  from send_layers_emits[of _ s1] sl obtain layers where
    q2': "queue s2 = queue s1 @ layers"
    and ll: "map label_of layers = map (\<lambda>i. LMessage (layer_name i)) [0..<total_layer_num s2]"
    by (metis final_state_simps(2))
  have lL: "map label_of L = map (\<lambda>i. LMessage (layer_name i)) [0..<vp * pp * lps]"
    using q2 q2' ll t2 by (simp add: mult.assoc)
  have q: "queue st = queue s1 @ L @ tail" using qt q2 by simp
  have f1: "filter is_layer_label (map label_of (queue s1)) = []" by (simp add: q1)
  have f2: "filter is_layer_label (map label_of L) = map label_of L"
    unfolding lL by (rule filter_True) auto
  have f3: "filter is_layer_label (map label_of tail) = []" by (simp add: lt)
  have filt: "filter is_layer_label (map label_of (queue st))
                = map (\<lambda>i. LMessage (layer_name i)) [0..<vp * pp * lps]"
    using f1 f2 f3 by (simp add: q lL)
  text \<open>The message at each coordinate.\<close>
  have len_stage: "length (stage v p) = lps" for v p by (simp add: stage_def)
  have pass_blocks: "length (pass v) = pp * lps
       \<and> (\<forall>p < pp. \<forall>l < lps. pass v ! (p * lps + l) = stage v p ! l)" for v
    unfolding pass_def by (rule concat_blocks) (simp add: len_stage)
  have L_blocks: "length L = vp * (pp * lps)
       \<and> (\<forall>v < vp. \<forall>j < pp * lps. L ! (v * (pp * lps) + j) = pass v ! j)"
    unfolding L_def by (rule concat_blocks) (simp add: pass_blocks)
  have at: "queue st ! (2 + (v * pp * lps + p * lps + l)) = item v p l"
    if "v < vp" "p < pp" "l < lps" for v p l
  proof -
    have j: "p * lps + l < pp * lps" using that(2,3) by (rule block_index)
    have i: "v * (pp * lps) + (p * lps + l) < vp * (pp * lps)" using that(1) j by (rule block_index)
    have "L ! (v * (pp * lps) + (p * lps + l)) = pass v ! (p * lps + l)"
      using L_blocks that(1) j by blast
    also have "\<dots> = stage v p ! l" using pass_blocks that(2,3) by blast
    also have "\<dots> = item v p l" using that(3) by (simp add: stage_def)
    finally have "L ! (v * (pp * lps) + (p * lps + l)) = item v p l" .
    moreover have "queue st ! (2 + (v * (pp * lps) + (p * lps + l)))
                     = L ! (v * (pp * lps) + (p * lps + l))"
      using i L_blocks by (simp add: q q1 nth_append)
    ultimately show ?thesis by (simp add: mult.assoc add.assoc)
  qed
  have sm: "stage_models e margs tp p ! v = map (\<lambda>rank. sf_model (e_ckpt e p rank) v) [0..<tp]"
    if "v < vp" for p v
    using that vpm by (simp add: stage_models_nth')
  have coord: "\<exists>message.
                  layer_message sch md (md_norm_has_bias md) tp
                    (map (\<lambda>rank. sf_model (e_ckpt e p rank) v) [0..<tp]) l = Inr message
                \<and> queue st ! (2 + (v * pp * lps + p * lps + l))
                    = QMessage (setitem message ''name''
                                  (PStr (layer_name (v * pp * lps + p * lps + l))))"
    if "v < vp" "p < pp" "l < lps" for v p l
  proof -
    from ok that obtain message where
      m: "layer_message sch md (md_norm_has_bias md) tp (stage_models e margs tp p ! v) l
            = Inr message"
      by blast
    have "item v p l = QMessage (setitem message ''name''
                                  (PStr (layer_name (v * pp * lps + p * lps + l))))"
      by (simp add: item_def layer_item_def m mult.assoc)
    with at[OF that] m sm[OF that(1)] show ?thesis by auto
  qed
  have md0: "queue st ! 0 = QMetadata md" by (simp add: q q1 md_def)
  have mdn: "md_num_layers md = vp * pp * lps"
    using M(6) nl by (simp add: md_def make_md_def)
  show ?thesis
    using total filt distinct_layer_names md0 mdn coord by blast
qed

theorem layer_messages_contiguous_witness:
  "private_load_checkpoint ex_env ex_args []
     = Inr (projr (private_load_checkpoint ex_env ex_args []))
   \<and> m_tensor_model_parallel_size (e_margs ex_env) = Some 2
   \<and> m_pipeline_model_parallel_size (e_margs ex_env) = Some 2
   \<and> model_array_len (e_margs ex_env) = 1
   \<and> m_num_layers (e_margs ex_env) = Some 2
   \<and> total_layer_num (projr (private_load_checkpoint ex_env ex_args [])) = 2
   \<and> filter is_layer_label
         (map label_of (queue (projr (private_load_checkpoint ex_env ex_args []))))
       = [LMessage (layer_name 0), LMessage (layer_name 1)]
   \<and> (\<exists>md message.
         queue (projr (private_load_checkpoint ex_env ex_args [])) ! 0 = QMetadata md
       \<and> layer_message gpt_schema md (md_norm_has_bias md) 2
             [sf_model (e_ckpt ex_env 1 0) 0, sf_model (e_ckpt ex_env 1 1) 0] 0 = Inr message
       \<and> queue (projr (private_load_checkpoint ex_env ex_args [])) ! 3
           = QMessage (setitem message ''name'' (PStr (layer_name 1))))"
proof -
  let ?st = "projr (private_load_checkpoint ex_env ex_args [])"
  have ok: "(case private_load_checkpoint ex_env ex_args [] of Inl a \<Rightarrow> False | Inr b \<Rightarrow> True)"
    by code_simp
  have run: "private_load_checkpoint ex_env ex_args [] = Inr ?st"
    using ok by (rule Inr_projr)
  have tp: "m_tensor_model_parallel_size (e_margs ex_env) = Some 2"
    and pp: "m_pipeline_model_parallel_size (e_margs ex_env) = Some 2"
    and vp1: "model_array_len (e_margs ex_env) = 1"
    and nl2: "m_num_layers (e_margs ex_env) = Some 2"
    by code_simp+
  have pp0: "(0::nat) < 2" by simp
  have vp: "(1::nat) = model_array_len (e_margs ex_env)" using vp1 by simp
  have nl: "m_num_layers (e_margs ex_env) = Some (1 * 2 * 1)" using nl2 by simp
  have sch: "get_model_schema (a_model_type ex_args) (a_loader_transformer_impl ex_args)
                (m_num_experts (e_margs ex_env)) (m_expert_model_parallel_size (e_margs ex_env))
               = Inr gpt_schema"
    by code_simp
  have uni: "\<forall>p < 2. \<forall>v < 1. get_num_layers gpt_schema (sf_model (e_ckpt ex_env p 0) v) = Inr 1"
    by (simp add: ex_env_def ex_shard_def ex_model_def gpt_schema_def CoreTESchema_def
        CoreSchema_def get_core_transformer_block_key_def get_num_layers_def get_layers_def)
  note T = layer_messages_contiguous [OF run tp pp pp0 vp nl sch uni]
  from T obtain md where
    md: "queue ?st ! 0 = QMetadata md"
    and all: "\<forall>v < 1. \<forall>p < 2. \<forall>l < 1. \<exists>message.
                  layer_message gpt_schema md (md_norm_has_bias md) 2
                    (map (\<lambda>rank. sf_model (e_ckpt ex_env p rank) v) [0..<2]) l = Inr message
                \<and> queue ?st ! (2 + (v * 2 * 1 + p * 1 + l))
                    = QMessage (setitem message ''name''
                                  (PStr (layer_name (v * 2 * 1 + p * 1 + l))))"
    by blast
  from all have "\<exists>message.
                  layer_message gpt_schema md (md_norm_has_bias md) 2
                    (map (\<lambda>rank. sf_model (e_ckpt ex_env 1 rank) 0) [0..<2]) 0 = Inr message
                \<and> queue ?st ! (2 + (0 * 2 * 1 + 1 * 1 + 0))
                    = QMessage (setitem message ''name''
                                  (PStr (layer_name (0 * 2 * 1 + 1 * 1 + 0))))"
    by (metis less_numeral_extra(1) one_less_numeral_iff semiring_norm(76))
  then obtain message where
    "layer_message gpt_schema md (md_norm_has_bias md) 2
        [sf_model (e_ckpt ex_env 1 0) 0, sf_model (e_ckpt ex_env 1 1) 0] 0 = Inr message"
    "queue ?st ! 3 = QMessage (setitem message ''name'' (PStr (layer_name 1)))"
    by (auto simp: upt_rec numeral_3_eq_3)
  with md have E: "\<exists>md message.
         queue ?st ! 0 = QMetadata md
       \<and> layer_message gpt_schema md (md_norm_has_bias md) 2
             [sf_model (e_ckpt ex_env 1 0) 0, sf_model (e_ckpt ex_env 1 1) 0] 0 = Inr message
       \<and> queue ?st ! 3 = QMessage (setitem message ''name'' (PStr (layer_name 1)))"
    by blast
  have u: "[0..<2] = [0, Suc 0]" by (simp add: upt_rec)
  from T have "total_layer_num ?st = 2"
    and "filter is_layer_label (map label_of (queue ?st))
           = [LMessage (layer_name 0), LMessage (layer_name 1)]"
    by (simp_all add: u)
  with run tp pp vp1 nl2 E show ?thesis by simp
qed

section \<open>Which errors the steps raise\<close>

lemma only_exceptions_simps [simp]:
  "only_exceptions (Inr x)"
  "only_exceptions (Inl err) = is_Exception err"
  by (simp_all add: only_exceptions_def)

lemma only_exceptions_bind:
  "only_exceptions m \<Longrightarrow> (\<And>x. only_exceptions (f x)) \<Longrightarrow> only_exceptions (bind_err m f)"
  by (cases m) simp_all

lemma only_exceptions_if:
  "only_exceptions a \<Longrightarrow> only_exceptions b \<Longrightarrow> only_exceptions (if c then a else b)"
  by simp

lemma only_exceptions_map_err:
  "(\<And>x. only_exceptions (f x)) \<Longrightarrow> only_exceptions (map_err f xs)"
  by (induction xs) (simp_all add: only_exceptions_bind)

lemma only_exceptions_getitem [simp]: "only_exceptions (getitem d k)"
  by (simp add: getitem_def split: option.splits)

lemma only_exceptions_list_index [simp]: "only_exceptions (list_index xs i)"
  by (simp add: list_index_def)

lemma only_exceptions_subscript [simp]: "only_exceptions (subscript w i)"
  by (cases "(w, i)" rule: subscript.cases) (simp_all add: only_exceptions_bind)

lemma only_exceptions_torch_cat0 [simp]: "only_exceptions (torch_cat0 ts)"
  by (simp add: torch_cat0_def)

lemma only_exceptions_torch_cat1 [simp]: "only_exceptions (torch_cat1 ts)"
  by (simp add: torch_cat1_def)

lemma only_exceptions_torch_chunk [simp]: "only_exceptions (torch_chunk w)"
  by (cases w rule: torch_chunk.cases) simp_all

lemma only_exceptions_cpu [simp]: "only_exceptions (cpu w)"
  by (cases w rule: cpu.cases) simp_all

lemma only_exceptions_chunk_ranks [simp]: "only_exceptions (chunk_ranks rs ws)"
  by (induction rs arbitrary: ws) (simp_all add: only_exceptions_bind)

lemma only_exceptions_swiglu_merge [simp]: "only_exceptions (swiglu_merge tp ws kW kV message)"
  unfolding swiglu_merge_def
  by (intro only_exceptions_bind only_exceptions_map_err) simp_all

lemma only_exceptions_cat_field [simp]:
  "(\<And>ts. only_exceptions (cat ts)) \<Longrightarrow> only_exceptions (cat_field cat ts label message)"
  unfolding cat_field_def by (intro only_exceptions_bind) simp_all

lemma only_exceptions_get_layers [simp]: "only_exceptions (get_layers sch m)"
  by (simp add: get_layers_def split: option.splits)

lemma only_exceptions_get_num_layers [simp]: "only_exceptions (get_num_layers sch m)"
  unfolding get_num_layers_def by (intro only_exceptions_bind) simp_all

lemma only_exceptions_get_layer [simp]: "only_exceptions (get_layer sch m i)"
  unfolding get_layer_def by (intro only_exceptions_bind) simp_all

lemma only_exceptions_schema_get [simp]: "only_exceptions (schema_get sch key m)"
  unfolding schema_get_def by (intro only_exceptions_bind) (simp_all add: schema_section_def)

lemma only_exceptions_replicated_fields [simp]:
  "only_exceptions (replicated_fields nb lb layer)"
  unfolding replicated_fields_def norm_bias_fields_def linear_bias_fields_def
    qk_norm_fields_def xielu_field_def
  by (intro only_exceptions_bind only_exceptions_if) simp_all

lemma only_exceptions_grab_parallel [simp]:
  "only_exceptions (grab_parallel sch md layer_num ms pt)"
proof (induction ms arbitrary: pt)
  case Nil
  show ?case by simp
next
  case (Cons m ms)
  show ?case
    unfolding grab_parallel.simps
    by (intro only_exceptions_bind only_exceptions_if Cons) simp_all
qed

lemma only_exceptions_merge_parallel [simp]:
  "only_exceptions (merge_parallel md tp pt message)"
  unfolding merge_parallel_def
  by (intro only_exceptions_bind only_exceptions_if only_exceptions_cat_field) simp_all

lemma only_exceptions_layer_message [simp]:
  "only_exceptions (layer_message sch md nb tp ms l)"
  unfolding layer_message_def by (intro only_exceptions_bind) simp_all

lemma only_exceptions_embeddings_message [simp]:
  "only_exceptions (embeddings_message sch pet ms)"
  unfolding embeddings_message_def
  by (intro only_exceptions_bind only_exceptions_map_err only_exceptions_if) simp_all

lemma only_exceptions_CoreSchema [simp]: "only_exceptions (CoreSchema mt ls)"
  unfolding CoreSchema_def
  by (intro only_exceptions_bind) (simp_all add: get_core_transformer_block_key_def)

lemma only_exceptions_get_model_schema [simp]:
  "only_exceptions (get_model_schema mt ti ne ep)"
  by (simp add: get_model_schema_def CoreLocalSchema_def CoreTESchema_def CoreMoETESchema_def
      split: option.splits)

lemma only_exceptions_get_models [simp]: "only_exceptions (get_models e margs tp st)"
  by (cases "get_models e margs tp st") (auto dest: get_models_Inl)

lemma only_exceptionsD: "only_exceptions m \<Longrightarrow> m = Inl err \<Longrightarrow> is_Exception err"
  by simp


section \<open>Where a walk can fail\<close>

lemma for_each_Inl_error:
  assumes "for_each body xs st = Inl (err, s')"
    and "\<And>x s s1. body x s = Inl (err, s1) \<Longrightarrow> P"
  shows P
  using for_each_Inl[OF assms(1)] assms(2) by blast

lemma for_each_Inr_mem:
  assumes "for_each body xs st = Inr st'" and "x \<in> set xs"
  shows "\<exists>s s1. body x s = Inr s1"
  using assms
proof (induction xs arbitrary: st)
  case Nil
  then show ?case by simp
next
  case (Cons y ys)
  from Cons.prems(1) obtain s1 where s1: "body y st = Inr s1" "for_each body ys s1 = Inr st'"
    by (auto simp: bind_err_Inr_iff)
  show ?case
  proof (cases "x = y")
    case True
    with s1(1) show ?thesis by blast
  next
    case False
    with Cons.prems(2) have "x \<in> set ys" by simp
    from Cons.IH[OF s1(2) this] show ?thesis .
  qed
qed

lemma upt_split:
  assumes "[0..<n] = ys @ x # zs"
  shows "ys = [0..<x]" and "x < n"
proof -
  have len: "length ys < n" using arg_cong[OF assms, of length] by simp
  have "[0..<n] ! length ys = x" using assms by (simp add: nth_append)
  with len have x: "x = length ys" by simp
  have "take (length ys) [0..<n] = ys" using assms by simp
  with len show "ys = [0..<x]" by (simp add: x take_upt)
  show "x < n" using len x by simp
qed

lemma send_layer_Inl:
  assumes "send_layer c l st = Inl (err, s')"
  shows "is_Exception err" and "s' = st"
proof -
  from assms have m: "layer_message (c_schema c) (c_md c) (c_norm_has_bias c) (c_tp_size c)
                     (models st) l = Inl err" and "s' = st"
    by (auto simp: send_layer_def bind_err_Inl_iff)
  then show "s' = st" by simp
  from m show "is_Exception err" by (rule only_exceptionsD[rotated]) simp
qed

lemma layer_loop_Inl:
  assumes "for_each (send_layer c) [0..<n] st = Inl (err, s')"
  shows "is_Exception err" and "total_layer_num s' < total_layer_num st + n"
proof -
  from for_each_Inl[OF assms] obtain ys x zs s1 where
    sp: "[0..<n] = ys @ x # zs" and ok: "for_each (send_layer c) ys st = Inr s1"
    and f: "send_layer c x s1 = Inl (err, s')"
    by blast
  note U = upt_split[OF sp]
  from ok U(1) have "for_each (send_layer c) [0..<x] st = Inr s1" by simp
  from layer_loop_Inr[OF this] have "total_layer_num s1 = total_layer_num st + x" by simp
  with send_layer_Inl[OF f] U(2) show "is_Exception err"
    and "total_layer_num s' < total_layer_num st + n"
    by simp_all
qed

lemma load_stage_Inl:
  assumes "load_stage c v p st = Inl (err, s')"
  shows "err = AssertionError" and "total_layer_num s' = total_layer_num st"
  using assms
  by (auto simp: load_stage_def bind_err_Inl_iff split: if_splits dest: get_models_Inl)

lemma send_stage_Inl:
  assumes run: "send_stage c v p st = Inl (err, s')"
    and am: "all_models st = loaded_stages (c_env c) (c_margs c) (c_tp_size c)
                               (if v = 0 then max 1 p else pp)"
    and p: "p < pp" and v: "v < model_array_len (c_margs c)" and tp: "0 < c_tp_size c"
  shows "is_Exception err"
    and "total_layer_num s' \<le> total_layer_num st + stage_layers (c_schema c) (c_env c) p v"
    and "\<forall>s. load_stage c v p st \<noteq> Inr s \<Longrightarrow> total_layer_num s' = total_layer_num st"
proof -
  let ?e = "c_env c" and ?m = "c_margs c" and ?tp = "c_tp_size c"
  let ?k = "if v = 0 then Suc p else pp"
  have "is_Exception err
      \<and> total_layer_num s' \<le> total_layer_num st + stage_layers (c_schema c) (c_env c) p v
      \<and> ((\<forall>s. load_stage c v p st \<noteq> Inr s) \<longrightarrow> total_layer_num s' = total_layer_num st)"
  proof (cases "load_stage c v p st")
    case (Inl a)
    with run have a: "a = (err, s')" by (simp add: send_stage_def)
    from load_stage_Inl[OF Inl[unfolded a]] show ?thesis by simp
  next
    case (Inr st1)
    note L = load_stage_Inr[OF Inr]
    have am1: "all_models st1 = loaded_stages ?e ?m ?tp ?k"
    proof (cases "v = 0")
      case True
      show ?thesis
      proof (cases "p = 0")
        case True
        with \<open>v = 0\<close> L(5) am show ?thesis by simp
      next
        case False
        with \<open>v = 0\<close> L(5) am show ?thesis by (simp add: loaded_stages_Suc max_def)
      qed
    next
      case False
      with L(5) am show ?thesis by simp
    qed
    have pk: "p < ?k" using p by simp
    let ?ms = "stage_models ?e ?m ?tp p ! v"
    have ix: "bind_err (list_index (all_models st1) p) (\<lambda>stage. list_index stage v) = Inr ?ms"
      using v by (simp add: am1 loaded_stages_nth[OF pk] stage_models_nth stage_models_nth')
    have m0: "list_index ?ms 0 = Inr (sf_model (e_ckpt ?e p 0) v)"
      using tp v by (simp add: stage_models_nth' list_index_def)
    from run have run': "bind_err (raise_at (st1\<lparr>models := ?ms\<rparr>)
                 (get_num_layers (c_schema c) (sf_model (e_ckpt ?e p 0) v)))
              (\<lambda>n. for_each (send_layer c) [0..<n] (st1\<lparr>models := ?ms\<rparr>)) = Inl (err, s')"
      by (simp add: send_stage_def Inr ix m0)
    show ?thesis
    proof (cases "get_num_layers (c_schema c) (sf_model (e_ckpt ?e p 0) v)")
      case (Inl a)
      with run' have "err = a" "s' = st1\<lparr>models := ?ms\<rparr>" by simp_all
      moreover have "is_Exception a" using Inl by (rule only_exceptionsD[rotated]) simp
      ultimately show ?thesis using L(2) Inr by simp
    next
      case n: (Inr n)
      with run' have "for_each (send_layer c) [0..<n] (st1\<lparr>models := ?ms\<rparr>) = Inl (err, s')"
        by simp
      from layer_loop_Inl[OF this] have "is_Exception err"
        "total_layer_num s' < total_layer_num st1 + n"
        by simp_all
      moreover have "stage_layers (c_schema c) (c_env c) p v = n"
        by (simp add: stage_layers_def n)
      ultimately show ?thesis using L(2) Inr by simp
    qed
  qed
  then show "is_Exception err"
    and "total_layer_num s' \<le> total_layer_num st + stage_layers (c_schema c) (c_env c) p v"
    and "\<forall>s. load_stage c v p st \<noteq> Inr s \<Longrightarrow> total_layer_num s' = total_layer_num st"
    by simp_all
qed


section \<open>A stage whose shards disagree\<close>

lemma sum_list_upt_mono:
  "a \<le> b \<Longrightarrow> sum_list (map f [0..<a]) \<le> sum_list (map (f :: nat \<Rightarrow> nat) [0..<b])"
proof (induction b)
  case 0
  then show ?case by simp
next
  case (Suc b)
  then show ?case by (cases "a = Suc b") auto
qed

lemma bad_load_stage:
  assumes "0 < p" and "r1 < c_tp_size c" and "r2 < c_tp_size c"
    and "sf_consumed_train_samples (e_ckpt (c_env c) p r1)
           \<noteq> sf_consumed_train_samples (e_ckpt (c_env c) p r2)
         \<or> sf_consumed_valid_samples (e_ckpt (c_env c) p r1)
           \<noteq> sf_consumed_valid_samples (e_ckpt (c_env c) p r2)"
  shows "load_stage c 0 p st = Inl (AssertionError, st\<lparr>pipeline_rank := p\<rparr>)"
proof -
  have "get_models (c_env c) (c_margs c) (c_tp_size c) (st\<lparr>pipeline_rank := p\<rparr>)
          = Inl AssertionError"
    by (rule get_models_mismatch[OF assms(2,3)]) (use assms(4) in simp)
  with assms(1) show ?thesis by (simp add: load_stage_def)
qed

lemma bad_pass:
  assumes bad: "0 < p" "r1 < c_tp_size c" "r2 < c_tp_size c"
      "sf_consumed_train_samples (e_ckpt (c_env c) p r1)
           \<noteq> sf_consumed_train_samples (e_ckpt (c_env c) p r2)
         \<or> sf_consumed_valid_samples (e_ckpt (c_env c) p r1)
           \<noteq> sf_consumed_valid_samples (e_ckpt (c_env c) p r2)"
    and p: "p < c_pp_size c"
    and am: "all_models st = loaded_stages (c_env c) (c_margs c) (c_tp_size c) 1"
    and v: "0 < model_array_len (c_margs c)" and tp: "0 < c_tp_size c"
  shows "\<exists>err s'. send_pass c 0 st = Inl (err, s') \<and> is_Exception err
           \<and> total_layer_num s'
               \<le> total_layer_num st
                  + sum_list (map (\<lambda>p'. stage_layers (c_schema c) (c_env c) p' 0) [0..<p])"
proof (cases "send_pass c 0 st")
  case (Inr s)
  then have "for_each (send_stage c 0) [0..<c_pp_size c] st = Inr s" by (simp add: send_pass_def)
  from for_each_Inr_mem[OF this, of p] p obtain s0 s1 where "send_stage c 0 p s0 = Inr s1"
    by auto
  then have "\<exists>s2. load_stage c 0 p s0 = Inr s2"
    by (auto simp: send_stage_def bind_err_Inr_iff)
  with bad_load_stage[OF bad] show ?thesis by simp
next
  case (Inl a)
  obtain err s' where a: "a = (err, s')" by (cases a)
  from Inl a have f: "for_each (send_stage c 0) [0..<c_pp_size c] st = Inl (err, s')"
    by (simp add: send_pass_def)
  from for_each_Inl[OF f] obtain ys x zs s1 where
    sp: "[0..<c_pp_size c] = ys @ x # zs"
    and ok: "for_each (send_stage c 0) ys st = Inr s1"
    and fl: "send_stage c 0 x s1 = Inl (err, s')"
    by blast
  note U = upt_split[OF sp]
  have xp: "x \<le> p"
  proof (rule ccontr)
    assume "\<not> x \<le> p"
    then have "p \<in> set ys" using U(1) by simp
    from for_each_Inr_mem[OF ok this] obtain s0 s2 where "send_stage c 0 p s0 = Inr s2" by blast
    then have "\<exists>s3. load_stage c 0 p s0 = Inr s3"
      by (auto simp: send_stage_def bind_err_Inr_iff)
    with bad_load_stage[OF bad] show False by simp
  qed
  have ok': "for_each (send_stage c 0) [0..<x] st = Inr s1" using ok U(1) by simp
  have am0: "all_models st = loaded_stages (c_env c) (c_margs c) (c_tp_size c)
                               (if (0::nat) = 0 then 1 else c_pp_size c)"
    using am by simp
  from stage_frame[OF ok' less_imp_le[OF U(2)] am0 v tp]
  have a1: "all_models s1 = loaded_stages (c_env c) (c_margs c) (c_tp_size c)
                               (if (0::nat) = 0 then max 1 x else c_pp_size c)"
    and t1: "total_layer_num s1
               = total_layer_num st
                 + sum_list (map (\<lambda>p'. stage_layers (c_schema c) (c_env c) p' 0) [0..<x])"
    by simp_all
  note S = send_stage_Inl[OF fl a1 U(2) v tp]
  have "total_layer_num s'
          \<le> total_layer_num st
             + sum_list (map (\<lambda>p'. stage_layers (c_schema c) (c_env c) p' 0) [0..<p])"
  proof (cases "x = p")
    case True
    have "\<forall>s. load_stage c 0 x s1 \<noteq> Inr s" using bad_load_stage[OF bad, of s1] True by simp
    from S(3)[OF this] t1 True show ?thesis by simp
  next
    case False
    with xp have "Suc x \<le> p" by simp
    from sum_list_upt_mono[OF this, of "\<lambda>p'. stage_layers (c_schema c) (c_env c) p' 0"]
      S(2) t1 show ?thesis by simp
  qed
  with Inl a S(1) show ?thesis by simp
qed

lemma bad_walk:
  assumes bad: "0 < p" "r1 < c_tp_size c" "r2 < c_tp_size c"
      "sf_consumed_train_samples (e_ckpt (c_env c) p r1)
           \<noteq> sf_consumed_train_samples (e_ckpt (c_env c) p r2)
         \<or> sf_consumed_valid_samples (e_ckpt (c_env c) p r1)
           \<noteq> sf_consumed_valid_samples (e_ckpt (c_env c) p r2)"
    and p: "p < c_pp_size c"
    and am: "all_models st = loaded_stages (c_env c) (c_margs c) (c_tp_size c) 1"
    and vp: "c_vp_size c = model_array_len (c_margs c)"
    and v: "0 < model_array_len (c_margs c)" and tp: "0 < c_tp_size c"
    and nd: "QStr ''done'' \<notin> set (queue st)" and lc: "layer_count (queue st) = 0"
  shows "fatal (sum_list (map (\<lambda>p'. stage_layers (c_schema c) (c_env c) p' 0) [0..<p]))
           (send_layers c st)"
proof -
  let ?st0 = "st\<lparr>total_layer_num := 0\<rparr>"
  have am0: "all_models ?st0 = loaded_stages (c_env c) (c_margs c) (c_tp_size c) 1"
    using am by simp
  from bad_pass[OF bad p am0 v tp] obtain err s' where
    f: "send_pass c 0 ?st0 = Inl (err, s')" and ex: "is_Exception err"
    and t: "total_layer_num s'
              \<le> sum_list (map (\<lambda>p'. stage_layers (c_schema c) (c_env c) p' 0) [0..<p])"
    by auto
  have u: "[0..<model_array_len (c_margs c)] = 0 # [1..<model_array_len (c_margs c)]"
    using v by (simp add: upt_conv_Cons)
  have r: "send_layers c st = Inl (err, s')"
    by (simp add: send_layers_def vp u f)
  from send_layers_emits[of c st] obtain items where
    q: "queue s' = queue st @ items"
    and l: "map label_of items = map (\<lambda>i. LMessage (layer_name i)) [0..<total_layer_num s']"
    by (auto simp: r)
  have nd': "QStr ''done'' \<notin> set items"
  proof
    assume "QStr ''done'' \<in> set items"
    then have "label_of (QStr ''done'') \<in> label_of ` set items" by (rule imageI)
    then have "LSentinel ''done'' \<in> set (map label_of items)" by simp
    then show False unfolding l by auto
  qed
  have "filter is_layer_label (map label_of items) = map label_of items"
    unfolding l by (rule filter_True) auto
  then have "layer_count items = total_layer_num s'"
    by (simp add: layer_count_def l)
  then have "layer_count (queue s') = total_layer_num s'"
    using lc by (simp add: q layer_count_def)
  with t ex nd nd' show ?thesis by (simp add: fatal_def r q)
qed


lemma first_stage_Inl:
  assumes "first_stage e margs tp st = Inl (err, s')"
  shows "is_Exception err" and "queue s' = queue st"
proof -
  have "is_Exception err \<and> queue s' = queue st"
  proof (cases "get_models e margs tp (st\<lparr>pipeline_rank := 0\<rparr>)")
    case (Inl a)
    from assms Inl have "err = a" and "s' = st\<lparr>pipeline_rank := 0\<rparr>"
      by (auto simp: first_stage_def)
    with get_models_Inl[OF Inl] show ?thesis by simp
  next
    case (Inr r)
    obtain ms st' where r: "r = (ms, st')" by (cases r)
    from get_models_Inr(2)[OF Inr[unfolded r]]
    have "st' = st\<lparr> pipeline_rank := 0,
                consumed_train_samples := consumed_train_samples st',
                consumed_valid_samples := consumed_valid_samples st' \<rparr>"
      by simp
    then have "queue st' = queue (st\<lparr> pipeline_rank := 0,
                consumed_train_samples := consumed_train_samples st',
                consumed_valid_samples := consumed_valid_samples st' \<rparr>)"
      by (rule arg_cong)
    then have q: "queue st' = queue st" by simp
    from assms Inr r have "list_index ms 0 = Inl err" "s' = st'\<lparr>all_models := [ms]\<rparr>"
      by (auto simp: first_stage_def bind_err_Inl_iff)
    with q show ?thesis by (auto simp: list_index_def split: if_splits)
  qed
  then show "is_Exception err" and "queue s' = queue st" by simp_all
qed

lemma send_embeddings_Inl:
  assumes "send_embeddings c st = Inl (err, s')"
  shows "is_Exception err" and "s' = st"
proof -
  from assms have m: "embeddings_message (c_schema c) (md_position_embedding_type (c_md c))
                        (models st) = Inl err" and "s' = st"
    by (auto simp: send_embeddings_def bind_err_Inl_iff)
  then show "s' = st" by simp
  from m show "is_Exception err" by (rule only_exceptionsD[rotated]) simp
qed

lemma layer_count_simps [simp]:
  "layer_count [] = 0"
  "layer_count [QStr s] = 0"
  "layer_count [QMetadata md] = 0"
  "layer_count (q @ [QStr s]) = layer_count q"
  "layer_count (q @ [QMetadata md]) = layer_count q"
  "layer_count (q @ [QMessage (setitem msg ''name'' (PStr ''embeddings''))]) = layer_count q"
  by (simp_all add: layer_count_def)

lemma fatal_load_checkpoint:
  assumes "fatal bound (private_load_checkpoint e args q)"
  shows "\<exists>err q'. load_checkpoint e args q = (Inl err, q')
           \<and> last q' = QStr ''exit'' \<and> QStr ''done'' \<notin> set q' \<and> layer_count q' \<le> bound"
proof (cases "private_load_checkpoint e args q")
  case (Inr s)
  with assms show ?thesis by (simp add: fatal_def)
next
  case (Inl a)
  obtain err st where a: "a = (err, st)" by (cases a)
  from assms Inl a have
    f: "is_Exception err \<or> (queue st \<noteq> [] \<and> last (queue st) = QStr ''exit'')"
      "QStr ''done'' \<notin> set (queue st)" "layer_count (queue st) \<le> bound"
    by (simp_all add: fatal_def)
  show ?thesis
    using f Inl a by (cases "is_Exception err") (auto simp: load_checkpoint_def)
qed

section \<open>Disagreeing consumed-sample counters\<close>

text \<open>
  C4: let two tensor-parallel shards of pipeline stage \<open>p\<close> report different
  consumed-train-sample or consumed-valid-sample counters. Then loading that stage
  fails its assertion, from whatever state \<^verbatim>\<open>get_models\<close> is called; and every run
  ends with an error and with \<^verbatim>\<open>"exit"\<close> as the last item of the queue, which never
  holds \<^verbatim>\<open>"done"\<close> and holds no transformer-layer message of stage \<open>p\<close> or of a later
  stage: at most the layers of the stages before \<open>p\<close> in the first pass.
\<close>

theorem consumed_mismatch_is_fatal:
  assumes tp: "m_tensor_model_parallel_size (e_margs e) = Some tp"
    and pp: "m_pipeline_model_parallel_size (e_margs e) = Some pp"
    and p: "p < pp" and r1: "r1 < tp" and r2: "r2 < tp"
    and mm: "sf_consumed_train_samples (e_ckpt e p r1) \<noteq> sf_consumed_train_samples (e_ckpt e p r2)
           \<or> sf_consumed_valid_samples (e_ckpt e p r1) \<noteq> sf_consumed_valid_samples (e_ckpt e p r2)"
  shows "(\<forall>st margs. pipeline_rank st = p \<longrightarrow> get_models e margs tp st = Inl AssertionError)
       \<and> (\<exists>err q. load_checkpoint e args [] = (Inl err, q)
             \<and> last q = QStr ''exit'' \<and> QStr ''done'' \<notin> set q
             \<and> layer_count q
                 \<le> (case get_model_schema (a_model_type args) (a_loader_transformer_impl args)
                            (m_num_experts (e_margs e)) (m_expert_model_parallel_size (e_margs e)) of
                       Inl err \<Rightarrow> 0
                     | Inr sch \<Rightarrow> sum_list (map (\<lambda>p'. stage_layers sch e p' 0) [0..<p])))"
proof -
  define B where "B = (case get_model_schema (a_model_type args) (a_loader_transformer_impl args)
                            (m_num_experts (e_margs e)) (m_expert_model_parallel_size (e_margs e)) of
                       Inl err \<Rightarrow> 0
                     | Inr sch \<Rightarrow> sum_list (map (\<lambda>p'. stage_layers sch e p' 0) [0..<p]))"
  have G: "get_models e margs tp st = Inl AssertionError" if "pipeline_rank st = p" for st margs
    by (rule get_models_mismatch[OF r1 r2]) (use mm that in simp)
  let ?i = "init_state []"
  have qi: "queue ?i = []" by (simp add: init_state_def)
  have F: "fatal B (private_load_checkpoint e args [])"
  proof (cases "e_megatron_importable e")
    case False
    then show ?thesis
      by (simp add: private_load_checkpoint_def import_megatron_def fatal_def qi)
  next
    case imp: True
    show ?thesis
    proof (cases "check_for_args ((e_margs e)\<lparr> m_use_legacy_models := False,
                     m_transformer_impl := a_loader_transformer_impl args \<rparr>)")
      case None
      with imp show ?thesis
        by (simp add: private_load_checkpoint_def import_megatron_def checked_margs_def
            world_size_Some[OF tp pp] fatal_def qi)
    next
      case (Some margs)
      note M = check_for_args_Some[OF Some]
      have tpm: "the (m_tensor_model_parallel_size margs) = tp" using M(1) tp by simp
      have ppm: "the (m_pipeline_model_parallel_size margs) = pp" using M(2) pp by simp
      have pre: "private_load_checkpoint e args [] =
                   bind_err (raise_at ?i (check_model_type args)) (\<lambda>_.
                   bind_err (get_true_vocab_size e args ?i) (\<lambda>true_vocab_size.
                   bind_err (raise_at ?i (check_test_logits args tp (model_array_len margs))) (\<lambda>_.
                   bind_err (first_stage e margs tp ?i) (\<lambda>st.
                   send_all e args margs
                     (make_md args margs (e_checkpoint_args e)
                        (norm_has_bias_of (e_checkpoint_args e)) true_vocab_size) st))))"
        using imp Some
        by (simp add: private_load_checkpoint_def import_megatron_def checked_margs_def
            world_size_Some[OF tp pp] tpm model_array_len_def)
      show ?thesis
      proof (cases "check_model_type args")
        case (Inl a)
        then have "is_Exception a" by (auto simp: check_model_type_def split: if_splits)
        with Inl show ?thesis by (simp add: pre fatal_def qi)
      next
        case mt: (Inr u)
        show ?thesis
        proof (cases "get_true_vocab_size e args ?i")
          case (Inl a)
          then have "a = (SystemExit 1, put (QStr ''exit'') ?i)
                   \<or> (\<exists>f. a = (FileNotFoundError f, ?i))"
            by (auto simp: get_true_vocab_size_def split: option.splits if_splits)
          with Inl mt show ?thesis by (auto simp: pre fatal_def qi)
        next
          case tv: (Inr v)
          show ?thesis
          proof (cases "check_test_logits args tp (model_array_len margs)")
            case (Inl a)
            then have "is_Exception a" by (auto simp: check_test_logits_def split: if_splits)
            with Inl mt tv show ?thesis by (simp add: pre fatal_def qi)
          next
            case tl: (Inr u')
            show ?thesis
            proof (cases "first_stage e margs tp ?i")
              case (Inl a)
              obtain err s' where a: "a = (err, s')" by (cases a)
              from first_stage_Inl[OF Inl[unfolded a]] Inl a mt tv tl show ?thesis
                by (simp add: pre fatal_def qi)
            next
              case fs: (Inr st1)
              note FS = first_stage_Inr[OF fs]
              have p0: "0 < p"
              proof (rule ccontr)
                assume "\<not> 0 < p"
                then have "p = 0" by simp
                from fs obtain r where "get_models e margs tp (?i\<lparr>pipeline_rank := 0\<rparr>) = Inr r"
                  by (auto simp: first_stage_def bind_err_Inr_iff)
                with G[of "?i\<lparr>pipeline_rank := 0\<rparr>" margs] \<open>p = 0\<close> show False by simp
              qed
              define md where "md = (make_md args margs (e_checkpoint_args e)
                                       (norm_has_bias_of (e_checkpoint_args e)) v)
                                      \<lparr> md_consumed_train_samples := consumed_train_samples st1,
                                        md_consumed_valid_samples := consumed_valid_samples st1 \<rparr>"
              have mdt: "md_model_type (make_md args margs (e_checkpoint_args e)
                                       (norm_has_bias_of (e_checkpoint_args e)) v)
                           = a_model_type args"
                by (simp add: make_md_def)
              let ?s0 = "put (QMetadata md) st1"
              have sa: "private_load_checkpoint e args [] =
                          bind_err (raise_at ?s0
                                      (get_model_schema (a_model_type args)
                                         (a_loader_transformer_impl args)
                                         (m_num_experts (e_margs e))
                                         (m_expert_model_parallel_size (e_margs e))))
                            (\<lambda>sch. send_messages (make_ctx e args margs md sch) ?s0)"
                using mt tv tl fs M(4,5,10)
                by (simp add: pre send_all_def Let_def md_def[symmetric] mdt)
              have q0: "queue ?s0 = [QMetadata md]" using FS(3) by (simp add: qi)
              show ?thesis
              proof (cases "get_model_schema (a_model_type args) (a_loader_transformer_impl args)
                              (m_num_experts (e_margs e))
                              (m_expert_model_parallel_size (e_margs e))")
                case (Inl a)
                then have "is_Exception a" by (rule only_exceptionsD[rotated]) simp
                with Inl show ?thesis by (simp add: sa fatal_def q0 del: put_simps)
              next
                case sc: (Inr sch)
                let ?c = "make_ctx e args margs md sch"
                have Bs: "B = sum_list (map (\<lambda>p'. stage_layers sch e p' 0) [0..<p])"
                  by (simp add: B_def sc)
                show ?thesis
                proof (cases "send_embeddings ?c ?s0")
                  case (Inl a)
                  obtain err s' where a: "a = (err, s')" by (cases a)
                  from send_embeddings_Inl[OF Inl[unfolded a]] Inl a sc show ?thesis
                    by (simp add: sa send_messages_def fatal_def q0 del: put_simps)
                next
                  case em: (Inr s1)
                  from em obtain emb where s1: "s1 = queue_put ''embeddings'' emb ?s0"
                    by (rule send_embeddings_Inr)
                  have am: "all_models s1
                              = loaded_stages (c_env ?c) (c_margs ?c) (c_tp_size ?c) 1"
                    using FS(1) by (simp add: s1 tpm)
                  have q1: "queue s1 = [QMetadata md,
                                        QMessage (setitem emb ''name'' (PStr ''embeddings''))]"
                    using q0 by (simp add: s1)
                  have nd: "QStr ''done'' \<notin> set (queue s1)" by (simp add: q1)
                  have lc: "layer_count (queue s1) = 0"
                    using layer_count_simps(6)[of "[QMetadata md]" emb]
                      layer_count_simps(5)[of "[]" md]
                    by (simp add: q1)
                  have W: "fatal (sum_list (map (\<lambda>p'. stage_layers (c_schema ?c) (c_env ?c) p' 0)
                                              [0..<p])) (send_layers ?c s1)"
                    by (rule bad_walk[OF p0 _ _ _ _ am _ _ _ nd lc, of r1 r2])
                      (use r1 r2 mm p FS(6) in \<open>simp_all add: tpm ppm\<close>)
                  from W obtain err s' where
                    sl: "send_layers ?c s1 = Inl (err, s')"
                    by (cases "send_layers ?c s1") (auto simp: fatal_def)
                  have "private_load_checkpoint e args [] = Inl (err, s')"
                    by (simp add: sa sc send_messages_def em sl)
                  with W sl show ?thesis by (simp add: Bs)
                qed
              qed
            qed
          qed
        qed
      qed
    qed
  qed
  from fatal_load_checkpoint[OF F] G show ?thesis
    unfolding B_def by blast
qed


theorem consumed_mismatch_is_fatal_witness:
  "m_tensor_model_parallel_size (e_margs mismatch_env) = Some 2
   \<and> m_pipeline_model_parallel_size (e_margs mismatch_env) = Some 2
   \<and> sf_consumed_train_samples (e_ckpt mismatch_env 1 0)
       \<noteq> sf_consumed_train_samples (e_ckpt mismatch_env 1 1)
   \<and> get_models mismatch_env ex_margs 2 ((init_state [])\<lparr>pipeline_rank := 1\<rparr>)
       = Inl AssertionError
   \<and> fst (load_checkpoint mismatch_env ex_args []) = Inl AssertionError
   \<and> map label_of (snd (load_checkpoint mismatch_env ex_args []))
       = [LMetadata, LMessage ''embeddings'', LMessage (layer_name 0), LSentinel ''exit'']
   \<and> last (snd (load_checkpoint mismatch_env ex_args [])) = QStr ''exit''
   \<and> QStr ''done'' \<notin> set (snd (load_checkpoint mismatch_env ex_args []))
   \<and> layer_count (snd (load_checkpoint mismatch_env ex_args [])) \<le> 1"
proof -
  have tp: "m_tensor_model_parallel_size (e_margs mismatch_env) = Some 2"
    and pp: "m_pipeline_model_parallel_size (e_margs mismatch_env) = Some 2"
    by code_simp+
  have ne: "sf_consumed_train_samples (e_ckpt mismatch_env 1 0)
              \<noteq> sf_consumed_train_samples (e_ckpt mismatch_env 1 1)"
    by code_simp
  have mm: "sf_consumed_train_samples (e_ckpt mismatch_env 1 0)
              \<noteq> sf_consumed_train_samples (e_ckpt mismatch_env 1 1)
          \<or> sf_consumed_valid_samples (e_ckpt mismatch_env 1 0)
              \<noteq> sf_consumed_valid_samples (e_ckpt mismatch_env 1 1)"
    using ne by simp
  have b: "(case get_model_schema (a_model_type ex_args) (a_loader_transformer_impl ex_args)
                   (m_num_experts (e_margs mismatch_env))
                   (m_expert_model_parallel_size (e_margs mismatch_env)) of
              Inl err \<Rightarrow> 0
            | Inr sch \<Rightarrow> sum_list (map (\<lambda>p'. stage_layers sch mismatch_env p' 0) [0..<1])) = 1"
    by code_simp
  have er: "fst (load_checkpoint mismatch_env ex_args []) = Inl AssertionError"
    by code_simp
  have lb: "map label_of (snd (load_checkpoint mismatch_env ex_args []))
       = [LMetadata, LMessage ''embeddings'', LMessage (layer_name 0), LSentinel ''exit'']"
    by code_simp
  have p: "(1::nat) < 2" and r1: "(0::nat) < 2" by simp_all
  note T = consumed_mismatch_is_fatal [OF tp pp p r1 p mm, of ex_args]
  from T have g: "get_models mismatch_env ex_margs 2 ((init_state [])\<lparr>pipeline_rank := 1\<rparr>)
                    = Inl AssertionError"
    by simp
  from T obtain err q where
    q: "load_checkpoint mismatch_env ex_args [] = (Inl err, q)"
      and l: "last q = QStr ''exit''" and d: "QStr ''done'' \<notin> set q"
      and c: "layer_count q \<le> 1"
    unfolding b by blast
  from q l d c have "last (snd (load_checkpoint mismatch_env ex_args [])) = QStr ''exit''"
    "QStr ''done'' \<notin> set (snd (load_checkpoint mismatch_env ex_args []))"
    "layer_count (snd (load_checkpoint mismatch_env ex_args [])) \<le> 1"
    by simp_all
  with tp pp ne g er lb show ?thesis by blast
qed

section \<open>The transformer-layer messages of a mixture of experts\<close>

lemma expert_roles_keys:
  "(k, path) \<in> set (expert_roles role suffix n) \<Longrightarrow> take (length role + 1) k = role @ ''.''"
  by (auto simp: expert_roles_def)

lemma moe_layer_schema_no_fc1: "map_of (moe_layer_schema n) ''mlp_fc1_weight'' = None"
proof -
  have "''mlp_fc1_weight'' \<notin> fst ` set (moe_layer_schema n)"
    by (auto simp: moe_layer_schema_def dest!: expert_roles_keys)
  then show ?thesis by (simp add: map_of_eq_None_iff)
qed

lemma map_of_schema_get_all:
  "map_of (schema_get_all sec obj) k = map_option (get_deep_attr obj) (map_of sec k)"
  by (induction sec) (auto simp: schema_get_all_def)

lemma moe_schema_layer:
  assumes "get_model_schema mt impl (Some n) ep = Inr sch" and "0 < n"
  shows "\<exists>k. s_layer sch = moe_layer_schema k"
  using assms
  by (auto simp: get_model_schema_def CoreMoETESchema_def CoreSchema_def bind_err_Inr_iff
      split: option.splits if_splits)

lemma moe_layer_message_fails:
  assumes "get_model_schema mt impl (Some n) ep = Inr sch" and "0 < n"
  shows "layer_message sch md nb tp ms l \<noteq> Inr message"
proof
  assume ok: "layer_message sch md nb tp ms l = Inr message"
  from moe_schema_layer[OF assms] obtain k where k: "s_layer sch = moe_layer_schema k" ..
  from ok obtain m0 pt where m0: "list_index ms 0 = Inr m0"
    and g: "grab_parallel sch md l ms no_tensors = Inr pt"
    by (auto simp: layer_message_def bind_err_Inr_iff)
  from m0 obtain rest where ms: "ms = m0 # rest"
    by (cases ms) (auto simp: list_index_def)
  from g[unfolded ms] obtain layer l0 where
    gl: "get_layer sch m0 l = Inr layer" and f: "getitem layer ''mlp_fc1_weight'' = Inr l0"
    by (auto simp: bind_err_Inr_iff)
  from gl obtain obj where "layer = schema_get_all (s_layer sch) obj"
    by (auto simp: get_layer_def bind_err_Inr_iff)
  with f show False
    by (simp add: getitem_def map_of_schema_get_all k moe_layer_schema_no_fc1)
qed

text \<open>
  C1: every valid geometry and every architecture variant should give \<^verbatim>\<open>num_layers\<close>
  transformer-layer messages, named with \<open>0, \<dots>, num_layers - 1\<close>. Take the
  mixture-of-experts variant on one tensor-parallel and one pipeline rank, with
  \<^verbatim>\<open>num_layers = 1\<close> and one layer in the only stage, whose shard holds the first and
  second linear weight of both local experts. The run selects the schema of this
  variant, finds one layer in the stage, and stops at that layer with a \<^verbatim>\<open>KeyError\<close>
  (line 341 reads the role \<^verbatim>\<open>mlp_fc1_weight\<close>, which this schema only has per expert):
  the queue holds no transformer-layer message.
\<close>

theorem moe_run_emits_no_layer_message:
  "m_tensor_model_parallel_size (e_margs moe_env) = Some 1
   \<and> m_pipeline_model_parallel_size (e_margs moe_env) = Some 1
   \<and> model_array_len (e_margs moe_env) = 1
   \<and> m_num_layers (e_margs moe_env) = Some 1
   \<and> get_model_schema (a_model_type ex_args) (a_loader_transformer_impl ex_args)
        (m_num_experts (e_margs moe_env)) (m_expert_model_parallel_size (e_margs moe_env))
       = Inr moe_schema
   \<and> get_num_layers moe_schema (sf_model (e_ckpt moe_env 0 0) 0) = Inr 1
   \<and> map_sum id (\<lambda>layer. map (\<lambda>role. dict_get layer role \<noteq> PNone)
                     [''mlp_fc1_weight.0'', ''mlp_fc2_weight.0'',
                      ''mlp_fc1_weight.1'', ''mlp_fc2_weight.1''])
        (get_layer moe_schema (sf_model (e_ckpt moe_env 0 0) 0) 0)
       = Inr [True, True, True, True]
   \<and> map_sum fst (\<lambda>st. ()) (private_load_checkpoint moe_env ex_args [])
       = Inl (KeyError ''mlp_fc1_weight'')
   \<and> filter is_layer_label (map label_of (snd (load_checkpoint moe_env ex_args []))) = []
   \<and> layer_count (snd (load_checkpoint moe_env ex_args [])) = 0"
  by code_simp

end
